(* ===== verification/Prelude.thy ===== *)
theory Prelude
  imports Main "HOL-Library.Word" "HOL-Library.Multiset" "HOL-Library.State_Monad"
begin

text \<open>
  What the component theories share: the machine types of the C code, the state monad
  with its weakest-precondition calculus, the two list operations that stand for
  \<^verbatim>\<open>memcpy\<close> and \<^verbatim>\<open>memmove\<close> on a buffer, the byte order of the wire, loops over a
  collection, and the flag arithmetic on event masks.
\<close>

unbundle bit_operations_syntax

section \<open>Machine types\<close>

type_synonym u8 = "8 word"
type_synonym u16 = "16 word"
type_synonym u32 = "32 word"
type_synonym u64 = "64 word"
type_synonym bytes = "8 word list"

text \<open>A pointer is an address; a pointer that may be NULL is an \<open>option\<close>.\<close>

type_synonym ptr = nat

text \<open>Unsigned arithmetic where it does not wrap.\<close>

lemma unat_bound: "unat (w :: 'a::len word) < 2 ^ LENGTH('a)"
  by simp

lemma unat_of_nat_small: "n < 2 ^ LENGTH('a) \<Longrightarrow> unat (of_nat n :: 'a::len word) = n"
  by (simp add: unsigned_of_nat take_bit_nat_eq_self)

lemma unat_sub_of_nat:
  fixes w :: "'a::len word"
  assumes "n \<le> unat w"
  shows "unat (w - of_nat n) = unat w - n"
proof -
  have u: "unat (of_nat n :: 'a word) = n"
    using assms unat_bound [of w] by (intro unat_of_nat_small) linarith
  then have "of_nat n \<le> w" using assms by (simp add: word_le_nat_alt)
  then show ?thesis using u by (simp add: unat_sub)
qed

lemma unat_add_of_nat:
  fixes w :: "'a::len word"
  assumes "unat w + n < 2 ^ LENGTH('a)"
  shows "unat (w + of_nat n) = unat w + n"
proof -
  have "unat (of_nat n :: 'a word) = n"
    using assms by (intro unat_of_nat_small) linarith
  then show ?thesis using assms by (simp add: unat_word_ariths)
qed

lemma sint_small:
  fixes w :: u32
  assumes "unat w < 2 ^ 31"
  shows "sint w = int (unat w)"
proof -
  have "uint w < 2 ^ 31" using assms by (metis of_nat_less_iff of_nat_numeral of_nat_power uint_nat)
  moreover have "- (2 ^ 31) \<le> uint w" by (rule order_trans [of _ 0]) simp_all
  ultimately have "signed_take_bit 31 (uint w) = uint w"
    by (intro signed_take_bit_int_eq_self)
  then show ?thesis by (simp add: sint_uint)
qed

section \<open>State monad\<close>

named_theorems wp_rules \<open>weakest preconditions of the monad and of the primitives\<close>
named_theorems frame_rules \<open>what an operation leaves alone\<close>

abbreviation ret :: "'a \<Rightarrow> ('s, 'a) state" where
  "ret \<equiv> State_Monad.return"

definition gets :: "('s \<Rightarrow> 'a) \<Rightarrow> ('s, 'a) state" where
  "gets f = State (\<lambda>s. (f s, s))"

definition modify :: "('s \<Rightarrow> 's) \<Rightarrow> ('s, unit) state" where
  "modify f = State (\<lambda>s. ((), f s))"

definition skip :: "('s, unit) state" where
  "skip = ret ()"

definition whenM :: "bool \<Rightarrow> ('s, unit) state \<Rightarrow> ('s, unit) state" where
  "whenM b m = (if b then m else skip)"

lemma run_gets [simp]: "run_state (gets f) s = (f s, s)"
  by (simp add: gets_def)

lemma run_modify [simp]: "run_state (modify f) s = ((), f s)"
  by (simp add: modify_def)

lemma run_skip [simp]: "run_state skip s = ((), s)"
  by (simp add: skip_def)

lemma run_if [simp]:
  "run_state (if b then m else n) s = (if b then run_state m s else run_state n s)"
  by simp

lemma run_when [simp]: "run_state (whenM b m) s = (if b then run_state m s else ((), s))"
  by (simp add: whenM_def)

text \<open>
  \<open>wp m Q s\<close>: running \<open>m\<close> from \<open>s\<close> ends in a result and a state that satisfy \<open>Q\<close>.
  All programs of the model are total, so this is a total-correctness statement.
\<close>

definition wp :: "('s, 'a) state \<Rightarrow> ('a \<Rightarrow> 's \<Rightarrow> bool) \<Rightarrow> 's \<Rightarrow> bool" where
  "wp m Q s = (case run_state m s of (a, s') \<Rightarrow> Q a s')"

lemma wp_return [wp_rules]: "wp (ret x) Q s = Q x s"
  by (simp add: wp_def)

lemma wp_bind [wp_rules]:
  "wp (State_Monad.bind m f) Q s = wp m (\<lambda>a. wp (f a) Q) s"
  by (simp add: wp_def split: prod.splits)

lemma wp_gets [wp_rules]: "wp (gets f) Q s = Q (f s) s"
  by (simp add: wp_def)

lemma wp_modify [wp_rules]: "wp (modify f) Q s = Q () (f s)"
  by (simp add: wp_def)

lemma wp_skip [wp_rules]: "wp skip Q s = Q () s"
  by (simp add: wp_def)

lemma wp_if [wp_rules]:
  "wp (if b then m else n) Q s = ((b \<longrightarrow> wp m Q s) \<and> (\<not> b \<longrightarrow> wp n Q s))"
  by simp

lemma wp_when [wp_rules]:
  "wp (whenM b m) Q s = ((b \<longrightarrow> wp m Q s) \<and> (\<not> b \<longrightarrow> Q () s))"
  by (simp add: whenM_def wp_skip)

lemma wp_case_option [wp_rules]:
  "wp (case x of None \<Rightarrow> m | Some y \<Rightarrow> f y) Q s =
     ((x = None \<longrightarrow> wp m Q s) \<and> (\<forall>y. x = Some y \<longrightarrow> wp (f y) Q s))"
  by (cases x) simp_all

lemma wp_case_sum [wp_rules]:
  "wp (case x of Inl e \<Rightarrow> m e | Inr y \<Rightarrow> f y) Q s =
     ((\<forall>e. x = Inl e \<longrightarrow> wp (m e) Q s) \<and> (\<forall>y. x = Inr y \<longrightarrow> wp (f y) Q s))"
  by (cases x) simp_all

lemma wp_case_prod [wp_rules]:
  "wp (case x of (a, b) \<Rightarrow> f a b) Q s = wp (f (fst x) (snd x)) Q s"
  by (cases x) simp

lemma wp_Let [wp_rules]: "wp (Let x f) Q s = wp (f x) Q s"
  by simp

text \<open>The same where the rule meets a program behind another one, without its state.\<close>

lemma wp_eta:
  "wp (ret x) Q = Q x" "wp skip R = R ()" "wp (State_Monad.bind m f) S = wp m (\<lambda>a. wp (f a) S)"
  by (rule ext, simp add: wp_rules)+

lemma wp_mono:
  assumes "wp m Q s" and "\<And>a s'. Q a s' \<Longrightarrow> R a s'"
  shows "wp m R s"
  using assms by (auto simp: wp_def split: prod.splits)

lemma wp_conj: "wp m Q s \<Longrightarrow> wp m R s \<Longrightarrow> wp m (\<lambda>a s'. Q a s' \<and> R a s') s"
  by (auto simp: wp_def split: prod.splits)

lemma wp_run: "wp m Q s \<Longrightarrow> run_state m s = (a, s') \<Longrightarrow> Q a s'"
  by (simp add: wp_def)

lemma wp_runI: "Q (fst (run_state m s)) (snd (run_state m s)) \<Longrightarrow> wp m Q s"
  by (simp add: wp_def split_beta)

lemma wp_snd: "wp m (\<lambda>_ s'. P s') s = P (snd (run_state m s))"
  by (simp add: wp_def split_beta)

text \<open>A property of the state that a program never breaks, whatever the state it starts from.\<close>

definition stable :: "('s \<Rightarrow> bool) \<Rightarrow> ('s, 'a) state \<Rightarrow> bool" where
  "stable P m \<longleftrightarrow> (\<forall>s. P s \<longrightarrow> P (snd (run_state m s)))"

lemma stable_rules [frame_rules]:
  "stable P (ret x)" "stable P (gets h)" "stable P skip"
  "stable P m \<Longrightarrow> (\<And>a. stable P (f a)) \<Longrightarrow> stable P (State_Monad.bind m f)"
  "stable P m \<Longrightarrow> stable P n \<Longrightarrow> stable P (if b then m else n)"
  "stable P u \<Longrightarrow> stable P (whenM b u)"
  "stable P m \<Longrightarrow> (\<And>y. stable P (g y)) \<Longrightarrow> stable P (case z of None \<Rightarrow> m | Some y \<Rightarrow> g y)"
  by (auto simp: stable_def split_beta split: option.splits)

section \<open>Loops over a collection\<close>

text \<open>
  \<^verbatim>\<open>FOREACH\<close> walks over a collection of pointers. \<open>find_m\<close> is a walk that breaks at
  the first element with a property; \<open>fold_m\<close> accumulates a value; \<open>foreach_m\<close> runs a body on every element and
  skips one that an earlier iteration has taken out of the collection.
\<close>

fun find_m :: "(ptr \<Rightarrow> ('s, bool) state) \<Rightarrow> ptr list \<Rightarrow> ('s, ptr option) state" where
  "find_m P [] = ret None"
| "find_m P (x # xs) = do {
     b \<leftarrow> P x;
     if b then ret (Some x) else find_m P xs
   }"

fun foreach_m :: "('s \<Rightarrow> ptr list) \<Rightarrow> (ptr \<Rightarrow> ('s, unit) state) \<Rightarrow> ptr list \<Rightarrow> ('s, unit) state" where
  "foreach_m col body [] = skip"
| "foreach_m col body (x # xs) = do {
     now \<leftarrow> gets col;
     whenM (x \<in> set now) (body x);
     foreach_m col body xs
   }"

fun fold_m :: "('b \<Rightarrow> ptr \<Rightarrow> ('s, 'b) state) \<Rightarrow> 'b \<Rightarrow> ptr list \<Rightarrow> ('s, 'b) state" where
  "fold_m f b [] = ret b"
| "fold_m f b (x # xs) = do {
     b' \<leftarrow> f b x;
     fold_m f b' xs
   }"

lemma run_fold_m_pure:
  assumes "\<And>b x. x \<in> set xs \<Longrightarrow> run_state (f b x) s = (g b x, s)"
  shows "run_state (fold_m f b xs) s = (foldl g b xs, s)"
  using assms by (induction xs arbitrary: b) auto

lemma wp_fold_m_pure:
  assumes "\<And>b x. x \<in> set xs \<Longrightarrow> run_state (f b x) s = (g b x, s)"
  shows "wp (fold_m f b xs) Q s = Q (foldl g b xs) s"
  using run_fold_m_pure [of xs f s g b] assms by (simp add: wp_def)

lemma wp_find_m_pure:
  assumes "\<And>x. x \<in> set xs \<Longrightarrow> run_state (P x) s = (p x, s)"
  shows "wp (find_m P xs) Q s = Q (find p xs) s"
  using assms by (induction xs) (auto simp: wp_rules wp_def)

lemma run_find_m_pure:
  assumes "\<And>x. x \<in> set xs \<Longrightarrow> run_state (P x) s = (p x, s)"
  shows "run_state (find_m P xs) s = (find p xs, s)"
  using assms by (induction xs) auto

lemma wp_foreach_m:
  assumes step: "\<And>x s. x \<in> set xs \<Longrightarrow> I s \<Longrightarrow> x \<in> set (col s) \<Longrightarrow> wp (body x) (\<lambda>_. I) s"
    and init: "I s"
  shows "wp (foreach_m col body xs) (\<lambda>_. I) s"
  using assms
proof (induction xs arbitrary: s)
  case Nil
  then show ?case by (simp add: wp_rules)
next
  case (Cons x xs)
  have rest: "wp (foreach_m col body xs) (\<lambda>_. I) s'" if "I s'" for s'
    using Cons.IH Cons.prems(1) that by simp
  show ?case
  proof (cases "x \<in> set (col s)")
    case True
    then have "wp (body x) (\<lambda>_. I) s" using Cons.prems by simp
    then show ?thesis
      using True by (auto simp: wp_rules intro: wp_mono rest)
  next
    case False
    then show ?thesis using rest Cons.prems(2) by (simp add: wp_rules)
  qed
qed

section \<open>Buffers\<close>

text \<open>
  A buffer is the list of the bytes of its allocation that have been written, so a read
  past its end is a read of memory the program never wrote. \<open>memcpy_at buf off src\<close>
  overwrites from \<open>off\<close> on, \<open>memmove_down buf from n\<close> moves \<open>n\<close> bytes to the front;
  both keep the bytes behind the written range.
\<close>

definition memcpy_at :: "bytes \<Rightarrow> nat \<Rightarrow> bytes \<Rightarrow> bytes" where
  "memcpy_at buf off src = take off buf @ src @ drop (off + length src) buf"

definition memmove_down :: "bytes \<Rightarrow> nat \<Rightarrow> nat \<Rightarrow> bytes" where
  "memmove_down buf from n = take n (drop from buf) @ drop n buf"

lemma take_memcpy_at:
  "off \<le> length buf \<Longrightarrow> take (off + length src) (memcpy_at buf off src) = take off buf @ src"
  by (simp add: memcpy_at_def)

lemma length_memcpy_at:
  "off \<le> length buf \<Longrightarrow> length (memcpy_at buf off src) = max (length buf) (off + length src)"
  by (simp add: memcpy_at_def)

lemma take_memmove_down:
  "from + n \<le> length buf \<Longrightarrow> take n (memmove_down buf from n) = take n (drop from buf)"
  by (simp add: memmove_down_def)

lemma length_memmove_down:
  "from + n \<le> length buf \<Longrightarrow> length (memmove_down buf from n) = length buf"
  by (simp add: memmove_down_def)

section \<open>Byte order\<close>

text \<open>
  \<open>be16\<close> and \<open>be32\<close> are the bytes in memory after \<^verbatim>\<open>htons\<close> and \<^verbatim>\<open>htonl\<close>; \<open>le32\<close> and
  \<open>le16\<close> are the bytes of a field stored as it is on the little-endian hosts the daemon
  runs on. The readers take the offset of the field and have no value past the end of
  the buffer.
\<close>

definition be16 :: "u16 \<Rightarrow> bytes" where
  "be16 w = [ucast (drop_bit 8 w), ucast w]"

definition be32 :: "u32 \<Rightarrow> bytes" where
  "be32 w = [ucast (drop_bit 24 w), ucast (drop_bit 16 w), ucast (drop_bit 8 w), ucast w]"

definition le16 :: "u16 \<Rightarrow> bytes" where
  "le16 w = rev (be16 w)"

definition le32 :: "u32 \<Rightarrow> bytes" where
  "le32 w = rev (be32 w)"

definition join16 :: "u8 \<Rightarrow> u8 \<Rightarrow> u16" where
  "join16 a b = push_bit 8 (ucast a) OR ucast b"

definition join32 :: "u8 \<Rightarrow> u8 \<Rightarrow> u8 \<Rightarrow> u8 \<Rightarrow> u32" where
  "join32 a b c d = push_bit 24 (ucast a) OR push_bit 16 (ucast b) OR push_bit 8 (ucast c) OR ucast d"

definition rd_be16 :: "bytes \<Rightarrow> nat \<Rightarrow> u16 option" where
  "rd_be16 buf off = (if off + 2 \<le> length buf then Some (join16 (buf ! off) (buf ! (off + 1))) else None)"

definition rd_be32 :: "bytes \<Rightarrow> nat \<Rightarrow> u32 option" where
  "rd_be32 buf off =
     (if off + 4 \<le> length buf
      then Some (join32 (buf ! off) (buf ! (off + 1)) (buf ! (off + 2)) (buf ! (off + 3)))
      else None)"

definition rd_le16 :: "bytes \<Rightarrow> nat \<Rightarrow> u16 option" where
  "rd_le16 buf off = (if off + 2 \<le> length buf then Some (join16 (buf ! (off + 1)) (buf ! off)) else None)"

definition rd_le32 :: "bytes \<Rightarrow> nat \<Rightarrow> u32 option" where
  "rd_le32 buf off =
     (if off + 4 \<le> length buf
      then Some (join32 (buf ! (off + 3)) (buf ! (off + 2)) (buf ! (off + 1)) (buf ! off))
      else None)"

lemma length_be [simp]:
  "length (be16 w) = 2" "length (be32 v) = 4" "length (le16 w) = 2" "length (le32 v) = 4"
  by (simp_all add: be16_def be32_def le16_def le32_def)

lemma join16_split: "join16 (ucast (drop_bit 8 w)) (ucast w) = w"
  by (rule bit_word_eqI) (auto simp: join16_def bit_simps)

lemma join32_split:
  "join32 (ucast (drop_bit 24 w)) (ucast (drop_bit 16 w)) (ucast (drop_bit 8 w)) (ucast w) = w"
proof (rule bit_word_eqI)
  fix n
  assume n: "n < LENGTH(32)"
  consider "n < 8" | "8 \<le> n \<and> n < 16" | "16 \<le> n \<and> n < 24" | "24 \<le> n" by linarith
  then show "bit (join32 (ucast (drop_bit 24 w)) (ucast (drop_bit 16 w)) (ucast (drop_bit 8 w)) (ucast w)) n
      \<longleftrightarrow> bit w n"
    using n by cases (auto simp: join32_def bit_simps)
qed

lemma rd_be16_at:
  "off = length xs \<Longrightarrow> rd_be16 (xs @ be16 w @ ys) off = Some w"
  by (simp add: rd_be16_def be16_def nth_append join16_split)

lemma rd_be32_at:
  "off = length xs \<Longrightarrow> rd_be32 (xs @ be32 w @ ys) off = Some w"
  by (simp add: rd_be32_def be32_def nth_append join32_split)

lemma rd_le16_at:
  "off = length xs \<Longrightarrow> rd_le16 (xs @ le16 w @ ys) off = Some w"
  by (simp add: rd_le16_def le16_def be16_def nth_append join16_split)

lemma rd_le32_at:
  "off = length xs \<Longrightarrow> rd_le32 (xs @ le32 w @ ys) off = Some w"
  by (simp add: rd_le32_def le32_def be32_def nth_append join32_split)

lemma rd_Some_iff:
  "(\<exists>v. rd_be16 buf off = Some v) \<longleftrightarrow> off + 2 \<le> length buf"
  "(\<exists>v. rd_be32 buf off = Some v) \<longleftrightarrow> off + 4 \<le> length buf"
  "(\<exists>v. rd_le16 buf off = Some v) \<longleftrightarrow> off + 2 \<le> length buf"
  "(\<exists>v. rd_le32 buf off = Some v) \<longleftrightarrow> off + 4 \<le> length buf"
  by (auto simp: rd_be16_def rd_be32_def rd_le16_def rd_le32_def)

section \<open>Event masks\<close>

text \<open>The \<^verbatim>\<open>poll\<close> event bits, and what setting and clearing one bit does to a mask.\<close>

definition POLLIN :: u16 where "POLLIN = 1"
definition POLLOUT :: u16 where "POLLOUT = 4"

definition has_flag :: "'a::len word \<Rightarrow> 'a word \<Rightarrow> bool" where
  "has_flag e f \<longleftrightarrow> e AND f \<noteq> 0"

lemma has_flag_zero [simp]: "\<not> has_flag 0 f"
  by (simp add: has_flag_def)

lemma has_flag_set: "f \<noteq> 0 \<Longrightarrow> has_flag (e OR f) f"
  by (simp add: has_flag_def bit.conj_disj_distrib2 or.commute)

lemma has_flag_clear: "\<not> has_flag (e AND NOT f) f"
  by (simp add: has_flag_def and.assoc)

lemma has_flag_set_other: "f AND g = 0 \<Longrightarrow> has_flag (e OR f) g = has_flag e g"
  by (simp add: has_flag_def bit.conj_disj_distrib2)

lemma has_flag_clear_other: "f AND g = 0 \<Longrightarrow> has_flag (e AND NOT f) g = has_flag e g"
proof -
  assume fg: "f AND g = 0"
  have "g = g AND (f OR NOT f)" by simp
  also have "\<dots> = NOT f AND g"
    using fg by (simp only: bit.conj_disj_distrib and.commute) (simp add: and.commute)
  finally have "(e AND NOT f) AND g = e AND g"
    by (simp add: and.assoc)
  then show ?thesis by (simp add: has_flag_def)
qed

lemma POLL_flags [simp]:
  "has_flag (e OR POLLIN) POLLIN" "has_flag (e OR POLLOUT) POLLOUT"
  "\<not> has_flag (e AND NOT POLLIN) POLLIN" "\<not> has_flag (e AND NOT POLLOUT) POLLOUT"
  "has_flag (e OR POLLIN) POLLOUT = has_flag e POLLOUT"
  "has_flag (e OR POLLOUT) POLLIN = has_flag e POLLIN"
  "has_flag (e AND NOT POLLIN) POLLOUT = has_flag e POLLOUT"
  "has_flag (e AND NOT POLLOUT) POLLIN = has_flag e POLLIN"
  "has_flag POLLIN POLLIN" "has_flag POLLOUT POLLOUT"
  "\<not> has_flag POLLIN POLLOUT" "\<not> has_flag POLLOUT POLLIN"
  by (rule has_flag_set has_flag_clear has_flag_set_other has_flag_clear_other;
      simp add: POLLIN_def POLLOUT_def)+
    (simp_all add: has_flag_def POLLIN_def POLLOUT_def)

end
