(* ===== verification/Proto.thy ===== *)
theory Proto
  imports Prelude
begin

text \<open>
  The wire formats. Towards the clients: the messages of \<^verbatim>\<open>usbmuxd-proto.h\<close>, packed
  structs in host byte order. Towards the devices: the mux header, the version header
  and the TCP header that \<^verbatim>\<open>device.c\<close> writes in network byte order. Every struct has an
  encoder (its bytes in memory) and a decoder that reads it at an offset of a buffer;
  the locale \<open>codec\<close> states what the two promise each other and is interpreted for
  each struct.
\<close>

section \<open>Codecs\<close>

locale codec =
  fixes enc :: "'a \<Rightarrow> bytes"
    and dec :: "bytes \<Rightarrow> nat \<Rightarrow> 'a option"
    and width :: nat
  assumes enc_width: "length (enc v) = width"
    and dec_enc: "dec (xs @ enc v @ ys) (length xs) = Some v"
begin

lemma dec_enc_front: "dec (enc v @ ys) 0 = Some v"
  using dec_enc [of "[]"] by simp

lemma enc_inj: "enc v = enc w \<Longrightarrow> v = w"
  using dec_enc_front [of v "[]"] dec_enc_front [of w "[]"] by simp

lemma enc_prefix_free: "enc v @ xs = enc w @ ys \<Longrightarrow> v = w \<and> xs = ys"
proof -
  assume eq: "enc v @ xs = enc w @ ys"
  then have "enc v = enc w" and "xs = ys"
    using enc_width [of v] enc_width [of w] by (simp_all add: append_eq_append_conv)
  then show ?thesis using enc_inj by simp
qed

lemma stream_unique:
  "concat (map enc vs) = concat (map enc ws) \<Longrightarrow> length vs = length ws \<Longrightarrow> vs = ws"
proof (induction vs arbitrary: ws)
  case Nil
  then show ?case by simp
next
  case (Cons v vs)
  then obtain w ws' where ws: "ws = w # ws'" by (cases ws) auto
  with Cons.prems have "v = w \<and> concat (map enc vs) = concat (map enc ws')"
    using enc_prefix_free by simp
  with Cons ws show ?case by simp
qed

end

section \<open>Client protocol (usbmuxd-proto.h)\<close>

datatype usbmuxd_result =
  RESULT_OK | RESULT_BADCOMMAND | RESULT_BADDEV | RESULT_CONNREFUSED | RESULT_BADVERSION

fun result_num :: "usbmuxd_result \<Rightarrow> u32" where
  "result_num RESULT_OK = 0"
| "result_num RESULT_BADCOMMAND = 1"
| "result_num RESULT_BADDEV = 2"
| "result_num RESULT_CONNREFUSED = 3"
| "result_num RESULT_BADVERSION = 6"

datatype usbmuxd_msgtype =
  MESSAGE_RESULT | MESSAGE_CONNECT | MESSAGE_LISTEN | MESSAGE_DEVICE_ADD
| MESSAGE_DEVICE_REMOVE | MESSAGE_DEVICE_PAIRED | MESSAGE_PLIST

fun msgtype_num :: "usbmuxd_msgtype \<Rightarrow> u32" where
  "msgtype_num MESSAGE_RESULT = 1"
| "msgtype_num MESSAGE_CONNECT = 2"
| "msgtype_num MESSAGE_LISTEN = 3"
| "msgtype_num MESSAGE_DEVICE_ADD = 4"
| "msgtype_num MESSAGE_DEVICE_REMOVE = 5"
| "msgtype_num MESSAGE_DEVICE_PAIRED = 6"
| "msgtype_num MESSAGE_PLIST = 8"

record usbmuxd_header =
  hdr_length :: u32
  hdr_version :: u32
  hdr_message :: u32
  hdr_tag :: u32

definition enc_usbmuxd_header :: "usbmuxd_header \<Rightarrow> bytes" where
  "enc_usbmuxd_header h =
     le32 (hdr_length h) @ le32 (hdr_version h) @ le32 (hdr_message h) @ le32 (hdr_tag h)"

definition dec_usbmuxd_header :: "bytes \<Rightarrow> nat \<Rightarrow> usbmuxd_header option" where
  "dec_usbmuxd_header buf off = do {
     l \<leftarrow> rd_le32 buf off;
     v \<leftarrow> rd_le32 buf (off + 4);
     m \<leftarrow> rd_le32 buf (off + 8);
     t \<leftarrow> rd_le32 buf (off + 12);
     Some \<lparr>hdr_length = l, hdr_version = v, hdr_message = m, hdr_tag = t\<rparr>
   }"

text \<open>
  A connect request continues behind the header with the device id and the port; the
  port keeps the byte order in which the client sent it.
\<close>

record usbmuxd_connect_request =
  ch_header :: usbmuxd_header
  ch_device_id :: u32
  ch_port :: u16
  ch_reserved :: u16

definition enc_connect_request :: "usbmuxd_connect_request \<Rightarrow> bytes" where
  "enc_connect_request r =
     enc_usbmuxd_header (ch_header r) @ le32 (ch_device_id r) @ le16 (ch_port r) @ le16 (ch_reserved r)"

definition dec_connect_request :: "bytes \<Rightarrow> nat \<Rightarrow> usbmuxd_connect_request option" where
  "dec_connect_request buf off = do {
     h \<leftarrow> dec_usbmuxd_header buf off;
     d \<leftarrow> rd_le32 buf (off + 16);
     p \<leftarrow> rd_le16 buf (off + 20);
     r \<leftarrow> rd_le16 buf (off + 22);
     Some \<lparr>ch_header = h, ch_device_id = d, ch_port = p, ch_reserved = r\<rparr>
   }"

text \<open>
  The device record of an attach notification. The serial number is an array of 256
  characters; the encoder takes its C string and fills the rest with zeros.
\<close>

record usbmuxd_device_record =
  dr_device_id :: u32
  dr_product_id :: u16
  dr_serial_number :: bytes
  dr_padding :: u16
  dr_location :: u32

definition enc_device_record :: "usbmuxd_device_record \<Rightarrow> bytes" where
  "enc_device_record r =
     le32 (dr_device_id r) @ le16 (dr_product_id r) @ dr_serial_number r @
     le16 (dr_padding r) @ le32 (dr_location r)"

section \<open>Device protocol (device.c)\<close>

datatype mux_protocol = MUX_PROTO_VERSION | MUX_PROTO_CONTROL | MUX_PROTO_SETUP | MUX_PROTO_TCP

fun proto_num :: "mux_protocol \<Rightarrow> u32" where
  "proto_num MUX_PROTO_VERSION = 0"
| "proto_num MUX_PROTO_CONTROL = 1"
| "proto_num MUX_PROTO_SETUP = 2"
| "proto_num MUX_PROTO_TCP = 6"

text \<open>
  The mux header has 8 bytes towards a device of protocol version 0 or 1 and 16 bytes
  from version 2 on; \<open>mh_ext\<close> holds the three later fields.
\<close>

record mux_header =
  mh_protocol :: u32
  mh_length :: u32
  mh_magic :: u32
  mh_tx_seq :: u16
  mh_rx_seq :: u16

definition enc_mux_header :: "mux_header \<Rightarrow> bytes" where
  "enc_mux_header h =
     be32 (mh_protocol h) @ be32 (mh_length h) @ be32 (mh_magic h) @
     be16 (mh_tx_seq h) @ be16 (mh_rx_seq h)"

definition dec_mux_header :: "bytes \<Rightarrow> nat \<Rightarrow> mux_header option" where
  "dec_mux_header buf off = do {
     p \<leftarrow> rd_be32 buf off;
     l \<leftarrow> rd_be32 buf (off + 4);
     m \<leftarrow> rd_be32 buf (off + 8);
     t \<leftarrow> rd_be16 buf (off + 12);
     r \<leftarrow> rd_be16 buf (off + 14);
     Some \<lparr>mh_protocol = p, mh_length = l, mh_magic = m, mh_tx_seq = t, mh_rx_seq = r\<rparr>
   }"

record version_header =
  vh_major :: u32
  vh_minor :: u32
  vh_padding :: u32

definition enc_version_header :: "version_header \<Rightarrow> bytes" where
  "enc_version_header h = be32 (vh_major h) @ be32 (vh_minor h) @ be32 (vh_padding h)"

definition dec_version_header :: "bytes \<Rightarrow> nat \<Rightarrow> version_header option" where
  "dec_version_header buf off = do {
     a \<leftarrow> rd_be32 buf off;
     b \<leftarrow> rd_be32 buf (off + 4);
     c \<leftarrow> rd_be32 buf (off + 8);
     Some \<lparr>vh_major = a, vh_minor = b, vh_padding = c\<rparr>
   }"

text \<open>The TCP header of \<^verbatim>\<open>netinet/tcp.h\<close>; the data offset and the reserved bits share a byte.\<close>

record tcphdr =
  th_sport :: u16
  th_dport :: u16
  th_seq :: u32
  th_ack :: u32
  th_off :: "4 word"
  th_x2 :: "4 word"
  th_flags :: u8
  th_win :: u16
  th_sum :: u16
  th_urp :: u16

definition TH_SYN :: u8 where "TH_SYN = 2"
definition TH_RST :: u8 where "TH_RST = 4"
definition TH_ACK :: u8 where "TH_ACK = 16"

lemma TH_distinct [simp]:
  "TH_SYN OR TH_ACK \<noteq> TH_ACK" "TH_ACK \<noteq> TH_SYN OR TH_ACK" "TH_RST \<noteq> TH_ACK" "TH_ACK \<noteq> TH_RST"
  "TH_RST \<noteq> TH_SYN OR TH_ACK" "\<not> has_flag (TH_SYN OR TH_ACK) TH_RST" "\<not> has_flag TH_ACK TH_RST"
  "has_flag TH_RST TH_RST"
  by (simp_all add: TH_SYN_def TH_ACK_def TH_RST_def has_flag_def)

text \<open>\<^verbatim>\<open>memset(&th, 0, sizeof(th))\<close> followed by \<^verbatim>\<open>th_off = sizeof(th) / 4\<close>.\<close>

definition tcphdr_zero :: tcphdr where
  "tcphdr_zero = \<lparr>th_sport = 0, th_dport = 0, th_seq = 0, th_ack = 0, th_off = 5, th_x2 = 0,
     th_flags = 0, th_win = 0, th_sum = 0, th_urp = 0\<rparr>"

definition enc_tcphdr :: "tcphdr \<Rightarrow> bytes" where
  "enc_tcphdr h =
     be16 (th_sport h) @ be16 (th_dport h) @ be32 (th_seq h) @ be32 (th_ack h) @
     [push_bit 4 (ucast (th_off h)) OR ucast (th_x2 h), th_flags h] @
     be16 (th_win h) @ be16 (th_sum h) @ be16 (th_urp h)"

definition dec_tcphdr :: "bytes \<Rightarrow> nat \<Rightarrow> tcphdr option" where
  "dec_tcphdr buf off = do {
     sp \<leftarrow> rd_be16 buf off;
     dp \<leftarrow> rd_be16 buf (off + 2);
     sq \<leftarrow> rd_be32 buf (off + 4);
     ak \<leftarrow> rd_be32 buf (off + 8);
     wn \<leftarrow> rd_be16 buf (off + 14);
     sm \<leftarrow> rd_be16 buf (off + 16);
     ur \<leftarrow> rd_be16 buf (off + 18);
     Some \<lparr>th_sport = sp, th_dport = dp, th_seq = sq, th_ack = ak,
       th_off = ucast (drop_bit 4 (buf ! (off + 12))), th_x2 = ucast (buf ! (off + 12)),
       th_flags = buf ! (off + 13), th_win = wn, th_sum = sm, th_urp = ur\<rparr>
   }"

section \<open>The codecs of the structs\<close>

lemma rd_shift:
  "rd_be16 (xs @ ys) (length xs + n) = rd_be16 ys n"
  "rd_be32 (xs @ ys) (length xs + n) = rd_be32 ys n"
  "rd_le16 (xs @ ys) (length xs + n) = rd_le16 ys n"
  "rd_le32 (xs @ ys) (length xs + n) = rd_le32 ys n"
  by (simp_all add: rd_be16_def rd_be32_def rd_le16_def rd_le32_def nth_append add.assoc)

lemmas rd_shift0 = rd_shift [where n = 0, simplified]

lemma rd_front [simp]:
  "rd_be16 (be16 v @ ys) 0 = Some v" "rd_be32 (be32 w @ ys) 0 = Some w"
  "rd_le16 (le16 v @ ys) 0 = Some v" "rd_le32 (le32 w @ ys) 0 = Some w"
  "rd_be16 (be16 v) 0 = Some v" "rd_be32 (be32 w) 0 = Some w"
  "rd_le16 (le16 v) 0 = Some v" "rd_le32 (le32 w) 0 = Some w"
  using rd_be16_at [of 0 "[]"] rd_be32_at [of 0 "[]"] rd_le16_at [of 0 "[]"] rd_le32_at [of 0 "[]"]
  by (simp_all, (metis append_Nil2)+)

lemma rd_skip:
  "length xs \<le> n \<Longrightarrow> rd_be16 (xs @ ys) n = rd_be16 ys (n - length xs)"
  "length xs \<le> n \<Longrightarrow> rd_be32 (xs @ ys) n = rd_be32 ys (n - length xs)"
  "length xs \<le> n \<Longrightarrow> rd_le16 (xs @ ys) n = rd_le16 ys (n - length xs)"
  "length xs \<le> n \<Longrightarrow> rd_le32 (xs @ ys) n = rd_le32 ys (n - length xs)"
  using rd_shift [of xs ys "n - length xs"] by simp_all

lemma rd_skip_Cons:
  "0 < n \<Longrightarrow> rd_be16 (x # ys) n = rd_be16 ys (n - 1)"
  "0 < n \<Longrightarrow> rd_be32 (x # ys) n = rd_be32 ys (n - 1)"
  using rd_skip [of "[x]" n ys] by simp_all

lemma nibbles:
  "ucast (drop_bit 4 (push_bit 4 (ucast (a :: 4 word)) OR ucast (b :: 4 word) :: u8)) = a"
  "ucast (push_bit 4 (ucast (a :: 4 word)) OR ucast (b :: 4 word) :: u8) = b"
  by (rule bit_word_eqI, auto simp: bit_simps dest: bit_imp_le_length)+

interpretation client_header: codec enc_usbmuxd_header dec_usbmuxd_header 16
  by unfold_locales
    (simp_all add: enc_usbmuxd_header_def dec_usbmuxd_header_def rd_shift rd_shift0 rd_skip)

interpretation connect_request: codec enc_connect_request dec_connect_request 24
proof unfold_locales
  show "length (enc_connect_request v) = 24" for v
    by (simp add: enc_connect_request_def client_header.enc_width)
  show "dec_connect_request (xs @ enc_connect_request v @ ys) (length xs) = Some v" for xs v ys
    using client_header.dec_enc [of xs "ch_header v"]
    by (simp add: enc_connect_request_def dec_connect_request_def rd_shift rd_skip
        client_header.enc_width)
qed

interpretation mux_hdr: codec enc_mux_header dec_mux_header 16
  by unfold_locales
    (simp_all add: enc_mux_header_def dec_mux_header_def rd_shift rd_shift0 rd_skip)

interpretation version_hdr: codec enc_version_header dec_version_header 12
  by unfold_locales
    (simp_all add: enc_version_header_def dec_version_header_def rd_shift rd_shift0 rd_skip)

interpretation tcp_hdr: codec enc_tcphdr dec_tcphdr 20
proof unfold_locales
  show "length (enc_tcphdr v) = 20" for v
    by (simp add: enc_tcphdr_def)
  show "dec_tcphdr (xs @ enc_tcphdr v @ ys) (length xs) = Some v" for xs v ys
  proof -
    have nth: "(be16 a @ be16 b @ be32 c @ be32 d @ x # y # zs) ! 12 = x"
      "(be16 a @ be16 b @ be32 c @ be32 d @ x # y # zs) ! 13 = y" for a b c d x y zs
      by (simp_all add: nth_append)
    show ?thesis
      by (simp add: enc_tcphdr_def dec_tcphdr_def rd_shift rd_shift0 rd_skip rd_skip_Cons
          nth nibbles nibbles [simplified])
  qed
qed

lemma length_enc [simp]:
  "length (enc_usbmuxd_header h) = 16" "length (enc_connect_request r) = 24"
  "length (enc_mux_header m) = 16" "length (enc_version_header v) = 12"
  "length (enc_tcphdr t) = 20"
  by (simp_all add: client_header.enc_width connect_request.enc_width mux_hdr.enc_width
      version_hdr.enc_width tcp_hdr.enc_width)

end
