(* ===== verification/Utils.thy ===== *)
theory Utils
  imports Prelude
begin

text \<open>
  \<^verbatim>\<open>utils.c\<close>: the growing array of poll descriptors that the main loop rebuilds in every
  iteration, and the millisecond clock. The locale \<open>pollset\<close> is what the main loop,
  \<^verbatim>\<open>client_get_fds\<close> and \<^verbatim>\<open>usb_get_fds\<close> rely on: descriptors come out in the order in
  which they were added.
\<close>

section \<open>fdlist\<close>

datatype fdowner = FD_LISTEN | FD_CLIENT | FD_USB

record pollfd =
  pfd_fd :: int
  pfd_events :: u16
  pfd_revents :: u16

record fdlist =
  fl_count :: nat
  fl_capacity :: nat
  fl_owners :: "fdowner list"
  fl_fds :: "pollfd list"

text \<open>
  The arrays are the elements written so far. A store past the allocated capacity has
  no result: \<open>None\<close>.
\<close>

definition store_at :: "nat \<Rightarrow> 'a list \<Rightarrow> nat \<Rightarrow> 'a \<Rightarrow> 'a list option" where
  "store_at cap xs i v = (if i < cap then Some (take i xs @ [v] @ drop (i + 1) xs) else None)"

definition fdlist_create :: fdlist where
  "fdlist_create = \<lparr>fl_count = 0, fl_capacity = 4, fl_owners = [], fl_fds = []\<rparr>"

definition fdlist_add :: "fdlist \<Rightarrow> fdowner \<Rightarrow> int \<Rightarrow> u16 \<Rightarrow> fdlist option" where
  "fdlist_add l owner fd events =
     (let cap = (if fl_count l = fl_capacity l then fl_capacity l * 2 else fl_capacity l) in
      do {
        owners \<leftarrow> store_at cap (fl_owners l) (fl_count l) owner;
        fds \<leftarrow> store_at cap (fl_fds l) (fl_count l)
                 \<lparr>pfd_fd = fd, pfd_events = events, pfd_revents = 0\<rparr>;
        Some (l\<lparr>fl_count := fl_count l + 1, fl_capacity := cap, fl_owners := owners, fl_fds := fds\<rparr>)
      })"

definition fdlist_free :: "fdlist \<Rightarrow> fdlist" where
  "fdlist_free l = l\<lparr>fl_count := 0, fl_capacity := 0, fl_owners := [], fl_fds := []\<rparr>"

definition fdlist_reset :: "fdlist \<Rightarrow> fdlist" where
  "fdlist_reset l = l\<lparr>fl_count := 0\<rparr>"

text \<open>The descriptors a list holds, each with its owner, and the well-formed lists.\<close>

definition fdlist_view :: "fdlist \<Rightarrow> (fdowner \<times> pollfd) list" where
  "fdlist_view l = zip (take (fl_count l) (fl_owners l)) (take (fl_count l) (fl_fds l))"

definition fdlist_ok :: "fdlist \<Rightarrow> bool" where
  "fdlist_ok l \<longleftrightarrow> 0 < fl_capacity l \<and> fl_count l \<le> fl_capacity l \<and>
     fl_count l \<le> length (fl_owners l) \<and> length (fl_owners l) \<le> fl_capacity l \<and>
     length (fl_fds l) = length (fl_owners l)"

text \<open>A loop that adds every descriptor of a sequence for one owner.\<close>

fun add_each :: "('l \<Rightarrow> fdowner \<Rightarrow> int \<Rightarrow> u16 \<Rightarrow> 'l option) \<Rightarrow> fdowner \<Rightarrow> (int \<times> u16) list \<Rightarrow> 'l \<Rightarrow> 'l option" where
  "add_each add w [] l = Some l"
| "add_each add w ((fd, ev) # xs) l = do { l' \<leftarrow> add l w fd ev; add_each add w xs l' }"

definition poll_entry :: "fdowner \<Rightarrow> int \<times> u16 \<Rightarrow> fdowner \<times> pollfd" where
  "poll_entry w x = (w, \<lparr>pfd_fd = fst x, pfd_events = snd x, pfd_revents = 0\<rparr>)"

locale pollset =
  fixes create :: 'l
    and reset :: "'l \<Rightarrow> 'l"
    and add :: "'l \<Rightarrow> fdowner \<Rightarrow> int \<Rightarrow> u16 \<Rightarrow> 'l option"
    and view :: "'l \<Rightarrow> (fdowner \<times> pollfd) list"
    and ok :: "'l \<Rightarrow> bool"
  assumes ok_create: "ok create" and view_create: "view create = []"
    and ok_reset: "ok l \<Longrightarrow> ok (reset l)" and view_reset: "view (reset l) = []"
    and add_Some: "ok l \<Longrightarrow> \<exists>l'. add l w fd ev = Some l' \<and> ok l' \<and> view l' = view l @ [poll_entry w (fd, ev)]"
begin

lemma add_each_Some:
  "ok l \<Longrightarrow> \<exists>l'. add_each add w xs l = Some l' \<and> ok l' \<and> view l' = view l @ map (poll_entry w) xs"
proof (induction xs arbitrary: l)
  case Nil
  then show ?case by simp
next
  case (Cons x xs)
  obtain fd ev where x: "x = (fd, ev)" by (cases x)
  from add_Some [OF Cons.prems, of w fd ev] obtain l1 where
    l1: "add l w fd ev = Some l1" "ok l1" "view l1 = view l @ [poll_entry w x]" using x by blast
  from Cons.IH [OF l1(2)] l1 x show ?case by auto
qed

text \<open>
  The poll set of one iteration of the main loop: the listening socket, then the USB
  descriptors, then one entry per client.
\<close>

lemma rebuild_Some:
  assumes "ok l"
  shows "\<exists>l'. add_each add FD_LISTEN [(lfd, ev)] (reset l) \<bind> add_each add FD_USB us \<bind> add_each add FD_CLIENT cs = Some l' \<and>
     ok l' \<and> view l' = poll_entry FD_LISTEN (lfd, ev) # map (poll_entry FD_USB) us @ map (poll_entry FD_CLIENT) cs"
proof -
  from add_each_Some [OF ok_reset [OF assms], of FD_LISTEN "[(lfd, ev)]"] obtain l1 where
    l1: "add_each add FD_LISTEN [(lfd, ev)] (reset l) = Some l1" "ok l1"
    "view l1 = [poll_entry FD_LISTEN (lfd, ev)]" by (auto simp: view_reset)
  from add_each_Some [OF l1(2), of FD_USB us] obtain l2 where
    l2: "add_each add FD_USB us l1 = Some l2" "ok l2"
    "view l2 = view l1 @ map (poll_entry FD_USB) us" by blast
  from add_each_Some [OF l2(2), of FD_CLIENT cs] l1 l2 show ?thesis by auto
qed

end

interpretation fdl: pollset fdlist_create fdlist_reset fdlist_add fdlist_view fdlist_ok
proof unfold_locales
  show "fdlist_ok fdlist_create" "fdlist_view fdlist_create = []"
    by (simp_all add: fdlist_ok_def fdlist_create_def fdlist_view_def)
  show "fdlist_ok l \<Longrightarrow> fdlist_ok (fdlist_reset l)" "fdlist_view (fdlist_reset l) = []" for l
    by (simp_all add: fdlist_ok_def fdlist_reset_def fdlist_view_def)
  show "\<exists>l'. fdlist_add l w fd ev = Some l' \<and> fdlist_ok l' \<and>
      fdlist_view l' = fdlist_view l @ [poll_entry w (fd, ev)]" if "fdlist_ok l" for l w fd ev
    using that by (auto simp: fdlist_ok_def fdlist_add_def fdlist_view_def store_at_def poll_entry_def Let_def)
qed

text \<open>The list the main loop polls has never been freed: adding to a freed list stores out of bounds.\<close>

lemma fdlist_add_freed: "fdlist_add (fdlist_free l) w fd ev = None"
  by (simp add: fdlist_free_def fdlist_add_def store_at_def)

section \<open>Clock\<close>

text \<open>
  \<^verbatim>\<open>get_tick_count\<close> takes the monotonic clock (seconds and nanoseconds), and the time of
  day (seconds and microseconds) where the monotonic clock is not available.
\<close>

definition get_tick_count :: "(int \<times> int) option \<Rightarrow> int \<times> int \<Rightarrow> int \<times> int" where
  "get_tick_count ts tod = (case ts of Some (sec, nsec) \<Rightarrow> (sec, nsec div 1000) | None \<Rightarrow> tod)"

definition mstime64 :: "int \<times> int \<Rightarrow> u64" where
  "mstime64 tv = word_of_int (fst tv * 1000 + snd tv div 1000)"

text \<open>A clock that shows \<open>ns\<close> nanoseconds, as \<^verbatim>\<open>clock_gettime\<close> returns it.\<close>

definition timespec_of :: "nat \<Rightarrow> int \<times> int" where
  "timespec_of ns = (int (ns div 10 ^ 9), int (ns mod 10 ^ 9))"

lemma mstime64_clock:
  "mstime64 (get_tick_count (Some (timespec_of ns)) tod) = of_nat (ns div 10 ^ 6)"
proof -
  define m where "m = ns div 10 ^ 6"
  have q: "ns div 10 ^ 9 = m div 1000"
    by (simp add: m_def flip: div_mult2_eq)
  have "ns mod (10 ^ 6 * 1000) = 10 ^ 6 * (m mod 1000) + ns mod 10 ^ 6"
    unfolding m_def by (rule mod_mult2_eq)
  then have r: "ns mod 10 ^ 9 div 1000 div 1000 = m mod 1000"
    by (simp flip: div_mult2_eq)
  have "int (ns div 10 ^ 9) * 1000 + int (ns mod 10 ^ 9) div 1000 div 1000 =
      int (ns div 10 ^ 9 * 1000 + ns mod 10 ^ 9 div 1000 div 1000)"
    by (simp add: zdiv_int)
  also have "\<dots> = int m"
    by (simp only: q r) simp
  finally have "int (ns div 10 ^ 9) * 1000 + int (ns mod 10 ^ 9) div 1000 div 1000 = int m" .
  then show ?thesis
    by (simp add: mstime64_def get_tick_count_def timespec_of_def m_def)
qed

end
