(* ===== verification/World.thy ===== *)
theory World
  imports Proto Utils
begin

text \<open>
  The state of the daemon and what it asks of the world outside. The structs that the C
  code allocates (connections, devices, clients, USB devices, transfers, packet buffers)
  live in stores indexed by address, so that a pointer kept after \<^verbatim>\<open>free\<close> is visible:
  an access through it is the fault \<open>UseAfterFree\<close>. The first fault is recorded in the
  state and never cleared; every theorem that an operation is safe shows that none is
  recorded. Code that is not part of the repository (the kernel's sockets and clocks,
  libusb, libplist, the collections of libimobiledevice-glue) is the parameter of type
  \<open>ext\<close>; its functions take the number of the call, so that successive calls may
  answer differently.
\<close>

section \<open>Data of the daemon\<close>

datatype fault =
    UseAfterFree | NullDeref | OutOfBounds | Uninitialised | Deadlock | DivideByZero | Diverges

datatype mux_dev_state = MUXDEV_INIT | MUXDEV_ACTIVE | MUXDEV_DEAD

datatype mux_conn_state = CONN_CONNECTING | CONN_CONNECTED | CONN_REFUSED | CONN_DYING | CONN_DEAD

datatype client_state =
    CLIENT_COMMAND | CLIENT_LISTEN | CLIENT_CONNECTING1 | CLIENT_CONNECTING2 | CLIENT_CONNECTED | CLIENT_DEAD

record mux_connection =
  conn_dev :: ptr
  conn_client :: "ptr option"
  conn_state :: mux_conn_state
  conn_sport :: u16
  conn_dport :: u16
  conn_tx_seq :: u32
  conn_tx_ack :: u32
  conn_tx_acked :: u32
  conn_tx_win :: u32
  conn_rx_seq :: u32
  conn_rx_recvd :: u32
  conn_rx_ack :: u32
  conn_rx_win :: u32
  conn_max_payload :: u32
  conn_sendable :: u32
  conn_flags :: u32
  conn_ib_buf :: bytes
  conn_ib_size :: u32
  conn_ib_capacity :: u32
  conn_ob_buf :: bytes
  conn_ob_capacity :: u32
  conn_events :: u16
  conn_last_ack_time :: u64

text \<open>
  The fields that \<^verbatim>\<open>device_add\<close> leaves as \<^verbatim>\<open>malloc\<close> returned them (the collection of
  connections until the version packet arrives, the two sequence numbers) are \<open>None\<close>
  until they are written.
\<close>

record mux_device =
  dev_usbdev :: ptr
  dev_id :: u32
  dev_state :: mux_dev_state
  dev_visible :: bool
  dev_connections :: "ptr list option"
  dev_next_sport :: u16
  dev_pktbuf :: bytes
  dev_pktlen :: u32
  dev_preflight_cb_data :: "ptr option"
  dev_version :: u32
  dev_rx_seq :: "u16 option"
  dev_tx_seq :: "u16 option"

record 'p mux_client =
  cl_fd :: int
  cl_ob_buf :: "bytes option"
  cl_ob_size :: u32
  cl_ob_capacity :: u32
  cl_ib_buf :: "bytes option"
  cl_ib_size :: u32
  cl_ib_capacity :: u32
  cl_events :: u16
  cl_devents :: u16
  cl_connect_tag :: u32
  cl_connect_device :: u32
  cl_state :: client_state
  cl_proto_version :: u32
  cl_number :: u32
  cl_info :: "'p option"

text \<open>The parts of the USB descriptors that \<^verbatim>\<open>usb.c\<close> reads; of an interface its first alternate setting.\<close>

record usb_devdesc =
  idVendor :: u16
  idProduct :: u16
  iSerialNumber :: u8
  bNumConfigurations :: u8

record usb_interface =
  bInterfaceNumber :: u8
  bInterfaceClass :: u8
  bInterfaceSubClass :: u8
  bInterfaceProtocol :: u8
  endpoints :: "u8 list"

record usb_config =
  bConfigurationValue :: u8
  interfaces :: "usb_interface list"

record usb_device =
  ud_handle :: "ptr option"
  ud_bus :: u8
  ud_address :: u8
  ud_serial :: string
  ud_alive :: bool
  ud_interface :: u8
  ud_ep_in :: u8
  ud_ep_out :: u8
  ud_rx_xfers :: "ptr list"
  ud_tx_xfers :: "ptr list"
  ud_wMaxPacketSize :: int
  ud_speed :: u64
  ud_devdesc :: usb_devdesc

text \<open>
  A libusb transfer as the daemon fills it. \<open>xf_in_flight\<close> is the state libusb keeps: the
  transfer has been submitted and its callback has not been called yet. The user data is
  the address of the device, for the two requests about the mode that of a
  \<^verbatim>\<open>mode_context\<close>.
\<close>

datatype xfer_callback =
    TX_CALLBACK | RX_CALLBACK | GET_SERIAL_CALLBACK | GET_LANGID_CALLBACK | GET_MODE_CB | SWITCH_MODE_CB

datatype xfer_status =
    TRANSFER_COMPLETED | TRANSFER_ERROR | TRANSFER_TIMED_OUT | TRANSFER_CANCELLED
  | TRANSFER_STALL | TRANSFER_NO_DEVICE | TRANSFER_OVERFLOW

record xfer =
  xf_user_data :: ptr
  xf_endpoint :: u8
  xf_buffer :: ptr
  xf_length :: nat
  xf_handle :: "ptr option"
  xf_callback :: xfer_callback
  xf_free_buffer :: bool
  xf_free_transfer :: bool
  xf_in_flight :: bool

record mode_context =
  mc_dev :: ptr
  mc_bus :: u8
  mc_address :: u8
  mc_bRequest :: u8
  mc_wValue :: u16
  mc_wIndex :: u16
  mc_wLength :: u16
  mc_timeout :: u32

text \<open>What libusb reports while it handles events: a finished transfer with the data it received, or a hotplug event.\<close>

datatype usb_event =
    XferDone ptr xfer_status bytes
  | DeviceArrived ptr
  | DeviceLeft ptr

record device_info =
  di_id :: u32
  di_serial :: "string option"
  di_location :: u32
  di_pid :: u16
  di_speed :: u64

text \<open>
  The configuration directory: its name once it is known (\<^verbatim>\<open>__config_dir\<close>), the
  directories that exist, and the files with their contents.
\<close>

record fsys =
  fs_config_dir :: "string option"
  fs_dirs :: "string set"
  fs_files :: "string \<rightharpoonup> bytes"

text \<open>What a preflight worker shares with its callbacks.\<close>

record cb_data =
  cb_info :: device_info
  cb_np :: bool
  is_device_connected :: bool
  is_finished :: bool

text \<open>
  Process-wide variables beside the three collections: the file system, the preflight
  workers that are running with the flag their callback data holds, the time of the next
  device poll and its switches (\<^verbatim>\<open>usb.c\<close>), and the flags of \<^verbatim>\<open>main.c\<close>.
\<close>

record misc =
  fsys :: fsys
  no_preflight :: bool
  workers :: "device_info list"
  cbdata :: "ptr \<rightharpoonup> cb_data"
  next_dev_poll_time :: "int \<times> int"
  devlist_failures :: int
  device_polling :: bool
  device_hotplug :: bool
  should_exit :: bool
  should_discover :: bool
  opt_enable_exit :: bool
  use_logfile :: bool
  report_to_parent :: bool
  log_level :: int
  log_syslog :: bool

text \<open>The system calls of \<^verbatim>\<open>main.c\<close> outside its loop, with the arguments that matter.\<close>

datatype address_family = AF_INET | AF_INET6 | AF_UNIX

datatype syscall =
    Sys_socket address_family | Sys_setsockopt int string | Sys_bind int string | Sys_close int
  | Sys_unlink string | Sys_chmod string nat | Sys_getfl int | Sys_setfl int | Sys_listen int nat
  | Sys_open string bool | Sys_getlk int | Sys_setlk int | Sys_write int string | Sys_kill int int
  | Sys_mkdir string | Sys_chown string int int | Sys_initgroups string int | Sys_setgid int
  | Sys_setuid int | Sys_setrlimit | Sys_pipe | Sys_fork | Sys_setsid | Sys_chdir string
  | Sys_freopen string | Sys_notify int

text \<open>What an observer outside the process sees, in order.\<close>

datatype event =
    SockSent int bytes
  | SockRead int bytes
  | SockClosed int
  | UsbOut ptr u8 bytes
  | UsbControl ptr bytes
  | SysCall syscall int

record 'p daemon =
  conns :: "ptr \<rightharpoonup> mux_connection"
  devs :: "ptr \<rightharpoonup> mux_device"
  clients :: "ptr \<rightharpoonup> 'p mux_client"
  udevs :: "ptr \<rightharpoonup> usb_device"
  xfers :: "ptr \<rightharpoonup> xfer"
  contexts :: "ptr \<rightharpoonup> mode_context"
  mem :: "ptr \<rightharpoonup> bytes"
  device_list :: "ptr list"
  client_list :: "ptr list"
  usb_device_list :: "ptr list"
  next_device_id :: u32
  client_number :: u32
  device_list_mutex :: bool
  client_list_mutex :: bool
  misc :: misc
  next_ptr :: ptr
  calls :: nat
  clock :: nat
  trace :: "event list"
  fault :: "fault option"

section \<open>The world outside\<close>

datatype plist_type = PLIST_DICT | PLIST_STRING | PLIST_UINT | PLIST_DATA | PLIST_OTHER

datatype usb_speed = SPEED_UNKNOWN | SPEED_LOW | SPEED_FULL | SPEED_HIGH | SPEED_SUPER | SPEED_SUPER_PLUS

text \<open>
  libusb. An answer that can fail is a negative error code on the left, or an \<open>int\<close> as in
  the C interface. \<open>libusb_patience\<close> bounds the rounds of event handling after which the
  model counts a wait for transfers as one that does not end.
\<close>

record libusb =
  libusb_handle_events :: "nat \<Rightarrow> int \<times> usb_event list"
  libusb_patience :: nat
  libusb_get_device_list :: "nat \<Rightarrow> int + ptr list"
  libusb_get_bus_number :: "ptr \<Rightarrow> u8"
  libusb_get_device_address :: "ptr \<Rightarrow> u8"
  libusb_get_device_descriptor :: "nat \<Rightarrow> ptr \<Rightarrow> int + usb_devdesc"
  libusb_open :: "nat \<Rightarrow> ptr \<Rightarrow> int + ptr"
  libusb_get_config_descriptor_by_value :: "nat \<Rightarrow> ptr \<Rightarrow> nat \<Rightarrow> int + usb_config"
  libusb_get_configuration :: "nat \<Rightarrow> ptr \<Rightarrow> int + int"
  libusb_kernel_driver_active :: "nat \<Rightarrow> ptr \<Rightarrow> u8 \<Rightarrow> int"
  libusb_detach_kernel_driver :: "nat \<Rightarrow> ptr \<Rightarrow> u8 \<Rightarrow> int"
  libusb_set_configuration :: "nat \<Rightarrow> ptr \<Rightarrow> nat \<Rightarrow> int"
  libusb_claim_interface :: "nat \<Rightarrow> ptr \<Rightarrow> u8 \<Rightarrow> int"
  libusb_alloc_fails :: "nat \<Rightarrow> bool"
  libusb_get_max_packet_size :: "ptr \<Rightarrow> u8 \<Rightarrow> int"
  libusb_get_device_speed :: "ptr \<Rightarrow> usb_speed"
  libusb_get_next_timeout :: "nat \<Rightarrow> int \<times> int \<times> int"
  libusb_get_pollfds :: "nat \<Rightarrow> (int \<times> u16) list option"
  libusb_init :: "nat \<Rightarrow> int"
  libusb_has_hotplug :: bool
  libusb_hotplug_register_callback :: "nat \<Rightarrow> int \<times> usb_event list"

text \<open>
  The services of a device that the preflight worker talks to through libimobiledevice,
  with the error codes that the worker tells apart.
\<close>

datatype lockdown_error =
    LOCKDOWN_E_SUCCESS | LOCKDOWN_E_INVALID_HOST_ID | LOCKDOWN_E_SSL_ERROR
  | LOCKDOWN_E_PASSWORD_PROTECTED | LOCKDOWN_E_OTHER

record 'p lockdown =
  lockdownd_client_new :: "nat \<Rightarrow> string \<Rightarrow> lockdown_error"
  lockdownd_query_type :: "nat \<Rightarrow> string option"
  lockdownd_start_session :: "nat \<Rightarrow> string option \<Rightarrow> lockdown_error"
  lockdownd_get_value :: "nat \<Rightarrow> string \<Rightarrow> lockdown_error \<times> 'p option"
  lockdownd_set_value :: "nat \<Rightarrow> string \<Rightarrow> 'p \<Rightarrow> lockdown_error"
  lockdownd_pair :: "nat \<Rightarrow> lockdown_error"
  lockdownd_validate_pair :: "nat \<Rightarrow> lockdown_error"
  lockdownd_start_service :: "nat \<Rightarrow> string \<Rightarrow> lockdown_error"
  np_client_new :: "nat \<Rightarrow> bool"

text \<open>
  The rest of the operating system that \<^verbatim>\<open>main.c\<close> uses: \<^verbatim>\<open>ppoll\<close> with the signals that
  arrive in it, the answers of its other system calls, and what it looks up.
\<close>

record os =
  os_ppoll :: "nat \<Rightarrow> (int \<times> u16) list \<Rightarrow> int \<Rightarrow> int + u16 list"
  os_signals :: "nat \<Rightarrow> int list"
  os_call :: "nat \<Rightarrow> syscall \<Rightarrow> int"
  os_errno :: "nat \<Rightarrow> int"
  os_getenv :: "string \<Rightarrow> string option"
  os_getaddrinfo :: "nat \<Rightarrow> string \<Rightarrow> string \<Rightarrow> int + address_family list"
  os_is_socket :: "nat \<Rightarrow> string \<Rightarrow> bool option"
  os_lock :: "nat \<Rightarrow> int \<Rightarrow> int option"
  os_stat :: "nat \<Rightarrow> string \<Rightarrow> (nat \<times> int \<times> int) option"
  os_getpwnam :: "nat \<Rightarrow> string \<Rightarrow> (int \<times> int) option"
  os_getuid :: "nat \<Rightarrow> int"
  os_geteuid :: "nat \<Rightarrow> int"
  os_getgid :: "nat \<Rightarrow> int"
  os_getpid :: int
  os_getppid :: int
  os_child_status :: "nat \<Rightarrow> int option"
  os_malloc_fails :: "nat \<Rightarrow> bool"

record 'p ext =
  libusb :: libusb
  lockdown :: "'p lockdown"
  os :: os
  os_elapse :: "nat \<Rightarrow> nat"
  os_clock_fails :: "nat \<Rightarrow> bool"
  os_gettimeofday :: "nat \<Rightarrow> int \<times> int"
  os_send :: "nat \<Rightarrow> int \<Rightarrow> bytes \<Rightarrow> int + nat"
  os_recv :: "nat \<Rightarrow> int \<Rightarrow> nat \<Rightarrow> int + bytes"
  os_accept :: "nat \<Rightarrow> int \<Rightarrow> int + int"
  os_realloc :: "nat \<Rightarrow> nat \<Rightarrow> bool"
  string_concat :: "string list \<Rightarrow> string"
  buffer_read :: "bytes \<Rightarrow> bytes option"
  os_denied :: "string \<Rightarrow> bool"
  os_rand :: "nat \<Rightarrow> nat"
  os_thread_fails :: "nat \<Rightarrow> bool"
  libusb_submit_transfer :: "nat \<Rightarrow> xfer \<Rightarrow> int"
  collection_add :: "ptr list \<Rightarrow> ptr \<Rightarrow> ptr list"
  collection_remove :: "ptr list \<Rightarrow> ptr \<Rightarrow> ptr list"
  plist_to_xml :: "'p \<Rightarrow> bytes option"
  plist_from_xml :: "bytes \<Rightarrow> 'p option"
  plist_from_memory :: "bytes \<Rightarrow> 'p option"
  plist_new_dict :: 'p
  plist_new_array :: 'p
  plist_new_string :: "string \<Rightarrow> 'p"
  plist_new_uint :: "u64 \<Rightarrow> 'p"
  plist_new_bool :: "bool \<Rightarrow> 'p"
  plist_new_data :: "bytes \<Rightarrow> 'p"
  plist_dict_set_item :: "'p \<Rightarrow> string \<Rightarrow> 'p \<Rightarrow> 'p"
  plist_dict_remove_item :: "'p \<Rightarrow> string \<Rightarrow> 'p"
  plist_dict_get_item :: "'p \<Rightarrow> string \<Rightarrow> 'p option"
  plist_dict_copy_item :: "'p \<Rightarrow> 'p \<Rightarrow> string \<Rightarrow> 'p"
  plist_array_append_item :: "'p \<Rightarrow> 'p \<Rightarrow> 'p"
  plist_get_node_type :: "'p \<Rightarrow> plist_type"
  plist_get_string_val :: "'p \<Rightarrow> string option"
  plist_get_uint_val :: "'p \<Rightarrow> u64 option"
  plist_get_data_val :: "'p \<Rightarrow> bytes option"

text \<open>
  What the code relies on. A collection gains or loses exactly the one element;
  \<^verbatim>\<open>send\<close> and \<^verbatim>\<open>recv\<close> transfer at most the bytes asked for.
\<close>

definition collections_ok :: "'p ext \<Rightarrow> bool" where
  "collections_ok E \<longleftrightarrow>
     (\<forall>xs x. mset (collection_add E xs x) = add_mset x (mset xs)) \<and>
     (\<forall>xs x. mset (collection_remove E xs x) = mset xs - {#x#})"

definition sockets_ok :: "'p ext \<Rightarrow> bool" where
  "sockets_ok E \<longleftrightarrow>
     (\<forall>t fd buf n. os_send E t fd buf = Inr n \<longrightarrow> n \<le> length buf) \<and>
     (\<forall>t fd n bs. os_recv E t fd n = Inr bs \<longrightarrow> length bs \<le> n)"

lemma collection_add_set [simp]:
  "collections_ok E \<Longrightarrow> set (collection_add E xs x) = insert x (set xs)"
  by (metis collections_ok_def set_mset_add_mset_insert set_mset_mset)

lemma collection_add_distinct:
  "collections_ok E \<Longrightarrow> distinct (collection_add E xs x) \<longleftrightarrow> distinct xs \<and> x \<notin> set xs"
proof -
  assume "collections_ok E"
  then have "mset (collection_add E xs x) = mset (x # xs)"
    by (simp add: collections_ok_def)
  then have "distinct (collection_add E xs x) = distinct (x # xs)"
    by (rule mset_eq_imp_distinct_iff)
  then show ?thesis by auto
qed

lemma collection_remove_mset:
  "collections_ok E \<Longrightarrow> mset (collection_remove E xs x) = mset (remove1 x xs)"
  by (simp add: collections_ok_def)

lemma collection_remove_distinct [simp]:
  "collections_ok E \<Longrightarrow> distinct xs \<Longrightarrow> distinct (collection_remove E xs x)"
  using collection_remove_mset distinct_remove1 mset_eq_imp_distinct_iff by metis

lemma collection_remove_set [simp]:
  "collections_ok E \<Longrightarrow> distinct xs \<Longrightarrow> set (collection_remove E xs x) = set xs - {x}"
  by (metis collection_remove_mset mset_eq_setD set_remove1_eq)

section \<open>Constants\<close>

definition DEV_MRU :: u32 where "DEV_MRU = 65536"
definition CONN_INBUF_SIZE :: u32 where "CONN_INBUF_SIZE = 262144"
definition CONN_OUTBUF_SIZE :: u32 where "CONN_OUTBUF_SIZE = 65536"
definition ACK_TIMEOUT :: u64 where "ACK_TIMEOUT = 30"
definition CONN_ACK_PENDING :: u32 where "CONN_ACK_PENDING = 1"
definition CMD_BUF_SIZE :: u32 where "CMD_BUF_SIZE = 0x10000"
definition REPLY_BUF_SIZE :: u32 where "REPLY_BUF_SIZE = 0x10000"
definition USB_MRU :: u32 where "USB_MRU = 16384"
definition USB_MTU :: int where "USB_MTU = 3 * 16384"

definition EAGAIN :: int where "EAGAIN = 11"
definition EINVAL :: int where "EINVAL = 22"
definition ENOENT :: int where "ENOENT = 2"
definition EACCES :: int where "EACCES = 13"
definition EEXIST :: int where "EEXIST = 17"

lemmas size_consts = DEV_MRU_def CONN_INBUF_SIZE_def CONN_OUTBUF_SIZE_def ACK_TIMEOUT_def
  CONN_ACK_PENDING_def CMD_BUF_SIZE_def REPLY_BUF_SIZE_def USB_MRU_def USB_MTU_def

section \<open>Zeroed structs\<close>

text \<open>\<^verbatim>\<open>memset(p, 0, sizeof *p)\<close>; also the value read through a pointer after the fault is recorded.\<close>

definition conn_zero :: mux_connection where
  "conn_zero = \<lparr>conn_dev = 0, conn_client = None, conn_state = CONN_CONNECTING, conn_sport = 0,
     conn_dport = 0, conn_tx_seq = 0, conn_tx_ack = 0, conn_tx_acked = 0, conn_tx_win = 0,
     conn_rx_seq = 0, conn_rx_recvd = 0, conn_rx_ack = 0, conn_rx_win = 0, conn_max_payload = 0,
     conn_sendable = 0, conn_flags = 0, conn_ib_buf = [], conn_ib_size = 0, conn_ib_capacity = 0,
     conn_ob_buf = [], conn_ob_capacity = 0, conn_events = 0, conn_last_ack_time = 0\<rparr>"

definition dev_zero :: mux_device where
  "dev_zero = \<lparr>dev_usbdev = 0, dev_id = 0, dev_state = MUXDEV_INIT, dev_visible = False,
     dev_connections = None, dev_next_sport = 0, dev_pktbuf = [], dev_pktlen = 0,
     dev_preflight_cb_data = None, dev_version = 0, dev_rx_seq = None, dev_tx_seq = None\<rparr>"

definition client_zero :: "'p mux_client" where
  "client_zero = \<lparr>cl_fd = 0, cl_ob_buf = None, cl_ob_size = 0, cl_ob_capacity = 0, cl_ib_buf = None,
     cl_ib_size = 0, cl_ib_capacity = 0, cl_events = 0, cl_devents = 0, cl_connect_tag = 0,
     cl_connect_device = 0, cl_state = CLIENT_COMMAND, cl_proto_version = 0, cl_number = 0,
     cl_info = None\<rparr>"

definition udev_zero :: usb_device where
  "udev_zero = \<lparr>ud_handle = None, ud_bus = 0, ud_address = 0, ud_serial = [], ud_alive = False,
     ud_interface = 0, ud_ep_in = 0, ud_ep_out = 0, ud_rx_xfers = [], ud_tx_xfers = [],
     ud_wMaxPacketSize = 0, ud_speed = 0,
     ud_devdesc = \<lparr>idVendor = 0, idProduct = 0, iSerialNumber = 0, bNumConfigurations = 0\<rparr>\<rparr>"

definition xfer_zero :: xfer where
  "xfer_zero = \<lparr>xf_user_data = 0, xf_endpoint = 0, xf_buffer = 0, xf_length = 0, xf_handle = None,
     xf_callback = TX_CALLBACK, xf_free_buffer = False, xf_free_transfer = False, xf_in_flight = False\<rparr>"

definition context_zero :: mode_context where
  "context_zero = \<lparr>mc_dev = 0, mc_bus = 0, mc_address = 0, mc_bRequest = 0, mc_wValue = 0,
     mc_wIndex = 0, mc_wLength = 0, mc_timeout = 0\<rparr>"

section \<open>Primitive operations\<close>

type_synonym ('p, 'a) mux = "('p daemon, 'a) state"

definition set_fault :: "fault \<Rightarrow> 'p daemon \<Rightarrow> 'p daemon" where
  "set_fault f s = (if fault s = None then s\<lparr>fault := Some f\<rparr> else s)"

definition raise_fault :: "fault \<Rightarrow> ('p, unit) mux" where
  "raise_fault f = modify (set_fault f)"

definition rd_heap :: "('p daemon \<Rightarrow> ptr \<rightharpoonup> 'a) \<Rightarrow> 'a \<Rightarrow> ptr \<Rightarrow> ('p, 'a) mux" where
  "rd_heap heap dflt p = do {
     h \<leftarrow> gets heap;
     case h p of
       Some x \<Rightarrow> ret x
     | None \<Rightarrow> do { raise_fault UseAfterFree; ret dflt }
   }"

definition up_heap :: "('p daemon \<Rightarrow> ptr \<rightharpoonup> 'a) \<Rightarrow> (((ptr \<rightharpoonup> 'a) \<Rightarrow> (ptr \<rightharpoonup> 'a)) \<Rightarrow> 'p daemon \<Rightarrow> 'p daemon) \<Rightarrow>
    ptr \<Rightarrow> ('a \<Rightarrow> 'a) \<Rightarrow> ('p, unit) mux" where
  "up_heap heap heap_update p f = do {
     h \<leftarrow> gets heap;
     case h p of
       Some x \<Rightarrow> modify (heap_update (\<lambda>h. h(p \<mapsto> f x)))
     | None \<Rightarrow> raise_fault UseAfterFree
   }"

definition free_heap :: "('p daemon \<Rightarrow> ptr \<rightharpoonup> 'a) \<Rightarrow> (((ptr \<rightharpoonup> 'a) \<Rightarrow> (ptr \<rightharpoonup> 'a)) \<Rightarrow> 'p daemon \<Rightarrow> 'p daemon) \<Rightarrow>
    ptr \<Rightarrow> ('p, unit) mux" where
  "free_heap heap heap_update p = do {
     h \<leftarrow> gets heap;
     case h p of
       Some x \<Rightarrow> modify (heap_update (\<lambda>h. h(p := None)))
     | None \<Rightarrow> raise_fault UseAfterFree
   }"

definition new_heap :: "(((ptr \<rightharpoonup> 'a) \<Rightarrow> (ptr \<rightharpoonup> 'a)) \<Rightarrow> 'p daemon \<Rightarrow> 'p daemon) \<Rightarrow> 'a \<Rightarrow> ('p, ptr) mux" where
  "new_heap heap_update x = do {
     p \<leftarrow> gets next_ptr;
     modify (\<lambda>s. heap_update (\<lambda>h. h(p \<mapsto> x)) (s\<lparr>next_ptr := Suc p\<rparr>));
     ret p
   }"

abbreviation rd_conn :: "ptr \<Rightarrow> ('p, mux_connection) mux" where
  "rd_conn \<equiv> rd_heap conns conn_zero"
abbreviation up_conn :: "ptr \<Rightarrow> (mux_connection \<Rightarrow> mux_connection) \<Rightarrow> ('p, unit) mux" where
  "up_conn \<equiv> up_heap conns conns_update"
abbreviation rd_dev :: "ptr \<Rightarrow> ('p, mux_device) mux" where
  "rd_dev \<equiv> rd_heap devs dev_zero"
abbreviation up_dev :: "ptr \<Rightarrow> (mux_device \<Rightarrow> mux_device) \<Rightarrow> ('p, unit) mux" where
  "up_dev \<equiv> up_heap devs devs_update"
abbreviation rd_client :: "ptr \<Rightarrow> ('p, 'p mux_client) mux" where
  "rd_client \<equiv> rd_heap clients client_zero"
abbreviation up_client :: "ptr \<Rightarrow> ('p mux_client \<Rightarrow> 'p mux_client) \<Rightarrow> ('p, unit) mux" where
  "up_client \<equiv> up_heap clients clients_update"
abbreviation rd_udev :: "ptr \<Rightarrow> ('p, usb_device) mux" where
  "rd_udev \<equiv> rd_heap udevs udev_zero"
abbreviation up_udev :: "ptr \<Rightarrow> (usb_device \<Rightarrow> usb_device) \<Rightarrow> ('p, unit) mux" where
  "up_udev \<equiv> up_heap udevs udevs_update"

text \<open>A pointer that may be NULL, an array that may not be initialised, a read that may be out of range.\<close>

definition deref :: "ptr option \<Rightarrow> ('p, ptr) mux" where
  "deref p = (case p of Some q \<Rightarrow> ret q | None \<Rightarrow> do { raise_fault NullDeref; ret 0 })"

definition expect :: "fault \<Rightarrow> 'a \<Rightarrow> 'a option \<Rightarrow> ('p, 'a) mux" where
  "expect f dflt x = (case x of Some y \<Rightarrow> ret y | None \<Rightarrow> do { raise_fault f; ret dflt })"

definition assert_m :: "fault \<Rightarrow> bool \<Rightarrow> ('p, unit) mux" where
  "assert_m f b = (if b then skip else raise_fault f)"

definition lock_devices :: "('p, unit) mux" where
  "lock_devices = do {
     held \<leftarrow> gets device_list_mutex;
     if held then raise_fault Deadlock else modify (\<lambda>s. s\<lparr>device_list_mutex := True\<rparr>)
   }"

definition unlock_devices :: "('p, unit) mux" where
  "unlock_devices = modify (\<lambda>s. s\<lparr>device_list_mutex := False\<rparr>)"

definition lock_clients :: "('p, unit) mux" where
  "lock_clients = do {
     held \<leftarrow> gets client_list_mutex;
     if held then raise_fault Deadlock else modify (\<lambda>s. s\<lparr>client_list_mutex := True\<rparr>)
   }"

definition unlock_clients :: "('p, unit) mux" where
  "unlock_clients = modify (\<lambda>s. s\<lparr>client_list_mutex := False\<rparr>)"

definition emit :: "event \<Rightarrow> ('p, unit) mux" where
  "emit e = modify (\<lambda>s. s\<lparr>trace := trace s @ [e]\<rparr>)"

text \<open>Each call to the outside takes time and has its own number.\<close>

definition tick :: "'p ext \<Rightarrow> ('p, nat) mux" where
  "tick E = do {
     t \<leftarrow> gets calls;
     modify (\<lambda>s. s\<lparr>calls := Suc t, clock := clock s + os_elapse E t\<rparr>);
     ret t
   }"

definition sys_send :: "'p ext \<Rightarrow> int \<Rightarrow> bytes \<Rightarrow> ('p, int + nat) mux" where
  "sys_send E fd buf = do {
     t \<leftarrow> tick E;
     case os_send E t fd buf of
       Inl e \<Rightarrow> ret (Inl e)
     | Inr n \<Rightarrow> do { emit (SockSent fd (take n buf)); ret (Inr n) }
   }"

definition sys_recv :: "'p ext \<Rightarrow> int \<Rightarrow> nat \<Rightarrow> ('p, int + bytes) mux" where
  "sys_recv E fd n = do {
     t \<leftarrow> tick E;
     case os_recv E t fd n of
       Inl e \<Rightarrow> ret (Inl e)
     | Inr bs \<Rightarrow> do { emit (SockRead fd bs); ret (Inr bs) }
   }"

definition sys_mstime64 :: "'p ext \<Rightarrow> ('p, u64) mux" where
  "sys_mstime64 E = do {
     t \<leftarrow> tick E;
     ns \<leftarrow> gets clock;
     ret (mstime64 (get_tick_count (if os_clock_fails E t then None else Some (timespec_of ns))
                                   (os_gettimeofday E t)))
   }"

definition sys_usleep :: "'p ext \<Rightarrow> nat \<Rightarrow> ('p, unit) mux" where
  "sys_usleep E us = do {
     t \<leftarrow> tick E;
     modify (\<lambda>s. s\<lparr>clock := clock s + us * 1000\<rparr>)
   }"

lemma set_fault_simps [simp]:
  "conns (set_fault f s) = conns s" "devs (set_fault f s) = devs s" "clients (set_fault f s) = clients s"
  "udevs (set_fault f s) = udevs s" "xfers (set_fault f s) = xfers s" "contexts (set_fault f s) = contexts s" "mem (set_fault f s) = mem s"
  "device_list (set_fault f s) = device_list s" "client_list (set_fault f s) = client_list s"
  "usb_device_list (set_fault f s) = usb_device_list s" "misc (set_fault f s) = misc s" "fault (set_fault f s) \<noteq> None"
  "calls (set_fault f s) = calls s" "next_ptr (set_fault f s) = next_ptr s"
  by (simp_all add: set_fault_def)

lemma set_fault_first: "fault s = None \<Longrightarrow> fault (set_fault f s) = Some f"
  by (simp add: set_fault_def)

end
