(* ===== verification/Calculus.thy ===== *)
theory Calculus
  imports World
begin

text \<open>
  Weakest preconditions of the primitive operations, under the conditions in which they
  do not fault, and the frame of the input and output operations: \<open>io_frame\<close> says that
  two states agree but for transfers in flight, packet buffers, sequence numbers of the
  mux header, the clock and the trace.
\<close>

lemma wp_raise_fault [wp_rules]: "wp (raise_fault f) Q s = Q () (set_fault f s)"
  by (simp add: raise_fault_def wp_rules)

lemma wp_rd_heap [wp_rules]: "h s p = Some x \<Longrightarrow> wp (rd_heap h d p) Q s = Q x s"
  by (simp add: rd_heap_def wp_rules)

lemma wp_up_heap [wp_rules]:
  "conns s p = Some x_conns \<Longrightarrow> wp (up_heap conns conns_update p f_conns) Q s = Q () (s\<lparr>conns := (conns s)(p \<mapsto> f_conns x_conns)\<rparr>)"
  "devs s p = Some x_devs \<Longrightarrow> wp (up_heap devs devs_update p f_devs) Q s = Q () (s\<lparr>devs := (devs s)(p \<mapsto> f_devs x_devs)\<rparr>)"
  "clients s p = Some x_clients \<Longrightarrow> wp (up_heap clients clients_update p f_clients) Q s = Q () (s\<lparr>clients := (clients s)(p \<mapsto> f_clients x_clients)\<rparr>)"
  "udevs s p = Some x_udevs \<Longrightarrow> wp (up_heap udevs udevs_update p f_udevs) Q s = Q () (s\<lparr>udevs := (udevs s)(p \<mapsto> f_udevs x_udevs)\<rparr>)"
  "contexts s p = Some x_contexts \<Longrightarrow> wp (up_heap contexts contexts_update p f_contexts) Q s = Q () (s\<lparr>contexts := (contexts s)(p \<mapsto> f_contexts x_contexts)\<rparr>)"
  "xfers s p = Some x_xfers \<Longrightarrow> wp (up_heap xfers xfers_update p f_xfers) Q s = Q () (s\<lparr>xfers := (xfers s)(p \<mapsto> f_xfers x_xfers)\<rparr>)"
  "mem s p = Some x_mem \<Longrightarrow> wp (up_heap mem mem_update p f_mem) Q s = Q () (s\<lparr>mem := (mem s)(p \<mapsto> f_mem x_mem)\<rparr>)"
  by (simp_all add: up_heap_def wp_rules) (cases s, simp)+

lemma wp_free_heap [wp_rules]:
  "conns s p = Some x_conns \<Longrightarrow> wp (free_heap conns conns_update p) Q s = Q () (s\<lparr>conns := (conns s)(p := None)\<rparr>)"
  "devs s p = Some x_devs \<Longrightarrow> wp (free_heap devs devs_update p) Q s = Q () (s\<lparr>devs := (devs s)(p := None)\<rparr>)"
  "clients s p = Some x_clients \<Longrightarrow> wp (free_heap clients clients_update p) Q s = Q () (s\<lparr>clients := (clients s)(p := None)\<rparr>)"
  "udevs s p = Some x_udevs \<Longrightarrow> wp (free_heap udevs udevs_update p) Q s = Q () (s\<lparr>udevs := (udevs s)(p := None)\<rparr>)"
  "contexts s p = Some x_contexts \<Longrightarrow> wp (free_heap contexts contexts_update p) Q s = Q () (s\<lparr>contexts := (contexts s)(p := None)\<rparr>)"
  "xfers s p = Some x_xfers \<Longrightarrow> wp (free_heap xfers xfers_update p) Q s = Q () (s\<lparr>xfers := (xfers s)(p := None)\<rparr>)"
  "mem s p = Some x_mem \<Longrightarrow> wp (free_heap mem mem_update p) Q s = Q () (s\<lparr>mem := (mem s)(p := None)\<rparr>)"
  by (simp_all add: free_heap_def wp_rules) (cases s, simp)+

lemma wp_new_heap [wp_rules]:
  "wp (new_heap conns_update x_conns) Q s =
     Q (next_ptr s) (s\<lparr>next_ptr := Suc (next_ptr s), conns := (conns s)(next_ptr s \<mapsto> x_conns)\<rparr>)"
  "wp (new_heap devs_update x_devs) Q s =
     Q (next_ptr s) (s\<lparr>next_ptr := Suc (next_ptr s), devs := (devs s)(next_ptr s \<mapsto> x_devs)\<rparr>)"
  "wp (new_heap clients_update x_clients) Q s =
     Q (next_ptr s) (s\<lparr>next_ptr := Suc (next_ptr s), clients := (clients s)(next_ptr s \<mapsto> x_clients)\<rparr>)"
  "wp (new_heap udevs_update x_udevs) Q s =
     Q (next_ptr s) (s\<lparr>next_ptr := Suc (next_ptr s), udevs := (udevs s)(next_ptr s \<mapsto> x_udevs)\<rparr>)"
  "wp (new_heap contexts_update x_contexts) Q s =
     Q (next_ptr s) (s\<lparr>next_ptr := Suc (next_ptr s), contexts := (contexts s)(next_ptr s \<mapsto> x_contexts)\<rparr>)"
  "wp (new_heap xfers_update x_xfers) Q s =
     Q (next_ptr s) (s\<lparr>next_ptr := Suc (next_ptr s), xfers := (xfers s)(next_ptr s \<mapsto> x_xfers)\<rparr>)"
  "wp (new_heap mem_update x_mem) Q s =
     Q (next_ptr s) (s\<lparr>next_ptr := Suc (next_ptr s), mem := (mem s)(next_ptr s \<mapsto> x_mem)\<rparr>)"
  by (simp_all add: new_heap_def wp_rules) (cases s, simp)+

lemma wp_deref [wp_rules]: "wp (deref (Some p)) Q s = Q p s"
  by (simp add: deref_def wp_rules)

lemma wp_expect [wp_rules]: "wp (expect f d (Some x)) Q s = Q x s"
  by (simp add: expect_def wp_rules)

lemma wp_assert_m [wp_rules]: "b \<Longrightarrow> wp (assert_m f b) Q s = Q () s"
  by (simp add: assert_m_def wp_rules)

lemma wp_locks [wp_rules]:
  "\<not> device_list_mutex s \<Longrightarrow> wp lock_devices Q s = Q () (s\<lparr>device_list_mutex := True\<rparr>)"
  "\<not> client_list_mutex s \<Longrightarrow> wp lock_clients Q s = Q () (s\<lparr>client_list_mutex := True\<rparr>)"
  "wp unlock_devices Q s = Q () (s\<lparr>device_list_mutex := False\<rparr>)"
  "wp unlock_clients Q s = Q () (s\<lparr>client_list_mutex := False\<rparr>)"
  by (simp_all add: lock_devices_def lock_clients_def unlock_devices_def unlock_clients_def wp_rules)

lemma wp_emit [wp_rules]: "wp (emit e) Q s = Q () (s\<lparr>trace := trace s @ [e]\<rparr>)"
  by (simp add: emit_def wp_rules)

definition ticked :: "'p ext \<Rightarrow> 'p daemon \<Rightarrow> 'p daemon" where
  "ticked E s = s\<lparr>calls := Suc (calls s), clock := clock s + os_elapse E (calls s)\<rparr>"

lemma wp_tick [wp_rules]: "wp (tick E) Q s = Q (calls s) (ticked E s)"
  by (simp add: tick_def ticked_def wp_rules)

lemma ticked_simps [simp]:
  "conns (ticked E s) = conns s" "devs (ticked E s) = devs s" "clients (ticked E s) = clients s"
  "udevs (ticked E s) = udevs s" "xfers (ticked E s) = xfers s" "contexts (ticked E s) = contexts s" "mem (ticked E s) = mem s"
  "device_list (ticked E s) = device_list s" "client_list (ticked E s) = client_list s"
  "usb_device_list (ticked E s) = usb_device_list s" "next_device_id (ticked E s) = next_device_id s"
  "client_number (ticked E s) = client_number s" "device_list_mutex (ticked E s) = device_list_mutex s"
  "client_list_mutex (ticked E s) = client_list_mutex s" "next_ptr (ticked E s) = next_ptr s"
  "trace (ticked E s) = trace s" "misc (ticked E s) = misc s" "fault (ticked E s) = fault s" "calls (ticked E s) = Suc (calls s)"
  by (simp_all add: ticked_def)

lemma wp_sys_send [wp_rules]:
  "wp (sys_send E fd buf) Q s =
     (case os_send E (calls s) fd buf of
        Inl e \<Rightarrow> Q (Inl e) (ticked E s)
      | Inr n \<Rightarrow> Q (Inr n) ((ticked E s)\<lparr>trace := trace s @ [SockSent fd (take n buf)]\<rparr>))"
  by (auto simp: sys_send_def wp_rules split: sum.splits)

lemma wp_sys_recv [wp_rules]:
  "wp (sys_recv E fd n) Q s =
     (case os_recv E (calls s) fd n of
        Inl e \<Rightarrow> Q (Inl e) (ticked E s)
      | Inr bs \<Rightarrow> Q (Inr bs) ((ticked E s)\<lparr>trace := trace s @ [SockRead fd bs]\<rparr>))"
  by (auto simp: sys_recv_def wp_rules split: sum.splits)

definition now_ms :: "'p ext \<Rightarrow> 'p daemon \<Rightarrow> u64" where
  "now_ms E s = mstime64 (get_tick_count
     (if os_clock_fails E (calls s) then None else Some (timespec_of (clock (ticked E s))))
     (os_gettimeofday E (calls s)))"

lemma wp_sys_mstime64 [wp_rules]: "wp (sys_mstime64 E) Q s = Q (now_ms E s) (ticked E s)"
  by (simp add: sys_mstime64_def now_ms_def wp_rules)

lemma wp_sys_usleep [wp_rules]:
  "wp (sys_usleep E us) Q s = Q () ((ticked E s)\<lparr>clock := clock (ticked E s) + us * 1000\<rparr>)"
  by (simp add: sys_usleep_def wp_rules)

section \<open>Frames\<close>

text \<open>A USB device without its list of transfers in flight.\<close>

definition udev_core :: "'p daemon \<Rightarrow> ptr \<rightharpoonup> usb_device" where
  "udev_core s = (\<lambda>p. map_option (\<lambda>u. u\<lparr>ud_tx_xfers := []\<rparr>) (udevs s p))"

text \<open>
  \<open>io_rest\<close> leaves connections, devices and clients open, so that an operation that
  writes to one of them states what it writes; \<open>io_frame\<close> fixes all three.
\<close>

definition io_rest :: "'p daemon \<Rightarrow> 'p daemon \<Rightarrow> bool" where
  "io_rest s s' \<longleftrightarrow>
     udev_core s' = udev_core s \<and> device_list s' = device_list s \<and> client_list s' = client_list s \<and>
     usb_device_list s' = usb_device_list s \<and> next_device_id s' = next_device_id s \<and>
     client_number s' = client_number s \<and> misc s' = misc s \<and> device_list_mutex s' = device_list_mutex s \<and>
     client_list_mutex s' = client_list_mutex s \<and> fault s' = fault s \<and> next_ptr s \<le> next_ptr s'"

definition io_frame :: "'p daemon \<Rightarrow> 'p daemon \<Rightarrow> bool" where
  "io_frame s s' \<longleftrightarrow> conns s' = conns s \<and> devs s' = devs s \<and> clients s' = clients s \<and> io_rest s s'"

lemma io_refl [simp]: "io_frame s s" "io_rest s s"
  by (simp_all add: io_frame_def io_rest_def)

lemma io_rest_trans: "io_rest s t \<Longrightarrow> io_rest t u \<Longrightarrow> io_rest s u"
  by (auto simp: io_rest_def)

lemma io_frame_trans: "io_frame s t \<Longrightarrow> io_frame t u \<Longrightarrow> io_frame s u"
  using io_rest_trans by (auto simp: io_frame_def)

lemma core_ticked [simp]: "udev_core (ticked E s) = udev_core s"
  by (simp add: udev_core_def)

lemma io_frame_ticked [simp]: "io_frame s (ticked E s)" "io_rest s (ticked E s)"
  by (simp_all add: io_frame_def io_rest_def)

lemma core_update [simp]:
  "udev_core (conns_update f1 s) = udev_core s" "udev_core (clients_update f2 s) = udev_core s"
  "udev_core (devs_update f3 s) = udev_core s" "udev_core (mem_update f4 s) = udev_core s"
  "udev_core (xfers_update f5 s) = udev_core s" "udev_core (trace_update f6 s) = udev_core s"
  "udev_core (client_list_update f7 s) = udev_core s" "udev_core (device_list_update f8 s) = udev_core s"
  "udev_core (next_ptr_update f9 s) = udev_core s" "udev_core (clock_update f10 s) = udev_core s"
  "udev_core (device_list_mutex_update f11 s) = udev_core s"
  "udev_core (contexts_update f14 s) = udev_core s"
  "udev_core (client_list_mutex_update f12 s) = udev_core s" "udev_core (misc_update f13 s) = udev_core s"
  by (simp_all add: udev_core_def)

text \<open>Updates of the open components and of the I/O state do not leave the frame.\<close>

lemma io_rest_update [simp]:
  "io_rest s (conns_update f1 t) = io_rest s t" "io_rest s (clients_update f2 t) = io_rest s t"
  "io_rest s (devs_update f3 t) = io_rest s t" "io_rest s (trace_update f6 t) = io_rest s t"
  "io_rest s (clock_update f10 t) = io_rest s t"
  "io_rest (conns_update f1 s) t = io_rest s t" "io_rest (clients_update f2 s) t = io_rest s t"
  "io_rest (devs_update f3 s) t = io_rest s t" "io_rest (trace_update f6 s) t = io_rest s t"
  by (simp_all add: io_rest_def)

lemma io_rest_ticked [simp]: "io_rest s (ticked E t) = io_rest s t"
  by (simp add: io_rest_def)

lemma io_rest_from_ticked [simp]: "io_rest (ticked E s) t = io_rest s t"
  by (simp add: io_rest_def)

lemma unlocked [simp]:
  "\<not> device_list_mutex s \<Longrightarrow> s\<lparr>device_list_mutex := False\<rparr> = s"
  "\<not> client_list_mutex s \<Longrightarrow> s\<lparr>client_list_mutex := False\<rparr> = s"
  by simp_all

lemma io_frameD:
  assumes "io_frame s s'"
  shows "conns s' = conns s" "devs s' = devs s" "clients s' = clients s" "io_rest s s'"
  using assms by (simp_all add: io_frame_def)

lemma io_restD:
  assumes "io_rest s s'"
  shows "device_list s' = device_list s"
    "client_list s' = client_list s" "usb_device_list s' = usb_device_list s"
    "fault s' = fault s" "device_list_mutex s' = device_list_mutex s"
    "client_list_mutex s' = client_list_mutex s" "next_device_id s' = next_device_id s"
    "udev_core s' = udev_core s" "client_number s' = client_number s" "misc s' = misc s" "next_ptr s \<le> next_ptr s'"
  using assms by (simp_all add: io_rest_def)

lemma udev_core_SomeD:
  assumes "udev_core s' = udev_core s" and "udevs s p = Some u"
  shows "\<exists>xs. udevs s' p = Some (u\<lparr>ud_tx_xfers := xs\<rparr>)"
proof -
  from assms have "map_option (\<lambda>u. u\<lparr>ud_tx_xfers := []\<rparr>) (udevs s' p) = Some (u\<lparr>ud_tx_xfers := []\<rparr>)"
    by (simp add: udev_core_def fun_eq_iff split: option.splits)
  then obtain u' where u': "udevs s' p = Some u'" "u'\<lparr>ud_tx_xfers := []\<rparr> = u\<lparr>ud_tx_xfers := []\<rparr>"
    by auto
  then have "u' = u\<lparr>ud_tx_xfers := ud_tx_xfers u'\<rparr>"
    by (cases u, cases u') simp
  with u' show ?thesis by metis
qed

end
