(* ===== verification/Usb_Tx.thy ===== *)
theory Usb_Tx
  imports Calculus
begin

text \<open>
  The transmit side of \<^verbatim>\<open>usb.c\<close>: handing a packet to libusb, with the zero-length
  packet that ends a transfer whose size is a multiple of the endpoint's packet size,
  and the accessors that the device layer uses.
\<close>

section \<open>Accessors\<close>

definition usb_get_serial :: "usb_device \<Rightarrow> string option" where
  "usb_get_serial u = (if ud_handle u = None then None else Some (ud_serial u))"

definition usb_get_location :: "usb_device \<Rightarrow> u32" where
  "usb_get_location u =
     (if ud_handle u = None then 0 else push_bit 16 (ucast (ud_bus u)) OR ucast (ud_address u))"

definition usb_get_pid :: "usb_device \<Rightarrow> u16" where
  "usb_get_pid u = (if ud_handle u = None then 0 else idProduct (ud_devdesc u))"

definition usb_get_speed :: "usb_device \<Rightarrow> u64" where
  "usb_get_speed u = (if ud_handle u = None then 0 else ud_speed u)"

section \<open>Sending\<close>

text \<open>\<^verbatim>\<open>libusb_fill_bulk_transfer\<close> on a newly allocated transfer.\<close>

definition bulk_transfer :: "usb_device \<Rightarrow> ptr \<Rightarrow> u8 \<Rightarrow> ptr \<Rightarrow> nat \<Rightarrow> xfer_callback \<Rightarrow> xfer" where
  "bulk_transfer u d ep buf len cb =
     xfer_zero\<lparr>xf_user_data := d, xf_endpoint := ep, xf_buffer := buf, xf_length := len,
       xf_handle := ud_handle u, xf_callback := cb\<rparr>"

lemma bulk_transfer_simps [simp]:
  "xf_user_data (bulk_transfer u d ep buf len cb) = d" "xf_endpoint (bulk_transfer u d ep buf len cb) = ep"
  "xf_buffer (bulk_transfer u d ep buf len cb) = buf" "xf_length (bulk_transfer u d ep buf len cb) = len"
  by (simp_all add: bulk_transfer_def)

text \<open>Submitting an OUT transfer: on success libusb sends the first \<open>xf_length\<close> bytes of its buffer.\<close>

definition submit_out :: "'p ext \<Rightarrow> ptr \<Rightarrow> ('p, int) mux" where
  "submit_out E x = do {
     xf \<leftarrow> rd_heap xfers xfer_zero x;
     buf \<leftarrow> rd_heap mem [] (xf_buffer xf);
     t \<leftarrow> tick E;
     let res = libusb_submit_transfer E t xf;
     whenM (0 \<le> res) (do {
       up_heap xfers xfers_update x (\<lambda>xf. xf\<lparr>xf_in_flight := True\<rparr>);
       emit (UsbOut (xf_user_data xf) (xf_endpoint xf) (take (xf_length xf) buf))
     });
     ret res
   }"

definition usb_send :: "'p ext \<Rightarrow> ptr \<Rightarrow> ptr \<Rightarrow> nat \<Rightarrow> ('p, int) mux" where
  "usb_send E d buf len = do {
     u \<leftarrow> rd_udev d;
     x \<leftarrow> new_heap xfers_update (bulk_transfer u d (ud_ep_out u) buf len TX_CALLBACK);
     res \<leftarrow> submit_out E x;
     if res < 0 then do { free_heap xfers xfers_update x; ret res }
     else do {
       up_udev d (\<lambda>u. u\<lparr>ud_tx_xfers := collection_add E (ud_tx_xfers u) x\<rparr>);
       assert_m DivideByZero (ud_wMaxPacketSize u \<noteq> 0);
       if int len mod ud_wMaxPacketSize u = 0 then do {
         buffer \<leftarrow> new_heap mem_update [];
         y \<leftarrow> new_heap xfers_update (bulk_transfer u d (ud_ep_out u) buffer 0 TX_CALLBACK);
         res \<leftarrow> submit_out E y;
         if res < 0 then do { free_heap xfers xfers_update y; ret res }
         else do {
           up_udev d (\<lambda>u. u\<lparr>ud_tx_xfers := collection_add E (ud_tx_xfers u) y\<rparr>);
           ret 0
         }
       } else ret 0
     }
   }"

text \<open>
  What goes out on the wire for one packet: the packet, and an empty transfer behind it
  when its length is a multiple of the endpoint's packet size.
\<close>

definition usb_packet :: "ptr \<Rightarrow> usb_device \<Rightarrow> bytes \<Rightarrow> event list" where
  "usb_packet d u pkt =
     UsbOut d (ud_ep_out u) pkt #
     (if int (length pkt) mod ud_wMaxPacketSize u = 0 then [UsbOut d (ud_ep_out u) []] else [])"

lemma wp_submit_out [wp_rules]:
  assumes "xfers s x = Some xf" and "mem s (xf_buffer xf) = Some buf"
  shows "wp (submit_out E x) Q s =
     (let res = libusb_submit_transfer E (calls s) xf in
      if 0 \<le> res
      then Q res ((ticked E s)\<lparr>xfers := (xfers s)(x \<mapsto> xf\<lparr>xf_in_flight := True\<rparr>), trace := trace s @ [UsbOut (xf_user_data xf) (xf_endpoint xf) (take (xf_length xf) buf)]\<rparr>)
      else Q res (ticked E s))"
  using assms by (simp add: submit_out_def wp_rules Let_def)

lemma udev_core_upd:
  "udevs s d = Some u \<Longrightarrow>
   udev_core (s\<lparr>udevs := (udevs s)(d \<mapsto> u\<lparr>ud_tx_xfers := xs\<rparr>)\<rparr>) = udev_core s"
  by (auto simp: udev_core_def fun_eq_iff)

text \<open>
  A send touches only the I/O state. It succeeds exactly if the whole wire image went
  out; if it fails, either nothing went out or the packet did and its terminator did not.
\<close>

lemma wp_usb_send:
  assumes u: "udevs s d = Some u" and w: "ud_wMaxPacketSize u \<noteq> 0"
    and buf: "mem s b = Some pkt" and len: "len = length pkt" and b: "b < next_ptr s"
  shows "wp (usb_send E d b len) (\<lambda>res s'.
     io_frame s s' \<and> mem s' b = Some pkt \<and> res \<le> 0 \<and>
     (res = 0 \<longrightarrow> trace s' = trace s @ usb_packet d u pkt) \<and>
     (res < 0 \<longrightarrow> trace s' = trace s \<or> trace s' = trace s @ [UsbOut d (ud_ep_out u) pkt])) s"
  using assms
  by (simp add: usb_send_def wp_rules Let_def io_frame_def io_rest_def udev_core_def
      usb_packet_def fun_eq_iff)

end
