(* ===== verification/Mux_Send.thy ===== *)
theory Mux_Send
  imports Usb_Tx
begin

text \<open>
  The sending functions of \<^verbatim>\<open>device.c\<close>: \<^verbatim>\<open>send_packet\<close> puts the mux header in front of a
  protocol header and its data and hands the packet to USB; \<^verbatim>\<open>send_anon_rst\<close> and
  \<^verbatim>\<open>send_tcp\<close> build the TCP header.
\<close>

definition mux_header_size :: "mux_device \<Rightarrow> nat" where
  "mux_header_size D = (if dev_version D < 2 then 8 else 16)"

fun proto_hdrlen :: "mux_protocol \<Rightarrow> nat option" where
  "proto_hdrlen MUX_PROTO_VERSION = Some 12"
| "proto_hdrlen MUX_PROTO_SETUP = Some 0"
| "proto_hdrlen MUX_PROTO_TCP = Some 20"
| "proto_hdrlen MUX_PROTO_CONTROL = None"

definition send_packet :: "'p ext \<Rightarrow> ptr \<Rightarrow> mux_protocol \<Rightarrow> bytes \<Rightarrow> bytes \<Rightarrow> ('p, int) mux" where
  "send_packet E d proto header data =
     (case proto_hdrlen proto of
        None \<Rightarrow> ret (-1)
      | Some hdrlen \<Rightarrow> do {
          D \<leftarrow> rd_dev d;
          let total = int (mux_header_size D) + int hdrlen + int (length data);
          if total > USB_MTU then ret (-1)
          else do {
            seqs \<leftarrow> (if 2 \<le> dev_version D then do {
                whenM (proto = MUX_PROTO_SETUP)
                  (up_dev d (\<lambda>D. D\<lparr>dev_tx_seq := Some 0, dev_rx_seq := Some 0xFFFF\<rparr>));
                D \<leftarrow> rd_dev d;
                tx \<leftarrow> expect Uninitialised 0 (dev_tx_seq D);
                rx \<leftarrow> expect Uninitialised 0 (dev_rx_seq D);
                up_dev d (\<lambda>D. D\<lparr>dev_tx_seq := Some (tx + 1)\<rparr>);
                ret (be32 0xfeedface @ be16 tx @ be16 rx)
              } else ret []);
            buffer \<leftarrow> new_heap mem_update
              (be32 (proto_num proto) @ be32 (word_of_int total) @ seqs @ take hdrlen header @ data);
            res \<leftarrow> usb_send E (dev_usbdev D) buffer (nat total);
            if res < 0 then do { free_heap mem mem_update buffer; ret res }
            else ret total
          }
        })"

definition send_anon_rst :: "'p ext \<Rightarrow> ptr \<Rightarrow> u16 \<Rightarrow> u16 \<Rightarrow> u32 \<Rightarrow> ('p, int) mux" where
  "send_anon_rst E d sport dport ack =
     send_packet E d MUX_PROTO_TCP
       (enc_tcphdr (tcphdr_zero\<lparr>th_sport := sport, th_dport := dport, th_ack := ack, th_flags := TH_RST\<rparr>)) []"

definition conn_tcphdr :: "mux_connection \<Rightarrow> u8 \<Rightarrow> tcphdr" where
  "conn_tcphdr C flags = tcphdr_zero\<lparr>th_sport := conn_sport C, th_dport := conn_dport C,
     th_seq := conn_tx_seq C, th_ack := conn_tx_ack C, th_flags := flags,
     th_win := ucast (drop_bit 8 (conn_tx_win C))\<rparr>"

definition send_tcp :: "'p ext \<Rightarrow> ptr \<Rightarrow> u8 \<Rightarrow> bytes \<Rightarrow> ('p, int) mux" where
  "send_tcp E k flags data = do {
     C \<leftarrow> rd_conn k;
     res \<leftarrow> send_packet E (conn_dev C) MUX_PROTO_TCP (enc_tcphdr (conn_tcphdr C flags)) data;
     whenM (0 \<le> res) (do {
       now \<leftarrow> sys_mstime64 E;
       up_conn k (\<lambda>C. C\<lparr>conn_tx_acked := conn_tx_ack C, conn_last_ack_time := now,
         conn_flags := conn_flags C AND NOT CONN_ACK_PENDING\<rparr>)
     });
     ret res
   }"

section \<open>What a send does\<close>

text \<open>A device that can be sent to: its USB device is there and its sequence numbers are set.\<close>

definition dev_sendable :: "'p daemon \<Rightarrow> mux_device \<Rightarrow> bool" where
  "dev_sendable s D \<longleftrightarrow>
     (\<exists>u. udevs s (dev_usbdev D) = Some u \<and> ud_wMaxPacketSize u \<noteq> 0) \<and>
     (2 \<le> dev_version D \<longrightarrow> dev_tx_seq D \<noteq> None \<and> dev_rx_seq D \<noteq> None)"

text \<open>The bytes of a packet, from the device's protocol version and sequence numbers.\<close>

definition mux_packet :: "mux_device \<Rightarrow> mux_protocol \<Rightarrow> bytes \<Rightarrow> bytes \<Rightarrow> bytes" where
  "mux_packet D proto header data =
     be32 (proto_num proto) @ be32 (of_nat (mux_header_size D + length header + length data)) @
     (if 2 \<le> dev_version D then be32 0xfeedface @ be16 (the (dev_tx_seq D)) @ be16 (the (dev_rx_seq D)) else []) @
     header @ data"

lemma length_mux_packet [simp]:
  "length (mux_packet D proto header data) = mux_header_size D + length header + length data"
  by (cases "dev_version D < 2") (auto simp: mux_packet_def mux_header_size_def)

text \<open>The device after the sequence counter moved on; \<open>SETUP\<close> restarts the numbering.\<close>

definition seq_start :: "mux_protocol \<Rightarrow> mux_device \<Rightarrow> mux_device" where
  "seq_start proto D =
     (if 2 \<le> dev_version D \<and> proto = MUX_PROTO_SETUP
      then D\<lparr>dev_tx_seq := Some 0, dev_rx_seq := Some 0xFFFF\<rparr> else D)"

definition seq_next :: "mux_device \<Rightarrow> mux_device" where
  "seq_next D = (if 2 \<le> dev_version D then D\<lparr>dev_tx_seq := map_option (\<lambda>t. t + 1) (dev_tx_seq D)\<rparr> else D)"

lemma seq_simps [simp]:
  "dev_version (seq_start p D) = dev_version D" "dev_usbdev (seq_start p D) = dev_usbdev D"
  "dev_version (seq_next D) = dev_version D" "dev_usbdev (seq_next D) = dev_usbdev D"
  "dev_connections (seq_start p D) = dev_connections D" "dev_connections (seq_next D) = dev_connections D"
  "mux_header_size (seq_start p D) = mux_header_size D" "mux_header_size (seq_next D) = mux_header_size D"
  "proto \<noteq> MUX_PROTO_SETUP \<Longrightarrow> seq_start proto D = D"
  by (simp_all add: seq_start_def seq_next_def mux_header_size_def)

lemma wp_send_packet:
  assumes D: "devs s d = Some D" and ok: "dev_sendable s (seq_start proto D)"
    and h: "proto_hdrlen proto = Some (length header)"
    and fits: "int (mux_header_size D + length header + length data) \<le> USB_MTU"
    and u: "udevs s (dev_usbdev D) = Some u"
  shows "wp (send_packet E d proto header data) (\<lambda>res s'.
     io_rest s s' \<and> conns s' = conns s \<and> clients s' = clients s \<and> devs s' = (devs s)(d \<mapsto> seq_next (seq_start proto D)) \<and>
     (let pkt = mux_packet (seq_start proto D) proto header data in
      (0 \<le> res \<longrightarrow> res = int (length pkt) \<and> trace s' = trace s @ usb_packet (dev_usbdev D) u pkt) \<and>
      (res < 0 \<longrightarrow> trace s' = trace s \<or> trace s' = trace s @ [UsbOut (dev_usbdev D) (ud_ep_out u) pkt]))) s"
proof -
  define D1 where "D1 = seq_start proto D"
  define pkt where "pkt = mux_packet D1 proto header data"
  define s1 where "s1 = (if 2 \<le> dev_version D then s\<lparr>devs := (devs s)(d \<mapsto> seq_next D1)\<rparr> else s)
     \<lparr>next_ptr := Suc (next_ptr s), mem := (mem s)(next_ptr s \<mapsto> pkt)\<rparr>"
  have len: "int (mux_header_size D) + int (length header) + int (length data) = int (length pkt)"
    by (simp add: pkt_def D1_def)
  have w: "ud_wMaxPacketSize u \<noteq> 0" using ok u by (auto simp: dev_sendable_def)
  have ud1: "udevs s1 (dev_usbdev D) = Some u" and mem1: "mem s1 (next_ptr s) = Some pkt"
    and lt: "next_ptr s < next_ptr s1" and tr1: "trace s1 = trace s"
    using u by (simp_all add: s1_def)
  have fr1: "io_rest s s1" "conns s1 = conns s" "clients s1 = clients s"
    by (simp_all add: s1_def io_rest_def)
  have devs1: "devs s1 = (devs s)(d \<mapsto> seq_next D1)"
    using D by (auto simp: s1_def seq_next_def seq_start_def fun_eq_iff D1_def)
  define Q where "Q = (\<lambda>res s'. io_rest s s' \<and> conns s' = conns s \<and> clients s' = clients s \<and> devs s' = (devs s)(d \<mapsto> seq_next D1) \<and>
       (0 \<le> res \<longrightarrow> res = int (length pkt) \<and> trace s' = trace s @ usb_packet (dev_usbdev D) u pkt) \<and>
       (res < 0 \<longrightarrow> trace s' = trace s \<or> trace s' = trace s @ [UsbOut (dev_usbdev D) (ud_ep_out u) pkt]))"
  have core_io: "wp (usb_send E (dev_usbdev D) (next_ptr s) (length pkt))
     (\<lambda>res. wp (if res < 0 then do { free_heap mem mem_update (next_ptr s); ret res }
         else ret (int (length pkt))) Q) s1"
  proof (rule wp_mono [OF wp_usb_send [OF ud1 w mem1 refl lt, of E]], goal_cases)
    case (1 res s')
    then have "io_rest s s'" using fr1 io_rest_trans io_frameD by blast
    with 1 show ?case
      using devs1 tr1 fr1 by (auto simp: Q_def wp_rules io_frame_def io_rest_def)
  qed
  have lp: "length pkt = mux_header_size D1 + length header + length data"
    by (simp add: pkt_def)
  have bytes: "be32 (proto_num proto) @ be32 (of_nat (length pkt)) @
      (if 2 \<le> dev_version D then be32 0xfeedface @ be16 (the (dev_tx_seq D1)) @ be16 (the (dev_rx_seq D1)) else []) @
      header @ data = pkt"
    unfolding lp by (simp add: pkt_def mux_packet_def D1_def)
  have lenw: "word_of_nat (mux_header_size D) + word_of_nat (length header) + word_of_nat (length data) =
      (word_of_nat (length pkt) :: u32)"
    unfolding lp by (simp add: D1_def)
  have fits': "\<not> USB_MTU < int (length pkt)" using fits len by simp
  have "wp (send_packet E d proto header data) Q s"
  proof (cases "2 \<le> dev_version D")
    case False
    with bytes core_io show ?thesis
      using D h fits' by (simp add: send_packet_def wp_rules s1_def len lenw cong del: if_weak_cong)
  next
    case True
    obtain tx rx where d1: "dev_tx_seq D1 = Some tx" "dev_rx_seq D1 = Some rx"
      using ok True by (auto simp: dev_sendable_def D1_def)
    have bytes2: "be32 (proto_num proto) @ be32 (of_nat (length pkt)) @ be32 0xfeedface @
        be16 tx @ be16 rx @ header @ data = pkt"
      using bytes True d1 by simp
    have nxt: "seq_next D1 = D1\<lparr>dev_tx_seq := Some (tx + 1)\<rparr>"
      using True d1 by (simp add: seq_next_def D1_def)
    show ?thesis
    proof (cases "proto = MUX_PROTO_SETUP")
      case False
      then have "D1 = D" by (simp add: D1_def)
      with True False show ?thesis
        using core_io D h fits' d1 bytes2 nxt by (simp add: send_packet_def wp_rules s1_def len lenw cong del: if_weak_cong)
    next
      case st: True
      then have "D1 = D\<lparr>dev_tx_seq := Some 0, dev_rx_seq := Some 0xFFFF\<rparr>"
        using True by (simp add: D1_def seq_start_def)
      moreover have "header = []" using st h by simp
      moreover from this have "int (mux_header_size D) + int (length data) = int (length pkt)"
        "word_of_nat (mux_header_size D) + word_of_nat (length data) = (word_of_nat (length pkt) :: u32)"
        using len lenw by simp_all
      ultimately show ?thesis
        using True st core_io D fits' d1 bytes2 nxt
        by (simp add: send_packet_def wp_rules s1_def cong del: if_weak_cong)
    qed
  qed
  then show ?thesis by (simp add: Q_def pkt_def D1_def Let_def)
qed


text \<open>What a successful send leaves in the connection.\<close>

definition conn_acked :: "u64 \<Rightarrow> mux_connection \<Rightarrow> mux_connection" where
  "conn_acked now C = C\<lparr>conn_tx_acked := conn_tx_ack C, conn_last_ack_time := now,
     conn_flags := conn_flags C AND NOT CONN_ACK_PENDING\<rparr>"

definition tcp_packet :: "mux_device \<Rightarrow> mux_connection \<Rightarrow> u8 \<Rightarrow> bytes \<Rightarrow> bytes" where
  "tcp_packet D C flags data = mux_packet D MUX_PROTO_TCP (enc_tcphdr (conn_tcphdr C flags)) data"

definition MAX_PAYLOAD :: u32 where "MAX_PAYLOAD = 49116"

lemma wp_send_tcp:
  assumes C: "conns s k = Some C" and D: "devs s (conn_dev C) = Some D" and ok: "dev_sendable s D"
    and u: "udevs s (dev_usbdev D) = Some u" and fits: "length data \<le> unat MAX_PAYLOAD"
  shows "wp (send_tcp E k flags data) (\<lambda>res s'.
     io_rest s s' \<and> clients s' = clients s \<and> devs s' = (devs s)(conn_dev C \<mapsto> seq_next D) \<and>
     (0 \<le> res \<longrightarrow> (\<exists>now. conns s' = (conns s)(k \<mapsto> conn_acked now C)) \<and>
        trace s' = trace s @ usb_packet (dev_usbdev D) u (tcp_packet D C flags data)) \<and>
     (res < 0 \<longrightarrow> conns s' = conns s \<and>
        (trace s' = trace s \<or> trace s' = trace s @ [UsbOut (dev_usbdev D) (ud_ep_out u) (tcp_packet D C flags data)]))) s"
proof -
  have fits': "int (mux_header_size D + length (enc_tcphdr (conn_tcphdr C flags)) + length data) \<le> USB_MTU"
    using fits by (auto simp: mux_header_size_def USB_MTU_def MAX_PAYLOAD_def)
  have "wp (send_packet E (conn_dev C) MUX_PROTO_TCP (enc_tcphdr (conn_tcphdr C flags)) data) (\<lambda>res s'.
     io_rest s s' \<and> conns s' = conns s \<and> clients s' = clients s \<and> devs s' = (devs s)(conn_dev C \<mapsto> seq_next D) \<and>
     (0 \<le> res \<longrightarrow> trace s' = trace s @ usb_packet (dev_usbdev D) u (tcp_packet D C flags data)) \<and>
     (res < 0 \<longrightarrow> trace s' = trace s \<or> trace s' = trace s @ [UsbOut (dev_usbdev D) (ud_ep_out u) (tcp_packet D C flags data)])) s"
    using wp_send_packet [OF D, of MUX_PROTO_TCP "enc_tcphdr (conn_tcphdr C flags)" data u E] ok u fits'
    by (auto elim!: wp_mono simp: tcp_packet_def Let_def)
  then show ?thesis
    using C by (simp add: send_tcp_def wp_rules) (auto elim!: wp_mono simp: wp_rules conn_acked_def)
qed

text \<open>A device that can be sent to still can after any I/O.\<close>

lemma dev_sendable_io:
  assumes "dev_sendable s D" and "udev_core s' = udev_core s"
  shows "dev_sendable s' D" "dev_sendable s' (seq_next D)"
proof -
  from assms(1) obtain u where u: "udevs s (dev_usbdev D) = Some u" "ud_wMaxPacketSize u \<noteq> 0"
    by (auto simp: dev_sendable_def)
  from udev_core_SomeD [OF assms(2) u(1)] u(2) assms(1)
  show "dev_sendable s' D" "dev_sendable s' (seq_next D)"
    by (auto simp: dev_sendable_def seq_next_def)
qed

end
