(* ===== verification/Byte_Queue.thy ===== *)
theory Byte_Queue
  imports Calculus
begin

text \<open>
  The two byte queues of the daemon are arrays with a fill count: the in-buffer of a
  connection (device to client) and the output buffer of a client (replies). Both are
  filled by \<^verbatim>\<open>memcpy\<close> behind the pending bytes and drained by \<^verbatim>\<open>memmove\<close> of the rest to
  the front. The locale \<open>byte_queue\<close> states what their users rely on, and proves once
  that any interleaving of fills and drains is first-in first-out without loss.
\<close>

datatype queue_op = Put bytes | Get nat

locale byte_queue =
  fixes content :: "'q \<Rightarrow> bytes"
    and ok :: "'q \<Rightarrow> bool"
    and room :: "'q \<Rightarrow> bytes \<Rightarrow> bool"
    and put :: "bytes \<Rightarrow> 'q \<Rightarrow> 'q"
    and drop_front :: "nat \<Rightarrow> 'q \<Rightarrow> 'q"
  assumes put_ok: "ok q \<Longrightarrow> room q xs \<Longrightarrow> ok (put xs q)"
    and put_content: "ok q \<Longrightarrow> room q xs \<Longrightarrow> content (put xs q) = content q @ xs"
    and drop_ok: "ok q \<Longrightarrow> n \<le> length (content q) \<Longrightarrow> ok (drop_front n q)"
    and drop_content: "ok q \<Longrightarrow> n \<le> length (content q) \<Longrightarrow> content (drop_front n q) = drop n (content q)"
begin

text \<open>A run of the queue: what came out, and the queue that is left. Steps without room or data are not taken.\<close>

fun runq :: "'q \<Rightarrow> queue_op list \<Rightarrow> bytes \<times> 'q" where
  "runq q [] = ([], q)"
| "runq q (Put xs # ops) = (if room q xs then runq (put xs q) ops else runq q ops)"
| "runq q (Get n # ops) =
     (if n \<le> length (content q)
      then (case runq (drop_front n q) ops of (out, q') \<Rightarrow> (take n (content q) @ out, q'))
      else runq q ops)"

fun accepted :: "'q \<Rightarrow> queue_op list \<Rightarrow> bytes" where
  "accepted q [] = []"
| "accepted q (Put xs # ops) = (if room q xs then xs @ accepted (put xs q) ops else accepted q ops)"
| "accepted q (Get n # ops) =
     (if n \<le> length (content q) then accepted (drop_front n q) ops else accepted q ops)"

lemma fifo:
  "ok q \<Longrightarrow> ok (snd (runq q ops)) \<and> fst (runq q ops) @ content (snd (runq q ops)) = content q @ accepted q ops"
proof (induction q ops rule: runq.induct)
  case (1 q)
  then show ?case by simp
next
  case (2 q xs ops)
  then show ?case by (simp add: put_ok put_content)
next
  case (3 q n ops)
  then show ?case
    by (auto simp: drop_ok drop_content split_beta)
qed

end

section \<open>The in-buffer of a connection\<close>

definition conn_ib_put :: "bytes \<Rightarrow> mux_connection \<Rightarrow> mux_connection" where
  "conn_ib_put payload C =
     C\<lparr>conn_ib_buf := memcpy_at (conn_ib_buf C) (unat (conn_ib_size C)) payload,
       conn_ib_size := conn_ib_size C + of_nat (length payload)\<rparr>"

definition conn_ib_drop :: "nat \<Rightarrow> mux_connection \<Rightarrow> mux_connection" where
  "conn_ib_drop sz C =
     (if int sz = sint (conn_ib_size C) then C\<lparr>conn_ib_size := 0\<rparr>
      else let n = conn_ib_size C - of_nat sz in
        C\<lparr>conn_ib_size := n, conn_ib_buf := memmove_down (conn_ib_buf C) sz (unat n)\<rparr>)"

lemma conn_ib_selectors [simp]:
  "conn_dev (conn_ib_put xs C) = conn_dev C" "conn_dev (conn_ib_drop n C) = conn_dev C"
  "conn_client (conn_ib_put xs C) = conn_client C" "conn_client (conn_ib_drop n C) = conn_client C"
  "conn_state (conn_ib_put xs C) = conn_state C" "conn_state (conn_ib_drop n C) = conn_state C"
  "conn_sport (conn_ib_put xs C) = conn_sport C" "conn_sport (conn_ib_drop n C) = conn_sport C"
  "conn_dport (conn_ib_put xs C) = conn_dport C" "conn_dport (conn_ib_drop n C) = conn_dport C"
  "conn_tx_seq (conn_ib_put xs C) = conn_tx_seq C" "conn_tx_seq (conn_ib_drop n C) = conn_tx_seq C"
  "conn_tx_ack (conn_ib_put xs C) = conn_tx_ack C" "conn_tx_ack (conn_ib_drop n C) = conn_tx_ack C"
  "conn_tx_acked (conn_ib_put xs C) = conn_tx_acked C" "conn_tx_acked (conn_ib_drop n C) = conn_tx_acked C"
  "conn_tx_win (conn_ib_put xs C) = conn_tx_win C" "conn_tx_win (conn_ib_drop n C) = conn_tx_win C"
  "conn_rx_seq (conn_ib_put xs C) = conn_rx_seq C" "conn_rx_seq (conn_ib_drop n C) = conn_rx_seq C"
  "conn_rx_recvd (conn_ib_put xs C) = conn_rx_recvd C" "conn_rx_recvd (conn_ib_drop n C) = conn_rx_recvd C"
  "conn_rx_ack (conn_ib_put xs C) = conn_rx_ack C" "conn_rx_ack (conn_ib_drop n C) = conn_rx_ack C"
  "conn_rx_win (conn_ib_put xs C) = conn_rx_win C" "conn_rx_win (conn_ib_drop n C) = conn_rx_win C"
  "conn_max_payload (conn_ib_put xs C) = conn_max_payload C" "conn_max_payload (conn_ib_drop n C) = conn_max_payload C"
  "conn_sendable (conn_ib_put xs C) = conn_sendable C" "conn_sendable (conn_ib_drop n C) = conn_sendable C"
  "conn_flags (conn_ib_put xs C) = conn_flags C" "conn_flags (conn_ib_drop n C) = conn_flags C"
  "conn_ib_capacity (conn_ib_put xs C) = conn_ib_capacity C" "conn_ib_capacity (conn_ib_drop n C) = conn_ib_capacity C"
  "conn_ob_buf (conn_ib_put xs C) = conn_ob_buf C" "conn_ob_buf (conn_ib_drop n C) = conn_ob_buf C"
  "conn_ob_capacity (conn_ib_put xs C) = conn_ob_capacity C" "conn_ob_capacity (conn_ib_drop n C) = conn_ob_capacity C"
  "conn_events (conn_ib_put xs C) = conn_events C" "conn_events (conn_ib_drop n C) = conn_events C"
  "conn_last_ack_time (conn_ib_put xs C) = conn_last_ack_time C" "conn_last_ack_time (conn_ib_drop n C) = conn_last_ack_time C"
  by (simp_all add: conn_ib_put_def conn_ib_drop_def Let_def)

definition conn_pending :: "mux_connection \<Rightarrow> bytes" where
  "conn_pending C = take (unat (conn_ib_size C)) (conn_ib_buf C)"

definition conn_ib_ok :: "mux_connection \<Rightarrow> bool" where
  "conn_ib_ok C \<longleftrightarrow> unat (conn_ib_size C) \<le> length (conn_ib_buf C) \<and>
     length (conn_ib_buf C) \<le> unat (conn_ib_capacity C) \<and> conn_ib_capacity C = CONN_INBUF_SIZE"

definition conn_ib_room :: "mux_connection \<Rightarrow> bytes \<Rightarrow> bool" where
  "conn_ib_room C payload \<longleftrightarrow> unat (conn_ib_size C) + length payload \<le> unat (conn_ib_capacity C)"

interpretation conn_q: byte_queue conn_pending conn_ib_ok conn_ib_room conn_ib_put conn_ib_drop
proof unfold_locales
  fix C and xs :: bytes
  assume ok: "conn_ib_ok C" and room: "conn_ib_room C xs"
  then have sz: "unat (conn_ib_size C + of_nat (length xs)) = unat (conn_ib_size C) + length xs"
    by (intro unat_add_of_nat) (simp add: conn_ib_ok_def conn_ib_room_def size_consts)
  show "conn_ib_ok (conn_ib_put xs C)"
    using ok room sz by (auto simp: conn_ib_ok_def conn_ib_room_def conn_ib_put_def length_memcpy_at)
  show "conn_pending (conn_ib_put xs C) = conn_pending C @ xs"
    using ok room sz by (simp add: conn_ib_ok_def conn_ib_put_def conn_pending_def take_memcpy_at)
next
  fix C n
  assume ok: "conn_ib_ok C" and n: "n \<le> length (conn_pending C)"
  then have n': "n \<le> unat (conn_ib_size C)" by (simp add: conn_pending_def)
  have si: "sint (conn_ib_size C) = int (unat (conn_ib_size C))"
    by (rule sint_small) (use ok in \<open>auto simp: conn_ib_ok_def size_consts\<close>)
  have e: "int n = sint (conn_ib_size C) \<longleftrightarrow> n = unat (conn_ib_size C)"
    unfolding si by (rule of_nat_eq_iff)
  note sz = unat_sub_of_nat [OF n']
  show "conn_ib_ok (conn_ib_drop n C)"
    using ok n' e by (auto simp: conn_ib_ok_def conn_ib_drop_def sz Let_def length_memmove_down)
  show "conn_pending (conn_ib_drop n C) = drop n (conn_pending C)"
    using ok n' e
    by (simp add: conn_ib_ok_def conn_ib_drop_def sz Let_def conn_pending_def take_memmove_down drop_take)
qed

section \<open>The output buffer of a client\<close>

definition cl_ob_put :: "bytes \<Rightarrow> 'p mux_client \<Rightarrow> 'p mux_client" where
  "cl_ob_put msg c =
     c\<lparr>cl_ob_buf := map_option (\<lambda>b. memcpy_at b (unat (cl_ob_size c)) msg) (cl_ob_buf c),
       cl_ob_size := cl_ob_size c + of_nat (length msg)\<rparr>"

definition cl_ob_drop :: "nat \<Rightarrow> 'p mux_client \<Rightarrow> 'p mux_client" where
  "cl_ob_drop res c =
     (if of_nat res = cl_ob_size c then c\<lparr>cl_ob_size := 0\<rparr>
      else let n = cl_ob_size c - of_nat res in
        c\<lparr>cl_ob_size := n, cl_ob_buf := map_option (\<lambda>b. memmove_down b res (unat n)) (cl_ob_buf c)\<rparr>)"

lemma cl_ob_selectors [simp]:
  "cl_fd (cl_ob_put xs c) = cl_fd c" "cl_fd (cl_ob_drop n c) = cl_fd c"
  "cl_ob_capacity (cl_ob_put xs c) = cl_ob_capacity c" "cl_ob_capacity (cl_ob_drop n c) = cl_ob_capacity c"
  "cl_ib_buf (cl_ob_put xs c) = cl_ib_buf c" "cl_ib_buf (cl_ob_drop n c) = cl_ib_buf c"
  "cl_ib_size (cl_ob_put xs c) = cl_ib_size c" "cl_ib_size (cl_ob_drop n c) = cl_ib_size c"
  "cl_ib_capacity (cl_ob_put xs c) = cl_ib_capacity c" "cl_ib_capacity (cl_ob_drop n c) = cl_ib_capacity c"
  "cl_events (cl_ob_put xs c) = cl_events c" "cl_events (cl_ob_drop n c) = cl_events c"
  "cl_devents (cl_ob_put xs c) = cl_devents c" "cl_devents (cl_ob_drop n c) = cl_devents c"
  "cl_connect_tag (cl_ob_put xs c) = cl_connect_tag c" "cl_connect_tag (cl_ob_drop n c) = cl_connect_tag c"
  "cl_connect_device (cl_ob_put xs c) = cl_connect_device c" "cl_connect_device (cl_ob_drop n c) = cl_connect_device c"
  "cl_state (cl_ob_put xs c) = cl_state c" "cl_state (cl_ob_drop n c) = cl_state c"
  "cl_proto_version (cl_ob_put xs c) = cl_proto_version c" "cl_proto_version (cl_ob_drop n c) = cl_proto_version c"
  "cl_number (cl_ob_put xs c) = cl_number c" "cl_number (cl_ob_drop n c) = cl_number c"
  "cl_info (cl_ob_put xs c) = cl_info c" "cl_info (cl_ob_drop n c) = cl_info c"
  by (simp_all add: cl_ob_put_def cl_ob_drop_def Let_def)

definition cl_pending :: "'p mux_client \<Rightarrow> bytes" where
  "cl_pending c = take (unat (cl_ob_size c)) (case cl_ob_buf c of None \<Rightarrow> [] | Some b \<Rightarrow> b)"

definition cl_ob_ok :: "'p mux_client \<Rightarrow> bool" where
  "cl_ob_ok c \<longleftrightarrow> (\<exists>b. cl_ob_buf c = Some b \<and> unat (cl_ob_size c) \<le> length b \<and>
     length b \<le> unat (cl_ob_capacity c))"

definition cl_ob_room :: "'p mux_client \<Rightarrow> bytes \<Rightarrow> bool" where
  "cl_ob_room c msg \<longleftrightarrow> unat (cl_ob_size c) + length msg \<le> unat (cl_ob_capacity c)"

interpretation client_q: byte_queue cl_pending cl_ob_ok cl_ob_room cl_ob_put cl_ob_drop
proof unfold_locales
  fix c :: "'p mux_client" and xs :: bytes
  assume ok: "cl_ob_ok c" and room: "cl_ob_room c xs"
  have "unat (cl_ob_capacity c) < 2 ^ 32" using unat_bound [of "cl_ob_capacity c"] by simp
  then have sz: "unat (cl_ob_size c + of_nat (length xs)) = unat (cl_ob_size c) + length xs"
    using room by (intro unat_add_of_nat) (simp add: cl_ob_room_def)
  show "cl_ob_ok (cl_ob_put xs c)"
    using ok room sz by (auto simp: cl_ob_ok_def cl_ob_room_def cl_ob_put_def length_memcpy_at)
  show "cl_pending (cl_ob_put xs c) = cl_pending c @ xs"
    using ok room sz by (auto simp: cl_ob_ok_def cl_ob_put_def cl_pending_def take_memcpy_at)
next
  fix c :: "'p mux_client" and n
  assume ok: "cl_ob_ok c" and n: "n \<le> length (cl_pending c)"
  then have n': "n \<le> unat (cl_ob_size c)" by (auto simp: cl_pending_def cl_ob_ok_def)
  note sz = unat_sub_of_nat [OF n']
  have all: "n = unat (cl_ob_size c)" if "of_nat n = cl_ob_size c"
  proof -
    have "n < 2 ^ 32" using n' unat_bound [of "cl_ob_size c"] by simp
    then have "unat (of_nat n :: u32) = n" by (simp add: unat_of_nat_small)
    with that show ?thesis by simp
  qed
  show "cl_ob_ok (cl_ob_drop n c)"
    using ok n' by (auto simp: cl_ob_ok_def cl_ob_drop_def sz Let_def length_memmove_down)
  show "cl_pending (cl_ob_drop n c) = drop n (cl_pending c)"
    using ok n' all
    by (auto simp: cl_ob_ok_def cl_ob_drop_def sz Let_def cl_pending_def take_memmove_down drop_take)
qed

end
