(* ===== verification/Client_IO.thy ===== *)
theory Client_IO
  imports Byte_Queue
begin

text \<open>
  The part of \<^verbatim>\<open>client.c\<close> that the device layer calls and the messages that go to
  clients: raw reads and writes, the event mask, queueing a message, and the answer to
  a connect request.
\<close>

section \<open>Operations\<close>

definition client_read :: "'p ext \<Rightarrow> ptr \<Rightarrow> u32 \<Rightarrow> ('p, int + bytes) mux" where
  "client_read E c len = do {
     cl \<leftarrow> rd_client c;
     if cl_state cl \<noteq> CLIENT_CONNECTED then ret (Inl (-1))
     else sys_recv E (cl_fd cl) (unat len)
   }"

definition client_write :: "'p ext \<Rightarrow> ptr \<Rightarrow> bytes \<Rightarrow> ('p, int) mux" where
  "client_write E c buffer = do {
     cl \<leftarrow> rd_client c;
     if cl_state cl \<noteq> CLIENT_CONNECTED then ret (-1)
     else do {
       sret \<leftarrow> sys_send E (cl_fd cl) buffer;
       ret (case sret of Inl e \<Rightarrow> if e = EAGAIN then 0 else -1 | Inr n \<Rightarrow> int n)
     }
   }"

definition client_set_events :: "ptr \<Rightarrow> u16 \<Rightarrow> ('p, int) mux" where
  "client_set_events c events = do {
     cl \<leftarrow> rd_client c;
     if cl_state cl \<noteq> CLIENT_CONNECTED \<and> cl_state cl \<noteq> CLIENT_CONNECTING2 then ret (-1)
     else do {
       up_client c (\<lambda>cl. cl\<lparr>cl_devents := events\<rparr>);
       whenM (cl_state cl = CLIENT_CONNECTED) (up_client c (\<lambda>cl. cl\<lparr>cl_events := events\<rparr>));
       ret 0
     }
   }"

text \<open>
  Queue a message. The header counts its own 16 bytes; a buffer without room is enlarged
  to the next multiple of 4096 beyond the sum of the old capacity and the message.
\<close>

definition ob_new_size :: "u32 \<Rightarrow> u32 \<Rightarrow> u32" where
  "ob_new_size cap len = ((cap + len + 4096) div 4096) * 4096"

definition output_buffer_add_message ::
    "'p ext \<Rightarrow> ptr \<Rightarrow> u32 \<Rightarrow> usbmuxd_msgtype \<Rightarrow> bytes \<Rightarrow> ('p, int) mux" where
  "output_buffer_add_message E c tag msg payload = do {
     cl \<leftarrow> rd_client c;
     let len = 16 + of_nat (length payload);
     let hdr = \<lparr>hdr_length = len, hdr_version = cl_proto_version cl, hdr_message = msgtype_num msg, hdr_tag = tag\<rparr>;
     let available = cl_ob_capacity cl - cl_ob_size cl;
     grown \<leftarrow> (if available < len then do {
         let new_size = ob_new_size (cl_ob_capacity cl) len;
         t \<leftarrow> tick E;
         if os_realloc E t (unat new_size) then do {
           up_client c (\<lambda>cl. cl\<lparr>cl_ob_buf := Some (case cl_ob_buf cl of None \<Rightarrow> [] | Some b \<Rightarrow> b),
             cl_ob_capacity := new_size\<rparr>);
           ret True
         } else ret False
       } else ret True);
     if \<not> grown then ret (-1)
     else do {
       cl \<leftarrow> rd_client c;
       assert_m NullDeref (cl_ob_buf cl \<noteq> None);
       assert_m OutOfBounds (unat (cl_ob_size cl) + 16 + length payload \<le> unat (cl_ob_capacity cl));
       up_client c (cl_ob_put (enc_usbmuxd_header hdr @ payload));
       up_client c (\<lambda>cl. cl\<lparr>cl_events := cl_events cl OR POLLOUT\<rparr>);
       ret (sint len)
     }
   }"

definition send_plist :: "'p ext \<Rightarrow> ptr \<Rightarrow> u32 \<Rightarrow> 'p \<Rightarrow> ('p, int) mux" where
  "send_plist E c tag plist =
     (case plist_to_xml E plist of
        Some xml \<Rightarrow> output_buffer_add_message E c tag MESSAGE_PLIST xml
      | None \<Rightarrow> ret (-1))"

definition result_plist :: "'p ext \<Rightarrow> u32 \<Rightarrow> 'p" where
  "result_plist E result =
     plist_dict_set_item E
       (plist_dict_set_item E (plist_new_dict E) ''MessageType'' (plist_new_string E ''Result''))
       ''Number'' (plist_new_uint E (ucast result))"

definition send_result :: "'p ext \<Rightarrow> ptr \<Rightarrow> u32 \<Rightarrow> u32 \<Rightarrow> ('p, int) mux" where
  "send_result E c tag result = do {
     cl \<leftarrow> rd_client c;
     if cl_proto_version cl = 1 then send_plist E c tag (result_plist E result)
     else output_buffer_add_message E c tag MESSAGE_RESULT (le32 result)
   }"

definition client_notify_connect :: "'p ext \<Rightarrow> ptr \<Rightarrow> usbmuxd_result \<Rightarrow> ('p, int) mux" where
  "client_notify_connect E c result = do {
     cl \<leftarrow> rd_client c;
     if cl_state cl = CLIENT_DEAD then ret (-1)
     else if cl_state cl \<noteq> CLIENT_CONNECTING1 then ret (-1)
     else do {
       r \<leftarrow> send_result E c (cl_connect_tag cl) (result_num result);
       if r < 0 then ret (-1)
       else do {
         (if result = RESULT_OK
          then up_client c (\<lambda>cl. cl\<lparr>cl_state := CLIENT_CONNECTING2, cl_events := POLLOUT, cl_ib_buf := None\<rparr>)
          else up_client c (\<lambda>cl. cl\<lparr>cl_state := CLIENT_COMMAND\<rparr>));
         ret 0
       }
     }
   }"

section \<open>Queueing a message\<close>

text \<open>The message as bytes, in the format of the protocol version the client speaks.\<close>

definition message_bytes :: "'p mux_client \<Rightarrow> u32 \<Rightarrow> usbmuxd_msgtype \<Rightarrow> bytes \<Rightarrow> bytes" where
  "message_bytes cl tag msg payload =
     enc_usbmuxd_header \<lparr>hdr_length = of_nat (16 + length payload), hdr_version = cl_proto_version cl,
       hdr_message = msgtype_num msg, hdr_tag = tag\<rparr> @ payload"

lemma length_message_bytes [simp]: "length (message_bytes cl tag msg payload) = 16 + length payload"
  by (simp add: message_bytes_def)

text \<open>A client whose replies go through: its buffer is sound and stays addressable by 32 bits.\<close>

definition ob_small :: "'p mux_client \<Rightarrow> nat \<Rightarrow> bool" where
  "ob_small cl n \<longleftrightarrow> unat (cl_ob_capacity cl) + 16 + n + 4096 < 2 ^ 32"

text \<open>The client after a message was queued: only the output buffer and the event mask differ.\<close>

definition same_but_out :: "'p mux_client \<Rightarrow> 'p mux_client \<Rightarrow> bool" where
  "same_but_out cl cl' \<longleftrightarrow>
     cl' = cl\<lparr>cl_ob_buf := cl_ob_buf cl', cl_ob_size := cl_ob_size cl',
              cl_ob_capacity := cl_ob_capacity cl', cl_events := cl_events cl'\<rparr>"

lemma same_but_outD:
  assumes "same_but_out cl cl'"
  shows "cl_fd cl' = cl_fd cl" "cl_ib_buf cl' = cl_ib_buf cl" "cl_ib_size cl' = cl_ib_size cl"
    "cl_ib_capacity cl' = cl_ib_capacity cl" "cl_state cl' = cl_state cl"
    "cl_connect_device cl' = cl_connect_device cl" "cl_connect_tag cl' = cl_connect_tag cl"
    "cl_proto_version cl' = cl_proto_version cl" "cl_devents cl' = cl_devents cl" "cl_info cl' = cl_info cl"
  using assms by (cases cl, cases cl', simp add: same_but_out_def)+

text \<open>Enlarging makes room for the message.\<close>

lemma ob_new_size_room:
  assumes "unat cap + unat len + 4096 < 2 ^ 32"
  shows "unat cap + unat len \<le> unat (ob_new_size cap len)"
    and "unat (ob_new_size cap len) \<le> unat cap + unat len + 4096"
proof -
  have a: "unat (cap + len + 4096) = unat cap + unat len + 4096"
    using assms by (simp add: unat_word_ariths)
  have q: "unat ((cap + len + 4096) div 4096) = (unat cap + unat len + 4096) div 4096"
    by (simp add: unat_div a)
  have le: "(unat cap + unat len + 4096) div 4096 * 4096 \<le> unat cap + unat len + 4096"
    by (rule div_times_less_eq_dividend)
  then have r: "unat (ob_new_size cap len) = (unat cap + unat len + 4096) div 4096 * 4096"
    using assms by (simp add: ob_new_size_def unat_word_ariths q)
  from le r show "unat (ob_new_size cap len) \<le> unat cap + unat len + 4096" by simp
  have "unat cap + unat len + 4096 < (unat cap + unat len + 4096) div 4096 * 4096 + 4096"
    using dividend_less_times_div [of 4096 "unat cap + unat len + 4096"] by simp
  with r show "unat cap + unat len \<le> unat (ob_new_size cap len)" by simp
qed

text \<open>The client after the buffer was enlarged for \<open>len\<close> bytes, and after a message was queued.\<close>

definition ob_grow :: "u32 \<Rightarrow> 'p mux_client \<Rightarrow> 'p mux_client" where
  "ob_grow len cl =
     (if cl_ob_capacity cl - cl_ob_size cl < len
      then cl\<lparr>cl_ob_buf := Some (case cl_ob_buf cl of None \<Rightarrow> [] | Some b \<Rightarrow> b),
              cl_ob_capacity := ob_new_size (cl_ob_capacity cl) len\<rparr>
      else cl)"

definition queued :: "u32 \<Rightarrow> usbmuxd_msgtype \<Rightarrow> bytes \<Rightarrow> 'p mux_client \<Rightarrow> 'p mux_client" where
  "queued tag msg payload cl =
     (cl_ob_put (message_bytes cl tag msg payload) (ob_grow (16 + of_nat (length payload)) cl))
       \<lparr>cl_events := cl_events cl OR POLLOUT\<rparr>"

lemma ob_grow_simps [simp]:
  "cl_ob_size (ob_grow len cl) = cl_ob_size cl" "cl_events (ob_grow len cl) = cl_events cl"
  "same_but_out cl (ob_grow len cl)"
  by (simp_all add: ob_grow_def same_but_out_def)

lemma ob_grow_ok:
  assumes ok: "cl_ob_ok cl" and len: "unat len = 16 + n" and small: "ob_small cl n"
  shows "cl_ob_ok (ob_grow len cl)" "cl_pending (ob_grow len cl) = cl_pending cl"
    "unat (cl_ob_size cl) + 16 + n \<le> unat (cl_ob_capacity (ob_grow len cl))"
    "unat (cl_ob_capacity (ob_grow len cl)) \<le> unat (cl_ob_capacity cl) + 16 + n + 4096"
proof -
  from ok obtain b where b: "cl_ob_buf cl = Some b" "unat (cl_ob_size cl) \<le> length b"
    "length b \<le> unat (cl_ob_capacity cl)" by (auto simp: cl_ob_ok_def)
  note big = ob_new_size_room [of "cl_ob_capacity cl" len, unfolded len]
  have sz: "cl_ob_size cl \<le> cl_ob_capacity cl" using b by (simp add: word_le_nat_alt)
  show "unat (cl_ob_size cl) + 16 + n \<le> unat (cl_ob_capacity (ob_grow len cl))"
    "unat (cl_ob_capacity (ob_grow len cl)) \<le> unat (cl_ob_capacity cl) + 16 + n + 4096"
    "cl_ob_ok (ob_grow len cl)" "cl_pending (ob_grow len cl) = cl_pending cl"
    using big small b sz len
    by (auto simp: ob_grow_def ob_small_def cl_ob_ok_def cl_pending_def word_less_nat_alt unat_sub not_less)
qed

lemma message_len:
  assumes "ob_small cl (length payload)"
  shows "unat (16 + of_nat (length payload) :: u32) = 16 + length payload"
  using assms unat_add_of_nat [of "16 :: u32" "length payload"] by (simp add: ob_small_def)

lemma queued_ok:
  assumes ok: "cl_ob_ok cl" and small: "ob_small cl (length payload)"
  shows "cl_ob_ok (queued tag msg payload cl)"
    "cl_pending (queued tag msg payload cl) = cl_pending cl @ message_bytes cl tag msg payload"
    "unat (cl_ob_capacity (queued tag msg payload cl)) \<le> unat (cl_ob_capacity cl) + 16 + length payload + 4096"
proof -
  define m g where "m = message_bytes cl tag msg payload" and "g = ob_grow (16 + of_nat (length payload)) cl"
  note grow = ob_grow_ok [OF ok message_len [OF small] small, folded g_def]
  have room: "cl_ob_room g m" using grow(3) by (simp add: cl_ob_room_def m_def g_def)
  note put = client_q.put_ok [OF grow(1) room] client_q.put_content [OF grow(1) room]
  from put grow show "cl_ob_ok (queued tag msg payload cl)"
    "cl_pending (queued tag msg payload cl) = cl_pending cl @ message_bytes cl tag msg payload"
    "unat (cl_ob_capacity (queued tag msg payload cl)) \<le> unat (cl_ob_capacity cl) + 16 + length payload + 4096"
    by (simp_all add: queued_def cl_ob_ok_def cl_pending_def flip: m_def g_def)
qed

lemma queued_simps [simp]:
  "cl_events (queued tag msg payload cl) = cl_events cl OR POLLOUT"
  "same_but_out cl (queued tag msg payload cl)"
  by (simp_all add: queued_def same_but_out_def cl_ob_put_def ob_grow_def)

lemmas queued_same [simp] = same_but_outD [OF queued_simps(2)]

text \<open>
  Queueing appends exactly the message behind what is pending, wakes the poll loop, and
  returns the length of the message. Enlarging the buffer is one call to the outside.
\<close>

definition after_queue :: "'p ext \<Rightarrow> ptr \<Rightarrow> 'p mux_client \<Rightarrow> 'p daemon \<Rightarrow> 'p daemon \<Rightarrow> bool" where
  "after_queue E c cl' s s' \<longleftrightarrow>
     s' = s\<lparr>clients := (clients s)(c \<mapsto> cl')\<rparr> \<or> s' = (ticked E s)\<lparr>clients := (clients s)(c \<mapsto> cl')\<rparr>"

lemma after_queueD:
  assumes "after_queue E c cl' s s'"
  shows "clients s' = (clients s)(c \<mapsto> cl')" "conns s' = conns s" "devs s' = devs s" "io_rest s s'"
    "trace s' = trace s" "fault s' = fault s"
  using assms by (auto simp: after_queue_def)

lemma after_queue_upd:
  "after_queue E c cl' s s' \<Longrightarrow> after_queue E c cl'' s (s'\<lparr>clients := (clients s')(c \<mapsto> cl'')\<rparr>)"
  by (auto simp: after_queue_def)

lemma wp_output_buffer_add_message:
  assumes cl: "clients s c = Some cl" and ok: "cl_ob_ok cl"
    and small: "ob_small cl (length payload)" and re: "\<And>t n. os_realloc E t n"
  shows "wp (output_buffer_add_message E c tag msg payload) (\<lambda>res s'.
     after_queue E c (queued tag msg payload cl) s s' \<and> res = sint (of_nat (16 + length payload) :: u32)) s"
proof -
  let ?len = "16 + of_nat (length payload) :: u32"
  have m: "enc_usbmuxd_header \<lparr>hdr_length = ?len, hdr_version = cl_proto_version cl,
      hdr_message = msgtype_num msg, hdr_tag = tag\<rparr> @ payload = message_bytes cl tag msg payload"
    by (simp add: message_bytes_def)
  define q where "q = queued tag msg payload cl"
  note room = ob_grow_ok(3) [OF ok message_len [OF small] small]
  from ok obtain b where b: "cl_ob_buf cl = Some b" by (auto simp: cl_ob_ok_def)
  have "wp (output_buffer_add_message E c tag msg payload) (\<lambda>res s'.
     after_queue E c q s s' \<and> res = sint (of_nat (16 + length payload) :: u32)) s"
  proof (cases "cl_ob_capacity cl - cl_ob_size cl < ?len")
    case True
    have "after_queue E c q s ((ticked E s)\<lparr>clients := (clients s)(c \<mapsto> q)\<rparr>)"
      by (simp add: after_queue_def)
    then show ?thesis
      using True cl b re room m
      by (simp add: output_buffer_add_message_def wp_rules Let_def q_def queued_def ob_grow_def)
  next
    case False
    have "after_queue E c q s (s\<lparr>clients := (clients s)(c \<mapsto> q)\<rparr>)"
      by (simp add: after_queue_def)
    then show ?thesis
      using False cl b room m
      by (simp add: output_buffer_add_message_def wp_rules Let_def q_def queued_def ob_grow_def)
  qed
  then show ?thesis by (simp add: q_def)
qed

section \<open>Answers to a client\<close>

text \<open>
  What the answers rely on: memory for the buffer, and a property list library that
  prints a result message, in at most a page.
\<close>

definition replies_ok :: "'p ext \<Rightarrow> bool" where
  "replies_ok E \<longleftrightarrow> (\<forall>t n. os_realloc E t n) \<and>
     (\<forall>r. \<exists>xml. plist_to_xml E (result_plist E r) = Some xml \<and> length xml \<le> 4096)"

definition result_payload :: "'p ext \<Rightarrow> 'p mux_client \<Rightarrow> u32 \<Rightarrow> bytes" where
  "result_payload E cl r =
     (if cl_proto_version cl = 1 then the (plist_to_xml E (result_plist E r)) else le32 r)"

definition answered :: "'p ext \<Rightarrow> u32 \<Rightarrow> u32 \<Rightarrow> 'p mux_client \<Rightarrow> 'p mux_client" where
  "answered E tag r cl =
     queued tag (if cl_proto_version cl = 1 then MESSAGE_PLIST else MESSAGE_RESULT) (result_payload E cl r) cl"

definition ob_calm :: "'p mux_client \<Rightarrow> bool" where
  "ob_calm cl \<longleftrightarrow> cl_ob_ok cl \<and> unat (cl_ob_capacity cl) < 2 ^ 31"

lemma result_payload_small: "replies_ok E \<Longrightarrow> length (result_payload E cl r) \<le> 4096"
proof -
  assume "replies_ok E"
  then obtain xml where "plist_to_xml E (result_plist E r) = Some xml" "length xml \<le> 4096"
    unfolding replies_ok_def by blast
  then show ?thesis by (simp add: result_payload_def)
qed

lemma answered_simps [simp]:
  "cl_events (answered E tag r cl) = cl_events cl OR POLLOUT" "same_but_out cl (answered E tag r cl)"
  by (simp_all add: answered_def)

lemmas answered_same [simp] = same_but_outD [OF answered_simps(2)]

lemma answered_ok:
  assumes "replies_ok E" and "ob_calm cl"
  shows "cl_ob_ok (answered E tag r cl)"
    "cl_pending (answered E tag r cl) = cl_pending cl @ message_bytes cl tag
       (if cl_proto_version cl = 1 then MESSAGE_PLIST else MESSAGE_RESULT) (result_payload E cl r)"
    "unat (cl_ob_capacity (answered E tag r cl)) \<le> unat (cl_ob_capacity cl) + 8208"
proof -
  have ok: "cl_ob_ok cl" and small: "ob_small cl (length (result_payload E cl r))"
    using assms result_payload_small [of E cl r] by (auto simp: ob_calm_def ob_small_def)
  show "cl_ob_ok (answered E tag r cl)"
    "cl_pending (answered E tag r cl) = cl_pending cl @ message_bytes cl tag
       (if cl_proto_version cl = 1 then MESSAGE_PLIST else MESSAGE_RESULT) (result_payload E cl r)"
    "unat (cl_ob_capacity (answered E tag r cl)) \<le> unat (cl_ob_capacity cl) + 8208"
    using queued_ok [OF ok small, of tag "if cl_proto_version cl = 1 then MESSAGE_PLIST else MESSAGE_RESULT"]
      result_payload_small [OF assms(1), of cl r]
    by (simp_all add: answered_def)
qed

lemma wp_send_result:
  assumes E: "replies_ok E" and cl: "clients s c = Some cl" and calm: "ob_calm cl"
  shows "wp (send_result E c tag r) (\<lambda>res s'. after_queue E c (answered E tag r cl) s s' \<and> 0 < res) s"
proof -
  have ok: "cl_ob_ok cl" and small: "ob_small cl (length (result_payload E cl r))"
    and re: "\<And>t n. os_realloc E t n"
    using E calm result_payload_small [OF E, of cl r] by (auto simp: ob_calm_def ob_small_def replies_ok_def)
  have "unat (of_nat (16 + length (result_payload E cl r)) :: u32) = 16 + length (result_payload E cl r)"
    using result_payload_small [OF E, of cl r] by (intro unat_of_nat_small) simp
  then have pos: "0 < sint (of_nat (16 + length (result_payload E cl r)) :: u32)"
    using result_payload_small [OF E, of cl r] by (subst sint_small) simp_all
  obtain xml where xml: "plist_to_xml E (result_plist E r) = Some xml"
    using E unfolding replies_ok_def by blast
  note queue = wp_mono [OF wp_output_buffer_add_message [OF cl ok small re]]
  show ?thesis
  proof (cases "cl_proto_version cl = 1")
    case True
    have "wp (output_buffer_add_message E c tag MESSAGE_PLIST xml)
        (\<lambda>res s'. after_queue E c (answered E tag r cl) s s' \<and> 0 < res) s"
      using queue [of tag MESSAGE_PLIST] True xml pos
      by (simp add: answered_def result_payload_def del: of_nat_add)
    with True cl xml show ?thesis by (simp add: send_result_def send_plist_def wp_rules)
  next
    case False
    have "wp (output_buffer_add_message E c tag MESSAGE_RESULT (le32 r))
        (\<lambda>res s'. after_queue E c (answered E tag r cl) s s' \<and> 0 < res) s"
      using queue [of tag MESSAGE_RESULT] False pos
      by (simp add: answered_def result_payload_def del: of_nat_add)
    with False cl show ?thesis by (simp add: send_result_def wp_rules)
  qed
qed

text \<open>
  The answer to a connect request is for a client that waits for it; it then talks to
  the device, or is back in the command state.
\<close>

definition notified :: "'p ext \<Rightarrow> usbmuxd_result \<Rightarrow> 'p mux_client \<Rightarrow> 'p mux_client" where
  "notified E result cl =
     (let cl' = answered E (cl_connect_tag cl) (result_num result) cl in
      if result = RESULT_OK
      then cl'\<lparr>cl_state := CLIENT_CONNECTING2, cl_events := POLLOUT, cl_ib_buf := None\<rparr>
      else cl'\<lparr>cl_state := CLIENT_COMMAND\<rparr>)"

lemma wp_client_notify_connect:
  assumes E: "replies_ok E" and cl: "clients s c = Some cl" and calm: "ob_calm cl"
    and st: "cl_state cl = CLIENT_CONNECTING1"
  shows "wp (client_notify_connect E c result) (\<lambda>res s'. after_queue E c (notified E result cl) s s' \<and> res = 0) s"
proof -
  have "wp (send_result E c (cl_connect_tag cl) (result_num result))
    (\<lambda>r. wp (if r < 0 then ret (-1) else do {
         (if result = RESULT_OK
          then up_client c (\<lambda>cl. cl\<lparr>cl_state := CLIENT_CONNECTING2, cl_events := POLLOUT, cl_ib_buf := None\<rparr>)
          else up_client c (\<lambda>cl. cl\<lparr>cl_state := CLIENT_COMMAND\<rparr>));
         ret 0 }) (\<lambda>res s'. after_queue E c (notified E result cl) s s' \<and> res = 0)) s"
  proof (rule wp_mono [OF wp_send_result [OF E cl calm]], goal_cases)
    case (1 r s')
    then have "\<not> r < 0" "clients s' c = Some (answered E (cl_connect_tag cl) (result_num result) cl)"
      by (auto dest: after_queueD(1))
    with 1 show ?case
      by (cases "result = RESULT_OK") (simp_all add: wp_rules notified_def Let_def after_queue_upd [OF conjunct1 [OF 1]])
  qed
  then show ?thesis
    using cl st by (simp add: client_notify_connect_def wp_rules)
qed

end
