(* ===== verification/Teardown.thy ===== *)
theory Teardown
  imports Mux_Send Client_IO
begin

text \<open>
  Finding devices and connections, and taking a connection down. In the C code
  \<^verbatim>\<open>connection_teardown\<close>, \<^verbatim>\<open>client_close\<close> and \<^verbatim>\<open>device_abort_connect\<close> call each other. The
  recursion ends at once: \<^verbatim>\<open>device_abort_connect\<close> sets the client of the connection to NULL
  before it calls \<^verbatim>\<open>connection_teardown\<close>, which then does not touch any client. So
  \<open>connection_teardown_orphan\<close> is the function on a connection without a client,
  \<open>client_close\<close> is built on it, and \<open>connection_teardown\<close> is built on \<open>client_close\<close>;
  that the three satisfy the equations of the C code is the lemma \<open>device_abort_connect_eq\<close>.
\<close>

section \<open>Looking up\<close>

definition get_mux_device_for_id :: "u32 \<Rightarrow> ('p, ptr option) mux" where
  "get_mux_device_for_id device_id = do {
     lock_devices;
     l \<leftarrow> gets device_list;
     dev \<leftarrow> find_m (\<lambda>d. do { D \<leftarrow> rd_dev d; ret (dev_id D = device_id) }) l;
     unlock_devices;
     ret dev
   }"

definition get_mux_connection :: "u32 \<Rightarrow> ptr \<Rightarrow> ('p, ptr option) mux" where
  "get_mux_connection device_id client = do {
     l \<leftarrow> gets device_list;
     dev \<leftarrow> find_m (\<lambda>d. do { D \<leftarrow> rd_dev d; ret (dev_id D = device_id) }) l;
     case dev of
       None \<Rightarrow> ret None
     | Some d \<Rightarrow> do {
         D \<leftarrow> rd_dev d;
         ks \<leftarrow> expect Uninitialised [] (dev_connections D);
         find_m (\<lambda>k. do { C \<leftarrow> rd_conn k; ret (conn_client C = Some client) }) ks
       }
   }"

section \<open>Taking a connection down\<close>

definition teardown_rst :: "'p ext \<Rightarrow> ptr \<Rightarrow> ('p, unit) mux" where
  "teardown_rst E k = do {
     C \<leftarrow> rd_conn k;
     D \<leftarrow> rd_dev (conn_dev C);
     whenM (dev_state D \<noteq> MUXDEV_DEAD \<and> conn_state C \<noteq> CONN_DYING \<and> conn_state C \<noteq> CONN_REFUSED)
       (do { send_tcp E k TH_RST []; skip })
   }"

definition teardown_free :: "'p ext \<Rightarrow> ptr \<Rightarrow> ('p, unit) mux" where
  "teardown_free E k = do {
     C \<leftarrow> rd_conn k;
     D \<leftarrow> rd_dev (conn_dev C);
     ks \<leftarrow> expect Uninitialised [] (dev_connections D);
     up_dev (conn_dev C) (\<lambda>D. D\<lparr>dev_connections := Some (collection_remove E ks k)\<rparr>);
     free_heap conns conns_update k
   }"

definition connection_teardown_orphan :: "'p ext \<Rightarrow> ptr \<Rightarrow> ('p, unit) mux" where
  "connection_teardown_orphan E k = do {
     C \<leftarrow> rd_conn k;
     if conn_state C = CONN_DEAD then skip
     else do { teardown_rst E k; teardown_free E k }
   }"

definition device_abort_connect :: "'p ext \<Rightarrow> u32 \<Rightarrow> ptr \<Rightarrow> ('p, unit) mux" where
  "device_abort_connect E device_id client = do {
     conn \<leftarrow> get_mux_connection device_id client;
     case conn of
       Some k \<Rightarrow> do {
         up_conn k (\<lambda>C. C\<lparr>conn_client := None\<rparr>);
         connection_teardown_orphan E k
       }
     | None \<Rightarrow> skip
   }"

definition client_close :: "'p ext \<Rightarrow> ptr \<Rightarrow> ('p, unit) mux" where
  "client_close E c = do {
     lock_clients;
     l \<leftarrow> gets client_list;
     if c \<notin> set l then unlock_clients
     else do {
       cl \<leftarrow> rd_client c;
       whenM (cl_state cl = CLIENT_CONNECTING1 \<or> cl_state cl = CLIENT_CONNECTING2) (do {
         up_client c (\<lambda>cl. cl\<lparr>cl_state := CLIENT_DEAD\<rparr>);
         device_abort_connect E (cl_connect_device cl) c
       });
       emit (SockClosed (cl_fd cl));
       modify (\<lambda>s. s\<lparr>client_list := collection_remove E (client_list s) c\<rparr>);
       unlock_clients;
       free_heap clients clients_update c
     }
   }"

text \<open>
  The flush of the in-buffer before the client is closed: it ends when all is written,
  on an error, or after a second without progress. The bound on the iterations is enough
  (\<open>wp_flush_loop\<close>); running out of it would be the fault \<open>Diverges\<close>.
\<close>

fun flush_loop :: "nat \<Rightarrow> 'p ext \<Rightarrow> ptr \<Rightarrow> ptr \<Rightarrow> u64 \<Rightarrow> ('p, unit) mux" where
  "flush_loop 0 E k c tm_last = raise_fault Diverges"
| "flush_loop (Suc n) E k c tm_last = do {
     C \<leftarrow> rd_conn k;
     sz \<leftarrow> client_write E c (conn_pending C);
     if sz < 0 then skip
     else if sz = 0 then do {
       tm_now \<leftarrow> sys_mstime64 E;
       if tm_now - tm_last > 1000 then skip
       else do { sys_usleep E 10000; flush_loop n E k c tm_last }
     }
     else do {
       up_conn k (conn_ib_drop (nat sz));
       if sz = sint (conn_ib_size C) then skip
       else do { now \<leftarrow> sys_mstime64 E; flush_loop n E k c now }
     }
   }"

definition flush_fuel :: "mux_connection \<Rightarrow> nat" where
  "flush_fuel C = 102 * unat (conn_ib_size C) + 102"

definition connection_teardown :: "'p ext \<Rightarrow> ptr \<Rightarrow> ('p, unit) mux" where
  "connection_teardown E k = do {
     C \<leftarrow> rd_conn k;
     if conn_state C = CONN_DEAD then skip
     else do {
       teardown_rst E k;
       C \<leftarrow> rd_conn k;
       (case conn_client C of
          None \<Rightarrow> skip
        | Some c \<Rightarrow>
            if conn_state C = CONN_REFUSED \<or> conn_state C = CONN_CONNECTING
            then do { client_notify_connect E c RESULT_CONNREFUSED; skip }
            else do {
              up_conn k (\<lambda>C. C\<lparr>conn_state := CONN_DEAD\<rparr>);
              whenM (has_flag (conn_events C) POLLOUT \<and> 0 < conn_ib_size C) (do {
                tm_last \<leftarrow> sys_mstime64 E;
                flush_loop (flush_fuel C) E k c tm_last
              });
              client_close E c
            });
       teardown_free E k
     }
   }"


section \<open>The flush ends\<close>

text \<open>The monotonic clock answers, and a call to the outside takes less than twenty minutes.\<close>

definition clock_ok :: "'p ext \<Rightarrow> bool" where
  "clock_ok E \<longleftrightarrow> (\<forall>t. \<not> os_clock_fails E t) \<and> (\<forall>t. os_elapse E t < 2 ^ 40)"

lemma now_ms_clock: "clock_ok E \<Longrightarrow> now_ms E s = of_nat (clock (ticked E s) div 10 ^ 6)"
  by (simp add: now_ms_def clock_ok_def mstime64_clock [unfolded mult_1])

lemma clock_ticked:
  assumes "clock_ok E"
  shows "clock s \<le> clock (ticked E s)" "clock (ticked E s) < clock s + 2 ^ 40"
  using assms by (simp_all add: ticked_def clock_ok_def)

text \<open>Milliseconds passed between two readings of the clock.\<close>

lemma ms_passed:
  assumes "b \<le> a" and "a < b + 2 ^ 60"
  shows "unat (of_nat (a div 10 ^ 6) - of_nat (b div 10 ^ 6) :: u64) = a div 10 ^ 6 - b div 10 ^ 6"
proof -
  have "(of_nat (a div 10 ^ 6) - of_nat (b div 10 ^ 6) :: u64) = of_nat (a div 10 ^ 6 - b div 10 ^ 6)"
    using div_le_mono [OF assms(1)] by (rule of_nat_diff [symmetric])
  moreover have "a div 10 ^ 6 - b div 10 ^ 6 < 2 ^ 64"
    using assms by simp
  ultimately show ?thesis by (simp add: unat_of_nat_small del: of_nat_diff)
qed

text \<open>What a flush does: it writes a prefix of the pending bytes, in order, and keeps the rest.\<close>

definition flushed :: "ptr \<Rightarrow> mux_connection \<Rightarrow> int \<Rightarrow> 'p daemon \<Rightarrow> 'p daemon \<Rightarrow> bool" where
  "flushed k C fd s s' \<longleftrightarrow> io_rest s s' \<and> devs s' = devs s \<and> clients s' = clients s \<and>
     (\<exists>C' chunks. conns s' = (conns s)(k \<mapsto> C') \<and>
        C' = C\<lparr>conn_ib_buf := conn_ib_buf C', conn_ib_size := conn_ib_size C'\<rparr> \<and> conn_ib_ok C' \<and>
        trace s' = trace s @ map (SockSent fd) chunks \<and> concat chunks @ conn_pending C' = conn_pending C)"

lemma flushed_none:
  assumes "conns s k = Some C" and "conn_ib_ok C" and "io_rest s s'" and "devs s' = devs s"
    and "clients s' = clients s" and "conns s' = conns s"
    and "trace s' = trace s @ map (SockSent fd) chunks" and "concat chunks = []"
  shows "flushed k C fd s s'"
  using assms unfolding flushed_def by (intro conjI exI [of _ C] exI [of _ chunks]) auto

lemma flushed_step:
  assumes s1: "io_rest s s1" "devs s1 = devs s" "clients s1 = clients s" "conns s1 = (conns s)(k \<mapsto> C1)"
    "C1 = C\<lparr>conn_ib_buf := conn_ib_buf C1, conn_ib_size := conn_ib_size C1\<rparr>"
    "trace s1 = trace s @ map (SockSent fd) chunks1" "concat chunks1 @ conn_pending C1 = conn_pending C"
    and "flushed k C1 fd s1 s2"
  shows "flushed k C fd s s2"
proof -
  from assms(8) obtain C2 chunks2 where *: "io_rest s1 s2" "devs s2 = devs s1" "clients s2 = clients s1"
    "conns s2 = (conns s1)(k \<mapsto> C2)"
    "C2 = C1\<lparr>conn_ib_buf := conn_ib_buf C2, conn_ib_size := conn_ib_size C2\<rparr>" "conn_ib_ok C2"
    "trace s2 = trace s1 @ map (SockSent fd) chunks2" "concat chunks2 @ conn_pending C2 = conn_pending C1"
    unfolding flushed_def by blast
  have "C2 = C\<lparr>conn_ib_buf := conn_ib_buf C2, conn_ib_size := conn_ib_size C2\<rparr>"
    by (subst *(5), subst s1(5)) simp
  moreover have "concat (chunks1 @ chunks2) @ conn_pending C2 = conn_pending C"
    using *(8) s1(7) by simp
  ultimately show ?thesis
    using * s1 io_rest_trans [OF s1(1) *(1)] unfolding flushed_def
    by (intro conjI exI [of _ C2] exI [of _ "chunks1 @ chunks2"]) simp_all
qed

lemma wp_client_write:
  assumes "clients s c = Some cl" and "sockets_ok E"
    and "\<And>s'. s' = s \<or> s' = ticked E s \<Longrightarrow> Q (-1) s'" and "Q 0 (ticked E s)"
    and "\<And>m. m \<le> length buf \<Longrightarrow> Q (int m) ((ticked E s)\<lparr>trace := trace s @ [SockSent (cl_fd cl) (take m buf)]\<rparr>)"
  shows "wp (client_write E c buf) Q s"
  using assms
  by (auto simp: client_write_def wp_rules sockets_ok_def split: sum.splits)

text \<open>
  Each round either stops, or writes at least a byte, or sleeps ten milliseconds; after
  \<open>j\<close> rounds without progress at least \<open>10 * j\<close> milliseconds have passed, so there are at
  most 101 of them in a row.
\<close>

lemma flush_idle_round:
  assumes E: "clock_ok E" and C: "conns s k = Some C" "conn_ib_ok C"
    and s1: "io_rest s s1" "devs s1 = devs s" "clients s1 = clients s" "conns s1 = conns s"
      "trace s1 = trace s @ map (SockSent fd) chunks" "concat chunks = []"
    and t: "t0 + 10 ^ 7 * j \<le> clock s1" "clock s1 < t0 + (j + 1) * 2 ^ 43 + 2 ^ 40" "j \<le> 101"
    and rest: "\<And>s3. clients s3 = clients s \<Longrightarrow> conns s3 = conns s \<Longrightarrow> j \<le> 100 \<Longrightarrow>
      t0 + 10 ^ 7 * (j + 1) \<le> clock s3 \<Longrightarrow> clock s3 < t0 + (j + 1 + 1) * 2 ^ 43 \<Longrightarrow>
      wp loop (\<lambda>_ s'. flushed k C fd s3 s') s3"
  shows "wp (do { tm_now \<leftarrow> sys_mstime64 E;
       if tm_now - of_nat (t0 div 10 ^ 6) > 1000 then skip else do { sys_usleep E 10000; loop } })
     (\<lambda>_ s'. flushed k C fd s s') s1"
proof -
  define s2 where "s2 = ticked E s1"
  define s3 where "s3 = (ticked E s2)\<lparr>clock := clock (ticked E s2) + 10000 * 1000\<rparr>"
  have t2: "clock s1 \<le> clock s2" "clock s2 < clock s1 + 2 ^ 40"
    using clock_ticked [OF E(1), of s1] by (simp_all add: s2_def)
  have t3: "clock s2 + 10 ^ 7 \<le> clock s3" "clock s3 < clock s2 + 10 ^ 7 + 2 ^ 40"
    using clock_ticked [OF E(1), of s2] by (simp_all add: s3_def)
  have stop: "flushed k C fd s s2"
    using s1 C by (intro flushed_none [of s k C s2 _ chunks]) (simp_all add: s2_def)
  have go: "wp loop (\<lambda>_ s'. flushed k C fd s s') s3"
    if slow: "\<not> 1000 < (of_nat (clock s2 div 10 ^ 6) - of_nat (t0 div 10 ^ 6) :: u64)"
  proof -
    have "(j + 1) * 2 ^ 43 \<le> 102 * 2 ^ 43" using t(3) by (intro mult_right_mono) simp_all
    then have b: "t0 \<le> clock s2" "clock s2 < t0 + 2 ^ 60"
      using t t2 by simp_all
    have "clock s2 div 10 ^ 6 - t0 div 10 ^ 6 \<le> 1000"
      using slow ms_passed [OF b] by (simp add: word_less_nat_alt not_less)
    moreover have "t0 div 10 ^ 6 + 10 * j \<le> clock s2 div 10 ^ 6" using t t2 by simp
    ultimately have "j \<le> 100" by linarith
    then have "wp loop (\<lambda>_ s'. flushed k C fd s3 s') s3"
      using s1 t t2 t3 by (intro rest) (simp_all add: s3_def s2_def)
    then show ?thesis
      by (rule wp_mono) (rule flushed_step [of s s3 k C C _ chunks], use s1 C in \<open>auto simp: s3_def s2_def\<close>)
  qed
  show ?thesis
    using stop go by (simp add: wp_rules now_ms_clock [OF E] s3_def flip: s2_def)
qed

lemma flush_write_round:
  assumes E: "clock_ok E" and C: "conns s k = Some C" "conn_ib_ok C" and m: "m \<le> length (conn_pending C)" "0 < m"
    and rest: "\<And>s2 C1 t0. clients s2 = clients s \<Longrightarrow> conns s2 = (conns s)(k \<mapsto> C1) \<Longrightarrow> conn_ib_ok C1 \<Longrightarrow>
      unat (conn_ib_size C1) < unat (conn_ib_size C) \<Longrightarrow> t0 = clock s2 \<Longrightarrow>
      wp (loop (of_nat (t0 div 10 ^ 6))) (\<lambda>_ s'. flushed k C1 fd s2 s') s2"
  shows "wp (do { up_conn k (conn_ib_drop m);
       if int m = sint (conn_ib_size C) then skip else do { now \<leftarrow> sys_mstime64 E; loop now } })
      (\<lambda>_ s'. flushed k C fd s s') ((ticked E s)\<lparr>trace := trace s @ [SockSent fd (take m (conn_pending C))]\<rparr>)"
proof -
  define C1 where "C1 = conn_ib_drop m C"
  define s1 where "s1 = (ticked E s)\<lparr>trace := trace s @ [SockSent fd (take m (conn_pending C))],
    conns := (conns s)(k \<mapsto> C1)\<rparr>"
  have C1: "conn_ib_ok C1" "conn_pending C1 = drop m (conn_pending C)"
    "C1 = C\<lparr>conn_ib_buf := conn_ib_buf C1, conn_ib_size := conn_ib_size C1\<rparr>"
    using conn_q.drop_ok [OF C(2) m(1)] conn_q.drop_content [OF C(2) m(1)]
    by (simp_all add: C1_def conn_ib_drop_def Let_def)
  have "length (conn_pending C1) = unat (conn_ib_size C1)" "length (conn_pending C) = unat (conn_ib_size C)"
    using C1(1) C(2) by (simp_all add: conn_pending_def conn_ib_ok_def)
  then have less: "unat (conn_ib_size C1) < unat (conn_ib_size C)" using C1(2) m by simp
  have lift: "flushed k C fd s s'" if "flushed k C1 fd s2 s'" "s2 = s1 \<or> s2 = ticked E s1" for s2 s'
    by (rule flushed_step [OF _ _ _ _ C1(3) _ _ that(1), where ?chunks1.0 = "[take m (conn_pending C)]"])
      (use that(2) C1(2) in \<open>auto simp: s1_def\<close>)
  have "flushed k C1 fd s1 s1"
    using C1(1) by (intro flushed_none [of s1 k C1 s1 fd "[]"]) (simp_all add: s1_def)
  from lift [OF this disjI1 [OF refl]] have stop: "flushed k C fd s s1" .
  have go: "wp (loop (of_nat (clock (ticked E s1) div 10 ^ 6))) (\<lambda>_ s'. flushed k C fd s s') (ticked E s1)"
    using lift by (intro wp_mono [OF rest [of "ticked E s1" C1 "clock (ticked E s1)"]])
      (simp_all add: s1_def C1(1) less)
  have "s\<lparr>conns := f\<rparr>\<lparr>trace := g\<rparr> = s\<lparr>trace := g, conns := f\<rparr>" for s :: "'a daemon" and f g by simp
  then show ?thesis
    using C stop go by (simp add: wp_rules now_ms_clock [OF E] s1_def flip: C1_def)
qed

lemma wp_flush_loop:
  assumes E: "sockets_ok E" "clock_ok E"
  shows "conns s k = Some C \<Longrightarrow> conn_ib_ok C \<Longrightarrow> clients s c = Some cl \<Longrightarrow>
    t0 + 10 ^ 7 * j \<le> clock s \<Longrightarrow> clock s < t0 + (j + 1) * 2 ^ 43 \<Longrightarrow> j \<le> 101 \<Longrightarrow>
    102 * unat (conn_ib_size C) + 102 \<le> n + j \<Longrightarrow>
    wp (flush_loop n E k c (of_nat (t0 div 10 ^ 6))) (\<lambda>_ s'. flushed k C (cl_fd cl) s s') s"
proof (induction n arbitrary: s C t0 j)
  case 0
  then show ?case by simp
next
  case (Suc n)
  note C = Suc.prems(1,2) and cl = Suc.prems(3)
  have t: "t0 + 10 ^ 7 * j \<le> clock (ticked E s)" "clock (ticked E s) < t0 + (j + 1) * 2 ^ 43 + 2 ^ 40"
    using Suc.prems(4,5) clock_ticked [OF E(2), of s] by linarith+
  have idle: "wp (flush_loop n E k c (of_nat (t0 div 10 ^ 6))) (\<lambda>_ s'. flushed k C (cl_fd cl) s3 s') s3"
    if "clients s3 = clients s" "conns s3 = conns s" "j \<le> 100" "t0 + 10 ^ 7 * (j + 1) \<le> clock s3"
      "clock s3 < t0 + (j + 1 + 1) * 2 ^ 43" for s3
    using that C cl Suc.prems(7) by (intro Suc.IH [of s3 C t0 "j + 1"]) simp_all
  have idle_round: "wp (do { tm_now \<leftarrow> sys_mstime64 E;
       if tm_now - of_nat (t0 div 10 ^ 6) > 1000 then skip
       else do { sys_usleep E 10000; flush_loop n E k c (of_nat (t0 div 10 ^ 6)) } })
     (\<lambda>_ s'. flushed k C (cl_fd cl) s s') s1"
    if "io_rest s s1" "devs s1 = devs s" "clients s1 = clients s" "conns s1 = conns s"
      "trace s1 = trace s @ map (SockSent (cl_fd cl)) chunks" "concat chunks = []" "clock s1 = clock (ticked E s)"
    for s1 chunks
    by (rule flush_idle_round [OF E(2) C that(1-6) _ _ Suc.prems(6) idle]) (simp_all only: that(7) t)
  have go: "wp (flush_loop n E k c (of_nat (t1 div 10 ^ 6))) (\<lambda>_ s'. flushed k C1 (cl_fd cl) s2 s') s2"
    if "clients s2 = clients s" "conns s2 = (conns s)(k \<mapsto> C1)" "conn_ib_ok C1"
      "unat (conn_ib_size C1) < unat (conn_ib_size C)" "t1 = clock s2" for s2 C1 t1
    using that cl Suc.prems(6,7) by (intro Suc.IH [of s2 C1 t1 0]) simp_all
  have stop: "flushed k C (cl_fd cl) s s'" if "s' = s \<or> s' = ticked E s" for s'
    using that C by (intro flushed_none [of s k C s' _ "[]"]) auto
  show ?case
    unfolding flush_loop.simps wp_bind wp_rd_heap [of conns, OF C(1)]
  proof (rule wp_client_write [OF cl E(1)], goal_cases)
    case (1 s')
    then show ?case using stop by (simp add: wp_rules)
  next
    case 2
    from idle_round [of "ticked E s" "[]"] show ?case by simp
  next
    case (3 m)
    show ?case
    proof (cases "m = 0")
      case True
      from idle_round [of "(ticked E s)\<lparr>trace := trace s @ [SockSent (cl_fd cl) []]\<rparr>" "[[]]"] True
      show ?thesis by simp
    next
      case False
      then have m: "0 < m" "\<not> int m < 0" "int m \<noteq> 0" by simp_all
      show ?thesis
        unfolding nat_int if_not_P [OF m(2)] if_not_P [OF m(3)]
        by (rule flush_write_round [OF E(2) C 3 m(1)]) (rule go)
    qed
  qed
qed

end
