(* ===== verification/Invariant.thy ===== *)
theory Invariant
  imports Teardown
begin

text \<open>
  The invariant of the daemon between two events. The lists of devices and clients hold
  exactly the live structs, so nothing leaks and nothing dangles; every live connection
  is in the list of its device and belongs to a client whose state matches its own;
  no two connections share a client, and none share a device and a source port.
\<close>

section \<open>Components\<close>

text \<open>Which states of a connection and of its client go together.\<close>

fun linked :: "mux_conn_state \<Rightarrow> client_state \<Rightarrow> bool" where
  "linked CONN_CONNECTING st \<longleftrightarrow> st = CLIENT_CONNECTING1"
| "linked CONN_REFUSED st \<longleftrightarrow> st = CLIENT_CONNECTING1"
| "linked CONN_CONNECTED st \<longleftrightarrow> st = CLIENT_CONNECTING2 \<or> st = CLIENT_CONNECTED"
| "linked CONN_DYING st \<longleftrightarrow> st = CLIENT_CONNECTING2 \<or> st = CLIENT_CONNECTED"
| "linked CONN_DEAD st \<longleftrightarrow> False"

fun busy :: "client_state \<Rightarrow> bool" where
  "busy CLIENT_CONNECTING1 = True"
| "busy CLIENT_CONNECTING2 = True"
| "busy CLIENT_CONNECTED = True"
| "busy _ = False"

lemma linked_busy: "linked st cst \<Longrightarrow> busy cst \<and> st \<noteq> CONN_DEAD \<and> cst \<noteq> CLIENT_DEAD"
  by (cases st) auto

definition conn_ok :: "mux_connection \<Rightarrow> bool" where
  "conn_ok C \<longleftrightarrow> conn_ib_ok C \<and> conn_max_payload C = MAX_PAYLOAD \<and>
     conn_ob_capacity C = CONN_OUTBUF_SIZE \<and> conn_sendable C \<le> MAX_PAYLOAD \<and> conn_sport C \<noteq> 0"

definition dev_ok :: "'p daemon \<Rightarrow> mux_device \<Rightarrow> bool" where
  "dev_ok s D \<longleftrightarrow> dev_sendable s D \<and> (dev_state D = MUXDEV_INIT \<longleftrightarrow> dev_connections D = None) \<and>
     unat (dev_pktlen D) \<le> length (dev_pktbuf D) \<and> length (dev_pktbuf D) \<le> unat DEV_MRU"

text \<open>
  A client that takes commands has its input buffer and is polled for input; one with
  replies pending is polled for output; one whose connect reply is on its way has it
  pending and is polled for nothing else.
\<close>

definition client_ok :: "'p mux_client \<Rightarrow> bool" where
  "client_ok cl \<longleftrightarrow> cl_state cl \<noteq> CLIENT_DEAD \<and>
     (cl_state cl \<noteq> CLIENT_CONNECTED \<longrightarrow>
        cl_ob_ok cl \<and> (cl_ob_size cl \<noteq> 0 \<longrightarrow> has_flag (cl_events cl) POLLOUT)) \<and>
     (cl_state cl \<in> {CLIENT_COMMAND, CLIENT_LISTEN, CLIENT_CONNECTING1} \<longrightarrow> has_flag (cl_events cl) POLLIN \<and>
        (\<exists>b. cl_ib_buf cl = Some b \<and> unat (cl_ib_size cl) \<le> length b \<and>
             length b \<le> unat CMD_BUF_SIZE \<and> cl_ib_capacity cl = CMD_BUF_SIZE)) \<and>
     (cl_state cl = CLIENT_CONNECTING2 \<longrightarrow> cl_events cl = POLLOUT \<and> cl_ob_size cl \<noteq> 0)"

section \<open>The tables of live structs\<close>

definition sessions_ok ::
    "(ptr \<rightharpoonup> mux_connection) \<Rightarrow> (ptr \<rightharpoonup> mux_device) \<Rightarrow> (ptr \<rightharpoonup> 'p mux_client) \<Rightarrow> bool" where
  "sessions_ok ct dt lt \<longleftrightarrow> (\<forall>k C. ct k = Some C \<longrightarrow> (\<exists>D ks c cl.
     dt (conn_dev C) = Some D \<and> dev_connections D = Some ks \<and> k \<in> set ks \<and>
     conn_client C = Some c \<and> lt c = Some cl \<and> linked (conn_state C) (cl_state cl) \<and>
     cl_connect_device cl = dev_id D))"

definition conn_lists_ok :: "(ptr \<rightharpoonup> mux_connection) \<Rightarrow> (ptr \<rightharpoonup> mux_device) \<Rightarrow> bool" where
  "conn_lists_ok ct dt \<longleftrightarrow> (\<forall>d D ks. dt d = Some D \<longrightarrow> dev_connections D = Some ks \<longrightarrow>
     distinct ks \<and> (\<forall>k\<in>set ks. \<exists>C. ct k = Some C \<and> conn_dev C = d))"

definition conns_distinct :: "(ptr \<rightharpoonup> mux_connection) \<Rightarrow> bool" where
  "conns_distinct ct \<longleftrightarrow> (\<forall>k k' C C'. ct k = Some C \<longrightarrow> ct k' = Some C' \<longrightarrow>
     conn_client C = conn_client C' \<or> conn_dev C = conn_dev C' \<and> conn_sport C = conn_sport C' \<longrightarrow> k = k')"

definition ids_distinct :: "(ptr \<rightharpoonup> mux_device) \<Rightarrow> bool" where
  "ids_distinct dt \<longleftrightarrow> (\<forall>d d' D D'. dt d = Some D \<longrightarrow> dt d' = Some D' \<longrightarrow> dev_id D = dev_id D' \<longrightarrow> d = d')"

definition busy_ok :: "(ptr \<rightharpoonup> mux_connection) \<Rightarrow> (ptr \<rightharpoonup> 'p mux_client) \<Rightarrow> bool" where
  "busy_ok ct lt \<longleftrightarrow> (\<forall>c cl. lt c = Some cl \<longrightarrow> busy (cl_state cl) \<longrightarrow>
     (\<exists>k C. ct k = Some C \<and> conn_client C = Some c))"

definition tables_ok ::
    "(ptr \<rightharpoonup> mux_connection) \<Rightarrow> (ptr \<rightharpoonup> mux_device) \<Rightarrow> (ptr \<rightharpoonup> 'p mux_client) \<Rightarrow> bool" where
  "tables_ok ct dt lt \<longleftrightarrow> (\<forall>k C. ct k = Some C \<longrightarrow> conn_ok C) \<and> sessions_ok ct dt lt \<and>
     conn_lists_ok ct dt \<and> conns_distinct ct \<and> ids_distinct dt \<and> busy_ok ct lt"

lemma tablesD_conn:
  assumes "tables_ok ct dt lt" and "ct k = Some C"
  obtains D ks c cl where "conn_ok C" "dt (conn_dev C) = Some D" "dev_connections D = Some ks" "k \<in> set ks"
    "distinct ks" "conn_client C = Some c" "lt c = Some cl" "linked (conn_state C) (cl_state cl)"
    "cl_connect_device cl = dev_id D"
proof -
  from assms have C: "conn_ok C" and ses: "sessions_ok ct dt lt" and lists: "conn_lists_ok ct dt"
    by (auto simp: tables_ok_def)
  from ses assms(2) obtain D ks c cl where *: "dt (conn_dev C) = Some D" "dev_connections D = Some ks"
    "k \<in> set ks" "conn_client C = Some c" "lt c = Some cl" "linked (conn_state C) (cl_state cl)"
    "cl_connect_device cl = dev_id D"
    unfolding sessions_ok_def by blast
  moreover from lists * have "distinct ks" unfolding conn_lists_ok_def by blast
  ultimately show ?thesis using that C by blast
qed

lemma tablesD_dev:
  assumes "tables_ok ct dt lt" and "dt d = Some D" and "dev_connections D = Some ks"
  shows "distinct ks" "k \<in> set ks \<Longrightarrow> \<exists>C. ct k = Some C \<and> conn_dev C = d"
  using assms unfolding tables_ok_def conn_lists_ok_def by blast+

lemma tablesD_client:
  assumes "tables_ok ct dt lt" and "ct k = Some C" and "ct k' = Some C'" and "conn_client C = conn_client C'"
  shows "k = k'"
  using assms unfolding tables_ok_def conns_distinct_def by blast

lemma tablesD_sport:
  assumes "tables_ok ct dt lt" and "ct k = Some C" and "ct k' = Some C'"
    and "conn_dev C = conn_dev C'" and "conn_sport C = conn_sport C'"
  shows "k = k'"
  using assms unfolding tables_ok_def conns_distinct_def by blast

lemma tablesD_id:
  assumes "tables_ok ct dt lt" and "dt d = Some D" and "dt d' = Some D'" and "dev_id D = dev_id D'"
  shows "d = d'"
  using assms unfolding tables_ok_def ids_distinct_def by blast

lemma tablesD_busy:
  assumes "tables_ok ct dt lt" and "lt c = Some cl" and "busy (cl_state cl)"
  obtains k C where "ct k = Some C" "conn_client C = Some c"
  using assms unfolding tables_ok_def busy_ok_def by blast

lemma session:
  assumes "tables_ok ct dt lt" and "ct k = Some C"
  shows "conn_ok C \<and> (\<exists>D ks c cl. dt (conn_dev C) = Some D \<and>
      dev_connections D = Some ks \<and> k \<in> set ks \<and> conn_client C = Some c \<and> lt c = Some cl \<and>
      linked (conn_state C) (cl_state cl) \<and> cl_connect_device cl = dev_id D)"
  using assms unfolding tables_ok_def sessions_ok_def by blast

lemma tablesI:
  assumes "\<And>k C. ct k = Some C \<Longrightarrow> conn_ok C \<and> (\<exists>D ks c cl. dt (conn_dev C) = Some D \<and>
      dev_connections D = Some ks \<and> k \<in> set ks \<and> conn_client C = Some c \<and> lt c = Some cl \<and>
      linked (conn_state C) (cl_state cl) \<and> cl_connect_device cl = dev_id D)"
    and "\<And>d D ks. dt d = Some D \<Longrightarrow> dev_connections D = Some ks \<Longrightarrow>
      distinct ks \<and> (\<forall>k\<in>set ks. \<exists>C. ct k = Some C \<and> conn_dev C = d)"
    and "\<And>k k' C C'. ct k = Some C \<Longrightarrow> ct k' = Some C' \<Longrightarrow>
      conn_client C = conn_client C' \<or> conn_dev C = conn_dev C' \<and> conn_sport C = conn_sport C' \<Longrightarrow> k = k'"
    and "\<And>d d' D D'. dt d = Some D \<Longrightarrow> dt d' = Some D' \<Longrightarrow> dev_id D = dev_id D' \<Longrightarrow> d = d'"
    and "\<And>c cl. lt c = Some cl \<Longrightarrow> busy (cl_state cl) \<Longrightarrow> \<exists>k C. ct k = Some C \<and> conn_client C = Some c"
  shows "tables_ok ct dt lt"
proof -
  have "(\<forall>k C. ct k = Some C \<longrightarrow> conn_ok C) \<and> sessions_ok ct dt lt"
    using assms(1) unfolding sessions_ok_def by blast
  moreover have "conn_lists_ok ct dt" using assms(2) unfolding conn_lists_ok_def by blast
  moreover have "conns_distinct ct" using assms(3) unfolding conns_distinct_def by blast
  moreover have "ids_distinct dt" using assms(4) unfolding ids_distinct_def by blast
  moreover have "busy_ok ct lt" using assms(5) unfolding busy_ok_def by blast
  ultimately show ?thesis by (simp add: tables_ok_def)
qed

text \<open>The tables after a connection has gone, and its client gone or free again.\<close>

lemma tables_drop:
  assumes ok: "tables_ok ct dt lt" and C: "ct k = Some C" and c: "conn_client C = Some c"
    and D: "dt (conn_dev C) = Some D" "dev_connections D = Some ks"
    and D': "dev_id D' = dev_id D" "dev_connections D' = Some ks'" "set ks' = set ks - {k}" "distinct ks'"
    and cl': "\<And>cl'. x = Some cl' \<Longrightarrow> \<not> busy (cl_state cl')"
  shows "tables_ok (ct(k := None)) (dt(conn_dev C \<mapsto> D')) (lt(c := x))"
proof (rule tablesI, goal_cases)
  case (1 k1 C1)
  then have k1: "ct k1 = Some C1" "k1 \<noteq> k" by (simp_all split: if_splits)
  then have nc: "conn_client C1 \<noteq> Some c" using tablesD_client [OF ok k1(1) C] c by auto
  obtain D1 ks1 c1 cl1 where s: "conn_ok C1" "dt (conn_dev C1) = Some D1" "dev_connections D1 = Some ks1"
    "k1 \<in> set ks1" "conn_client C1 = Some c1" "lt c1 = Some cl1" "linked (conn_state C1) (cl_state cl1)"
    "cl_connect_device cl1 = dev_id D1"
    using session [OF ok k1(1)] by blast
  have "\<exists>D2 ks2. (dt(conn_dev C \<mapsto> D')) (conn_dev C1) = Some D2 \<and> dev_connections D2 = Some ks2 \<and>
      k1 \<in> set ks2 \<and> dev_id D2 = dev_id D1"
    using s k1 D D' by (cases "conn_dev C1 = conn_dev C") auto
  moreover have "(lt(c := x)) c1 = Some cl1" using s nc by auto
  ultimately show ?case using s by metis
next
  case (2 d D1 ks1)
  show ?case
  proof (cases "d = conn_dev C")
    case True
    with 2 D' have "ks1 = ks'" by simp
    moreover have "\<exists>C1. (ct(k := None)) k1 = Some C1 \<and> conn_dev C1 = d" if "k1 \<in> set ks'" for k1
      using tablesD_dev(2) [OF ok D, of k1] that D'(3) True by auto
    ultimately show ?thesis using D'(4) by blast
  next
    case False
    with 2 have old: "dt d = Some D1" "dev_connections D1 = Some ks1" by simp_all
    have "\<exists>C1. (ct(k := None)) k1 = Some C1 \<and> conn_dev C1 = d" if "k1 \<in> set ks1" for k1
      using tablesD_dev(2) [OF ok old that] C False by auto
    with tablesD_dev(1) [OF ok old] show ?thesis by blast
  qed
next
  case (3 k1 k2 C1 C2)
  then have "ct k1 = Some C1" "ct k2 = Some C2" by (simp_all split: if_splits)
  with 3(3) show ?case using tablesD_client [OF ok] tablesD_sport [OF ok] by blast
next
  case (4 d1 d2 D1 D2)
  have old: "\<exists>D0. dt d0 = Some D0 \<and> dev_id D0 = dev_id D1" if "(dt(conn_dev C \<mapsto> D')) d0 = Some D1" for d0 D1
    using that D D' by (cases "d0 = conn_dev C") auto
  from old [OF 4(1)] old [OF 4(2)] 4(3) show ?case using tablesD_id [OF ok] by metis
next
  case (5 c1 cl1)
  then have c1: "c1 \<noteq> c" "lt c1 = Some cl1" using cl' by (auto split: if_splits)
  with 5 obtain k1 C1 where "ct k1 = Some C1" "conn_client C1 = Some c1"
    using tablesD_busy [OF ok] by blast
  with c1 C c show ?case by (intro exI [of _ k1] exI [of _ C1]) auto
qed

lemma tables_drop_client:
  assumes ok: "tables_ok ct dt lt" and cl: "lt c = Some cl" "\<not> busy (cl_state cl)"
  shows "tables_ok ct dt (lt(c := None))"
proof (rule tablesI, goal_cases)
  case (1 k C)
  obtain D ks c1 cl1 where *: "conn_ok C" "dt (conn_dev C) = Some D" "dev_connections D = Some ks" "k \<in> set ks"
      "conn_client C = Some c1" "lt c1 = Some cl1" "linked (conn_state C) (cl_state cl1)"
      "cl_connect_device cl1 = dev_id D"
    using session [OF ok 1] by blast
  then have "c1 \<noteq> c" using linked_busy [OF *(7)] cl by auto
  with * show ?case by auto
next
  case (2 d1 D1 ks)
  then show ?case using tablesD_dev [OF ok] by blast
next
  case (3 k1 k2 C1 C2)
  then show ?case using tablesD_client [OF ok] tablesD_sport [OF ok] by blast
next
  case (4 d1 d2 D1 D2)
  then show ?case using tablesD_id [OF ok] by blast
next
  case (5 c1 cl1)
  then have "lt c1 = Some cl1" by (simp split: if_splits)
  then show ?case using tablesD_busy [OF ok _ 5(2)] by blast
qed

text \<open>Changing one struct in place.\<close>

lemma tables_upd_conn:
  assumes ok: "tables_ok ct dt lt" and C: "ct k = Some C" and C': "conn_ok C'"
    and same: "conn_dev C' = conn_dev C" "conn_client C' = conn_client C" "conn_sport C' = conn_sport C"
    and st: "\<And>c cl. conn_client C = Some c \<Longrightarrow> lt c = Some cl \<Longrightarrow>
      linked (conn_state C) (cl_state cl) \<Longrightarrow> linked (conn_state C') (cl_state cl)"
  shows "tables_ok (ct(k \<mapsto> C')) dt lt"
proof (rule tablesI, goal_cases)
  case (1 k1 C1)
  show ?case
  proof (cases "k1 = k")
    case True
    with 1 have e: "C1 = C'" by simp
    show ?thesis unfolding e True same using session [OF ok C] C' st same by blast
  next
    case False
    with 1 show ?thesis using session [OF ok, of k1 C1] by simp
  qed
next
  case (2 d D ks)
  have "\<exists>C1. (ct(k \<mapsto> C')) k1 = Some C1 \<and> conn_dev C1 = d" if "k1 \<in> set ks" for k1
    using tablesD_dev(2) [OF ok 2 that] C same by (cases "k1 = k") auto
  with tablesD_dev(1) [OF ok 2] show ?case by blast
next
  case (3 k1 k2 C1 C2)
  have old: "\<exists>C0. ct k0 = Some C0 \<and> conn_client C0 = conn_client C1 \<and> conn_dev C0 = conn_dev C1 \<and>
      conn_sport C0 = conn_sport C1" if "(ct(k \<mapsto> C')) k0 = Some C1" for k0 C1
    using that C same by (cases "k0 = k") auto
  from old [OF 3(1)] old [OF 3(2)] 3(3) show ?case
    using tablesD_client [OF ok] tablesD_sport [OF ok] by metis
next
  case (4 d1 d2 D1 D2)
  then show ?case using tablesD_id [OF ok] by blast
next
  case (5 c cl)
  then obtain k1 C1 where "ct k1 = Some C1" "conn_client C1 = Some c"
    using tablesD_busy [OF ok] by blast
  then show ?case using C same by (cases "k1 = k") auto
qed

lemma tables_upd_dev:
  assumes ok: "tables_ok ct dt lt" and D: "dt d = Some D"
    and same: "dev_id D' = dev_id D" "dev_connections D' = dev_connections D"
  shows "tables_ok ct (dt(d \<mapsto> D')) lt"
proof (rule tablesI, goal_cases)
  case (1 k C)
  obtain D1 ks1 c1 cl1 where s: "conn_ok C" "dt (conn_dev C) = Some D1" "dev_connections D1 = Some ks1"
    "k \<in> set ks1" "conn_client C = Some c1" "lt c1 = Some cl1" "linked (conn_state C) (cl_state cl1)"
    "cl_connect_device cl1 = dev_id D1"
    using session [OF ok 1] by blast
  have "\<exists>D2. (dt(d \<mapsto> D')) (conn_dev C) = Some D2 \<and> dev_connections D2 = Some ks1 \<and> dev_id D2 = dev_id D1"
    using s D same by (cases "conn_dev C = d") auto
  with s show ?case by metis
next
  case (2 d1 D1 ks)
  then have "\<exists>D0. dt d1 = Some D0 \<and> dev_connections D0 = Some ks"
    using D same by (cases "d1 = d") auto
  then show ?case using tablesD_dev [OF ok] by blast
next
  case (3 k1 k2 C1 C2)
  then show ?case using tablesD_client [OF ok] tablesD_sport [OF ok] by blast
next
  case (4 d1 d2 D1 D2)
  have old: "\<exists>D0. dt d0 = Some D0 \<and> dev_id D0 = dev_id D1" if "(dt(d \<mapsto> D')) d0 = Some D1" for d0 D1
    using that D same by (cases "d0 = d") auto
  from old [OF 4(1)] old [OF 4(2)] 4(3) show ?case using tablesD_id [OF ok] by metis
next
  case (5 c cl)
  then show ?case using tablesD_busy [OF ok] by blast
qed

lemma tables_upd_client:
  assumes ok: "tables_ok ct dt lt" and cl: "lt c = Some cl"
    and same: "busy (cl_state cl) \<Longrightarrow> cl_connect_device cl' = cl_connect_device cl"
    and st: "cl_state cl' = cl_state cl \<or> \<not> busy (cl_state cl) \<and> \<not> busy (cl_state cl') \<or>
      cl_state cl = CLIENT_CONNECTING2 \<and> cl_state cl' = CLIENT_CONNECTED"
  shows "tables_ok ct dt (lt(c \<mapsto> cl'))"
proof (rule tablesI, goal_cases)
  case (1 k C)
  obtain D ks c1 cl1 where *: "conn_ok C" "dt (conn_dev C) = Some D" "dev_connections D = Some ks" "k \<in> set ks"
      "conn_client C = Some c1" "lt c1 = Some cl1" "linked (conn_state C) (cl_state cl1)"
      "cl_connect_device cl1 = dev_id D"
    using session [OF ok 1] by blast
  have "linked (conn_state C) (cl_state cl') \<and> cl_connect_device cl' = dev_id D" if "c1 = c"
  proof -
    from that *(6) cl have e: "cl1 = cl" by simp
    have b: "busy (cl_state cl)" using linked_busy [OF *(7)] e by blast
    have "linked (conn_state C) (cl_state cl')"
      using st b *(7) e by (cases "conn_state C") auto
    with same [OF b] *(8) e show ?thesis by simp
  qed
  then have "\<exists>cl2. (lt(c \<mapsto> cl')) c1 = Some cl2 \<and> linked (conn_state C) (cl_state cl2) \<and>
      cl_connect_device cl2 = dev_id D"
    using * cl by (cases "c1 = c") auto
  with * show ?case by blast
next
  case (2 d1 D1 ks)
  then show ?case using tablesD_dev [OF ok] by blast
next
  case (3 k1 k2 C1 C2)
  then show ?case using tablesD_client [OF ok] tablesD_sport [OF ok] by blast
next
  case (4 d1 d2 D1 D2)
  then show ?case using tablesD_id [OF ok] by blast
next
  case (5 c1 cl1)
  then have "\<exists>cl2. lt c1 = Some cl2 \<and> busy (cl_state cl2)"
    using cl st by (cases "c1 = c") auto
  then show ?case using tablesD_busy [OF ok] by blast
qed


text \<open>Changing both ends of a session, and opening one.\<close>

lemma tables_upd_session:
  assumes ok: "tables_ok ct dt lt" and C: "ct k = Some C" "conn_client C = Some c" "lt c = Some cl" and C': "conn_ok C'"
    and same: "conn_dev C' = conn_dev C" "conn_client C' = conn_client C" "conn_sport C' = conn_sport C"
    and cl': "cl_connect_device cl' = cl_connect_device cl" "linked (conn_state C') (cl_state cl')"
  shows "tables_ok (ct(k \<mapsto> C')) dt (lt(c \<mapsto> cl'))"
proof (rule tablesI, goal_cases)
  case (1 k1 C1)
  show ?case
  proof (cases "k1 = k")
    case True
    with 1 have e: "C1 = C'" by simp
    obtain D ks where "dt (conn_dev C) = Some D" "dev_connections D = Some ks" "k \<in> set ks" "cl_connect_device cl = dev_id D"
      using session [OF ok C(1)] C by auto
    then show ?thesis unfolding e True same using C' C(2) cl' by auto
  next
    case False
    with 1 have k1: "ct k1 = Some C1" by simp
    obtain D ks c1 cl1 where *: "conn_ok C1" "dt (conn_dev C1) = Some D" "dev_connections D = Some ks" "k1 \<in> set ks"
        "conn_client C1 = Some c1" "lt c1 = Some cl1" "linked (conn_state C1) (cl_state cl1)"
        "cl_connect_device cl1 = dev_id D"
      using session [OF ok k1] by blast
    have "c1 \<noteq> c" using tablesD_client [OF ok k1 C(1)] *(5) C(2) False by auto
    with * show ?thesis by auto
  qed
next
  case (2 d D ks)
  have "\<exists>C1. (ct(k \<mapsto> C')) k1 = Some C1 \<and> conn_dev C1 = d" if "k1 \<in> set ks" for k1
    using tablesD_dev(2) [OF ok 2 that] C same by (cases "k1 = k") auto
  with tablesD_dev(1) [OF ok 2] show ?case by blast
next
  case (3 k1 k2 C1 C2)
  have old: "\<exists>C0. ct k0 = Some C0 \<and> conn_client C0 = conn_client C1 \<and> conn_dev C0 = conn_dev C1 \<and>
      conn_sport C0 = conn_sport C1" if "(ct(k \<mapsto> C')) k0 = Some C1" for k0 C1
    using that C same by (cases "k0 = k") auto
  from old [OF 3(1)] old [OF 3(2)] 3(3) show ?case
    using tablesD_client [OF ok] tablesD_sport [OF ok] by metis
next
  case (4 d1 d2 D1 D2)
  then show ?case using tablesD_id [OF ok] by blast
next
  case (5 c1 cl1)
  show ?case
  proof (cases "c1 = c")
    case True
    then show ?thesis using C(2) same(2) by auto
  next
    case False
    with 5 obtain k1 C1 where "ct k1 = Some C1" "conn_client C1 = Some c1"
      using tablesD_busy [OF ok, of c1 cl1] by auto
    then show ?thesis using C(1) same(2) by (cases "k1 = k") auto
  qed
qed

lemma tables_new_session:
  assumes ok: "tables_ok ct dt lt" and fresh: "ct k = None" and cl: "lt c = Some cl" "\<not> busy (cl_state cl)"
    and D: "dt (conn_dev C) = Some D" "dev_connections D = Some ks"
    and D': "dev_id D' = dev_id D" "dev_connections D' = Some ks'" "set ks' = insert k (set ks)" "distinct ks'"
    and C: "conn_ok C" "conn_client C = Some c" and sport: "\<And>k1. k1 \<in> set ks \<Longrightarrow> conn_sport (the (ct k1)) \<noteq> conn_sport C"
    and cl': "cl_connect_device cl' = dev_id D" "linked (conn_state C) (cl_state cl')"
  shows "tables_ok (ct(k \<mapsto> C)) (dt(conn_dev C \<mapsto> D')) (lt(c \<mapsto> cl'))"
proof -
  have other: "conn_client C1 \<noteq> Some c" if "ct k1 = Some C1" for k1 C1
    using session [OF ok that] linked_busy cl by fastforce
  show ?thesis
  proof (rule tablesI, goal_cases)
    case (1 k1 C1)
    show ?case
    proof (cases "k1 = k")
      case True
      with 1 have "C1 = C" by simp
      then show ?thesis using True C D' cl' by auto
    next
      case False
      with 1 have k1: "ct k1 = Some C1" by simp
      obtain D1 ks1 c1 cl1 where *: "conn_ok C1" "dt (conn_dev C1) = Some D1" "dev_connections D1 = Some ks1" "k1 \<in> set ks1"
          "conn_client C1 = Some c1" "lt c1 = Some cl1" "linked (conn_state C1) (cl_state cl1)"
          "cl_connect_device cl1 = dev_id D1"
        using session [OF ok k1] by blast
      have "\<exists>D2 ks2. (dt(conn_dev C \<mapsto> D')) (conn_dev C1) = Some D2 \<and> dev_connections D2 = Some ks2 \<and>
          k1 \<in> set ks2 \<and> dev_id D2 = dev_id D1"
        using * D D' by (cases "conn_dev C1 = conn_dev C") auto
      moreover have "c1 \<noteq> c" using other [OF k1] *(5) by auto
      ultimately show ?thesis using * by auto
    qed
  next
    case (2 d D1 ks1)
    show ?case
    proof (cases "d = conn_dev C")
      case True
      with 2 D' have "ks1 = ks'" by simp
      moreover have "\<exists>C1. (ct(k \<mapsto> C)) k1 = Some C1 \<and> conn_dev C1 = d" if "k1 \<in> set ks'" for k1
        using that D' tablesD_dev(2) [OF ok D, of k1] True by (cases "k1 = k") auto
      ultimately show ?thesis using D' by simp
    next
      case False
      with 2 have d: "dt d = Some D1" by simp
      have "\<exists>C1. (ct(k \<mapsto> C)) k1 = Some C1 \<and> conn_dev C1 = d" if "k1 \<in> set ks1" for k1
        using tablesD_dev(2) [OF ok d 2(2) that] fresh by (cases "k1 = k") auto
      then show ?thesis using tablesD_dev(1) [OF ok d 2(2)] by blast
    qed
  next
    case (3 k1 k2 C1 C2)
    have new: "\<not> (conn_client C2 = conn_client C \<or> conn_dev C2 = conn_dev C \<and> conn_sport C2 = conn_sport C)"
      if "ct k2 = Some C2" for k2 C2
    proof -
      have "k2 \<in> set ks" if d: "conn_dev C2 = conn_dev C"
        using session [OF ok \<open>ct k2 = Some C2\<close>] D unfolding d by auto
      then show ?thesis using other [OF that] sport [of k2] that C(2) by auto
    qed
    show ?case
      using 3 new tablesD_client [OF ok] tablesD_sport [OF ok]
      by (cases "k1 = k"; cases "k2 = k") (auto split: if_splits; metis)+
  next
    case (4 d1 d2 D1 D2)
    have old: "\<exists>D0. dt d0 = Some D0 \<and> dev_id D0 = dev_id D1" if "(dt(conn_dev C \<mapsto> D')) d0 = Some D1" for d0 D1
      using that D D' by (cases "d0 = conn_dev C") auto
    from old [OF 4(1)] old [OF 4(2)] 4(3) show ?case using tablesD_id [OF ok] by metis
  next
    case (5 c1 cl1)
    show ?case
    proof (cases "c1 = c")
      case True
      then show ?thesis using C(2) by auto
    next
      case False
      with 5 obtain k1 C1 where "ct k1 = Some C1" "conn_client C1 = Some c1"
        using tablesD_busy [OF ok, of c1 cl1] by auto
      then show ?thesis using fresh by (intro exI [of _ k1] exI [of _ C1]) auto
    qed
  qed
qed

section \<open>The invariant\<close>

definition wf :: "'p daemon \<Rightarrow> bool" where
  "wf s \<longleftrightarrow> distinct (device_list s) \<and> distinct (client_list s) \<and>
     set (device_list s) = dom (devs s) \<and> set (client_list s) = dom (clients s) \<and>
     tables_ok (conns s) (devs s) (clients s) \<and>
     (\<forall>d D. devs s d = Some D \<longrightarrow> dev_ok s D) \<and> (\<forall>c cl. clients s c = Some cl \<longrightarrow> client_ok cl) \<and>
     (\<forall>p \<ge> next_ptr s. conns s p = None \<and> devs s p = None \<and> clients s p = None)"

lemma wfD:
  assumes "wf s"
  shows "distinct (device_list s)" "distinct (client_list s)"
    "set (device_list s) = dom (devs s)" "set (client_list s) = dom (clients s)"
    "tables_ok (conns s) (devs s) (clients s)"
    "devs s d = Some D \<Longrightarrow> dev_ok s D" "clients s c = Some cl \<Longrightarrow> client_ok cl"
    "next_ptr s \<le> p \<Longrightarrow> conns s p = None \<and> devs s p = None \<and> clients s p = None"
  using assms by (simp_all add: wf_def)

lemma dev_ok_io:
  assumes "dev_ok s D" and "udev_core s' = udev_core s"
  shows "dev_ok s' D" "dev_ok s' (seq_next D)"
  using assms dev_sendable_io [of s D s'] by (simp_all add: dev_ok_def seq_next_def)

text \<open>
  A transition to a state with sound tables keeps the invariant when it allocates nothing
  and the lists follow the stores.
\<close>

lemma wf_step:
  assumes wf: "wf s" and rest: "udev_core s' = udev_core s" "next_ptr s \<le> next_ptr s'"
    and tab: "tables_ok (conns s') (devs s') (clients s')"
    and dev: "device_list s' = device_list s" "dom (devs s') = dom (devs s)"
      "\<And>d D'. devs s' d = Some D' \<Longrightarrow> dev_ok s D'"
    and cl: "distinct (client_list s')" "set (client_list s') = dom (clients s')" "dom (clients s') \<subseteq> dom (clients s)"
      "\<And>c cl'. clients s' c = Some cl' \<Longrightarrow> client_ok cl'"
    and ct: "dom (conns s') \<subseteq> dom (conns s)"
  shows "wf s'"
proof -
  have "conns s' p = None \<and> devs s' p = None \<and> clients s' p = None" if "next_ptr s' \<le> p" for p
  proof -
    have "next_ptr s \<le> p" using that rest(2) by simp
    from wfD(8) [OF wf this] have "p \<notin> dom (conns s)" "p \<notin> dom (devs s)" "p \<notin> dom (clients s)"
      by (simp_all add: domIff)
    then have "p \<notin> dom (conns s')" "p \<notin> dom (devs s')" "p \<notin> dom (clients s')"
      using subsetD [OF ct, of p] subsetD [OF cl(3), of p] unfolding dev(2) by blast+
    then show ?thesis by (simp add: domIff)
  qed
  moreover have "dev_ok s' D'" if "devs s' d = Some D'" for d D'
    by (rule dev_ok_io(1) [OF dev(3) [OF that] rest(1)])
  moreover note tab cl(1,2,4) wfD(1) [OF wf, folded dev(1)] wfD(3) [OF wf, folded dev(1,2)]
  ultimately show ?thesis unfolding wf_def by (intro conjI allI impI) (assumption | blast)+
qed

text \<open>How a client finds its connection.\<close>

definition lookup_ok ::
    "(ptr \<rightharpoonup> mux_connection) \<Rightarrow> (ptr \<rightharpoonup> mux_device) \<Rightarrow> ptr list \<Rightarrow> u32 \<Rightarrow> ptr \<Rightarrow> ptr \<Rightarrow> bool" where
  "lookup_ok ct dt dl i c k \<longleftrightarrow>
     (\<exists>d D ks. d \<in> set dl \<and> dt d = Some D \<and> dev_id D = i \<and> dev_connections D = Some ks \<and> k \<in> set ks \<and>
        (\<forall>d'\<in>set dl. \<exists>D'. dt d' = Some D' \<and> (dev_id D' = i \<longrightarrow> d' = d)) \<and>
        (\<forall>k'\<in>set ks. \<exists>C'. ct k' = Some C' \<and> (conn_client C' = Some c \<longleftrightarrow> k' = k)))"

lemma find_unique:
  assumes "x \<in> set xs" and "P x" and "\<And>y. y \<in> set xs \<Longrightarrow> P y \<Longrightarrow> y = x"
  shows "find P xs = Some x"
proof (cases "find P xs")
  case None
  then show ?thesis using assms(1,2) by (auto simp: find_None_iff)
next
  case (Some y)
  then have "y \<in> set xs" "P y" by (auto simp: find_Some_iff)
  then show ?thesis using assms(3) Some by blast
qed

lemma wp_get_mux_connection [wp_rules]:
  assumes "lookup_ok (conns s) (devs s) (device_list s) i c k"
  shows "wp (get_mux_connection i c) Q s = Q (Some k) s"
proof -
  from assms obtain d D ks where d: "d \<in> set (device_list s)" "devs s d = Some D" "dev_id D = i"
      "dev_connections D = Some ks" "k \<in> set ks"
    and ds: "\<And>d'. d' \<in> set (device_list s) \<Longrightarrow> \<exists>D'. devs s d' = Some D' \<and> (dev_id D' = i \<longrightarrow> d' = d)"
    and ks: "\<And>k'. k' \<in> set ks \<Longrightarrow> \<exists>C'. conns s k' = Some C' \<and> (conn_client C' = Some c \<longleftrightarrow> k' = k)"
    unfolding lookup_ok_def by blast
  have p: "run_state (do { D \<leftarrow> rd_dev d'; ret (dev_id D = i) }) s = (dev_id (the (devs s d')) = i, s)"
    if "d' \<in> set (device_list s)" for d'
    using ds [OF that] by (auto simp: rd_heap_def)
  have q: "run_state (do { C \<leftarrow> rd_conn k'; ret (conn_client C = Some c) }) s =
      (conn_client (the (conns s k')) = Some c, s)" if "k' \<in> set ks" for k'
    using ks [OF that] by (auto simp: rd_heap_def)
  have "find (\<lambda>d'. dev_id (the (devs s d')) = i) (device_list s) = Some d"
  proof (rule find_unique [OF d(1)])
    show "dev_id (the (devs s d)) = i" using d by simp
    show "d' = d" if "d' \<in> set (device_list s)" "dev_id (the (devs s d')) = i" for d'
      using ds [OF that(1)] that(2) by auto
  qed
  moreover have "find (\<lambda>k'. conn_client (the (conns s k')) = Some c) ks = Some k"
  proof (rule find_unique [OF d(5)])
    show "conn_client (the (conns s k)) = Some c" using ks [OF d(5)] by auto
    show "k' = k" if "k' \<in> set ks" "conn_client (the (conns s k')) = Some c" for k'
      using ks [OF that(1)] that(2) by auto
  qed
  ultimately show ?thesis
    using d by (simp add: get_mux_connection_def wp_rules wp_find_m_pure [OF p] wp_find_m_pure [OF q])
qed

lemma wf_lookup:
  assumes wf: "wf s" and C: "conns s k = Some C" and c: "conn_client C = Some c" and cl: "clients s c = Some cl"
  shows "lookup_ok (conns s) (devs s) (device_list s) (cl_connect_device cl) c k"
proof -
  note tab = wfD(5) [OF wf]
  obtain D ks where D: "devs s (conn_dev C) = Some D" "dev_connections D = Some ks" "k \<in> set ks"
    "cl_connect_device cl = dev_id D"
    by (rule tablesD_conn [OF tab C]) (use c cl in auto)
  have ids: "d' = conn_dev C" if "devs s d' = Some D'" "dev_id D' = dev_id D" for d' D'
    using tablesD_id [OF tab that(1) D(1) that(2)] .
  have "\<exists>C'. conns s k' = Some C' \<and> (conn_client C' = Some c \<longleftrightarrow> k' = k)" if "k' \<in> set ks" for k'
    using tablesD_dev(2) [OF tab D(1,2) that] tablesD_client [OF tab _ C, of k'] C c by auto
  moreover have "\<exists>D'. devs s d' = Some D' \<and> (dev_id D' = cl_connect_device cl \<longrightarrow> d' = conn_dev C)"
    if "d' \<in> set (device_list s)" for d'
    using that ids [of d'] unfolding wfD(3) [OF wf] D(4) by blast
  moreover have "conn_dev C \<in> set (device_list s)" using D(1) wfD(3) [OF wf] by auto
  ultimately show ?thesis
    using D unfolding lookup_ok_def by (intro exI [of _ "conn_dev C"] exI [of _ D] exI [of _ ks]) simp
qed

text \<open>The lookup does not look at the state of the connection nor at sequence numbers.\<close>

lemma lookup_upd:
  assumes ok: "lookup_ok ct dt dl i c k" and C: "ct k = Some C" and C': "conn_client C' = conn_client C"
    and D: "dt d = Some D" and D': "dev_id D' = dev_id D" "dev_connections D' = dev_connections D"
  shows "lookup_ok (ct(k \<mapsto> C')) (dt(d \<mapsto> D')) dl i c k"
proof -
  from ok obtain d0 D0 ks where d: "d0 \<in> set dl" "dt d0 = Some D0" "dev_id D0 = i"
      "dev_connections D0 = Some ks" "k \<in> set ks"
    and ds: "\<And>d'. d' \<in> set dl \<Longrightarrow> \<exists>D'. dt d' = Some D' \<and> (dev_id D' = i \<longrightarrow> d' = d0)"
    and ks: "\<And>k'. k' \<in> set ks \<Longrightarrow> \<exists>C'. ct k' = Some C' \<and> (conn_client C' = Some c \<longleftrightarrow> k' = k)"
    unfolding lookup_ok_def by blast
  have "\<exists>D1. (dt(d \<mapsto> D')) d0 = Some D1 \<and> dev_id D1 = i \<and> dev_connections D1 = Some ks"
    using d D D' by (cases "d0 = d") auto
  moreover have "\<exists>D1. (dt(d \<mapsto> D')) d' = Some D1 \<and> (dev_id D1 = i \<longrightarrow> d' = d0)" if "d' \<in> set dl" for d'
    using ds [OF that] D D' by (cases "d' = d") auto
  moreover have "\<exists>C1. (ct(k \<mapsto> C')) k' = Some C1 \<and> (conn_client C1 = Some c \<longleftrightarrow> k' = k)" if "k' \<in> set ks" for k'
    using ks [OF that] ks [OF d(5)] C C' by (cases "k' = k") auto
  ultimately show ?thesis using d(1,5) unfolding lookup_ok_def by blast
qed

end
