(* ===== verification/Notify.thy ===== *)
theory Notify
  imports Teardown
begin

text \<open>
  The notifications that \<^verbatim>\<open>client.c\<close> sends to every listening client when a device comes,
  goes or is paired, and the start of the preflight worker (\<^verbatim>\<open>preflight.c\<close>) through
  which a new device becomes visible.
\<close>

section \<open>Messages\<close>

definition plist_set_all :: "'p ext \<Rightarrow> 'p \<Rightarrow> (string \<times> 'p) list \<Rightarrow> 'p" where
  "plist_set_all E = foldl (\<lambda>d (k, v). plist_dict_set_item E d k v)"

definition attached_props :: "'p ext \<Rightarrow> device_info \<Rightarrow> string \<Rightarrow> 'p" where
  "attached_props E dev serial = plist_set_all E (plist_new_dict E)
     [(''ConnectionSpeed'', plist_new_uint E (di_speed dev)),
      (''ConnectionType'', plist_new_string E ''USB''),
      (''DeviceID'', plist_new_uint E (ucast (di_id dev))),
      (''LocationID'', plist_new_uint E (ucast (di_location dev))),
      (''ProductID'', plist_new_uint E (ucast (di_pid dev))),
      (''SerialNumber'', plist_new_string E serial)]"

definition create_device_attached_plist :: "'p ext \<Rightarrow> device_info \<Rightarrow> ('p, 'p) mux" where
  "create_device_attached_plist E dev = do {
     serial \<leftarrow> expect NullDeref [] (di_serial dev);
     ret (plist_set_all E (plist_new_dict E)
       [(''MessageType'', plist_new_string E ''Attached''),
        (''DeviceID'', plist_new_uint E (ucast (di_id dev))),
        (''Properties'', attached_props E dev serial)])
   }"

definition device_msg_plist :: "'p ext \<Rightarrow> string \<Rightarrow> u32 \<Rightarrow> 'p" where
  "device_msg_plist E kind device_id = plist_set_all E (plist_new_dict E)
     [(''MessageType'', plist_new_string E kind), (''DeviceID'', plist_new_uint E (ucast device_id))]"

text \<open>\<^verbatim>\<open>strncpy(dst, src, 256); dst[255] = 0\<close> into a zeroed array.\<close>

definition cstr256 :: "string \<Rightarrow> bytes" where
  "cstr256 str = (let cs = take 255 (map of_char str) in cs @ replicate (256 - length cs) 0)"

definition device_add_record :: "device_info \<Rightarrow> string \<Rightarrow> usbmuxd_device_record" where
  "device_add_record dev serial =
     \<lparr>dr_device_id = di_id dev, dr_product_id = di_pid dev, dr_serial_number = cstr256 serial,
      dr_padding = 0, dr_location = di_location dev\<rparr>"

definition send_device_add :: "'p ext \<Rightarrow> ptr \<Rightarrow> device_info \<Rightarrow> ('p, int) mux" where
  "send_device_add E c dev = do {
     cl \<leftarrow> rd_client c;
     if cl_proto_version cl = 1 then do {
       dict \<leftarrow> create_device_attached_plist E dev;
       send_plist E c 0 dict
     } else do {
       serial \<leftarrow> expect NullDeref [] (di_serial dev);
       output_buffer_add_message E c 0 MESSAGE_DEVICE_ADD (enc_device_record (device_add_record dev serial))
     }
   }"

definition send_device_remove :: "'p ext \<Rightarrow> ptr \<Rightarrow> u32 \<Rightarrow> ('p, int) mux" where
  "send_device_remove E c device_id = do {
     cl \<leftarrow> rd_client c;
     if cl_proto_version cl = 1 then send_plist E c 0 (device_msg_plist E ''Detached'' device_id)
     else output_buffer_add_message E c 0 MESSAGE_DEVICE_REMOVE (le32 device_id)
   }"

definition send_device_paired :: "'p ext \<Rightarrow> ptr \<Rightarrow> u32 \<Rightarrow> ('p, int) mux" where
  "send_device_paired E c device_id = do {
     cl \<leftarrow> rd_client c;
     if cl_proto_version cl = 1 then send_plist E c 0 (device_msg_plist E ''Paired'' device_id)
     else output_buffer_add_message E c 0 MESSAGE_DEVICE_PAIRED (le32 device_id)
   }"

section \<open>Telling every listener\<close>

definition device_set_visible :: "u32 \<Rightarrow> ('p, unit) mux" where
  "device_set_visible device_id = do {
     lock_devices;
     l \<leftarrow> gets device_list;
     dev \<leftarrow> find_m (\<lambda>d. do { D \<leftarrow> rd_dev d; ret (dev_id D = device_id) }) l;
     (case dev of
        Some d \<Rightarrow> up_dev d (\<lambda>D. D\<lparr>dev_visible := True\<rparr>)
      | None \<Rightarrow> skip);
     unlock_devices
   }"

definition tell_listeners :: "(ptr \<Rightarrow> ('p, int) mux) \<Rightarrow> ('p, unit) mux" where
  "tell_listeners send = do {
     l \<leftarrow> gets client_list;
     foreach_m client_list (\<lambda>c. do {
       cl \<leftarrow> rd_client c;
       whenM (cl_state cl = CLIENT_LISTEN) (do { send c; skip })
     }) l
   }"

definition client_device_add :: "'p ext \<Rightarrow> device_info \<Rightarrow> ('p, unit) mux" where
  "client_device_add E dev = do {
     lock_clients;
     device_set_visible (di_id dev);
     tell_listeners (\<lambda>c. send_device_add E c dev);
     unlock_clients
   }"

definition client_device_remove :: "'p ext \<Rightarrow> u32 \<Rightarrow> ('p, unit) mux" where
  "client_device_remove E device_id = do {
     lock_clients;
     tell_listeners (\<lambda>c. send_device_remove E c device_id);
     unlock_clients
   }"

definition client_device_paired :: "'p ext \<Rightarrow> u32 \<Rightarrow> ('p, unit) mux" where
  "client_device_paired E device_id = do {
     lock_clients;
     tell_listeners (\<lambda>c. send_device_paired E c device_id);
     unlock_clients
   }"

section \<open>Starting preflight\<close>

definition PID_APPLE_T2_COPROCESSOR :: u16 where "PID_APPLE_T2_COPROCESSOR = 0x8600"

definition up_cbdata :: "ptr \<Rightarrow> (cb_data \<Rightarrow> cb_data) \<Rightarrow> ('p, unit) mux" where
  "up_cbdata p f = do {
     m \<leftarrow> gets misc;
     case cbdata m p of
       None \<Rightarrow> raise_fault UseAfterFree
     | Some cb \<Rightarrow> modify (\<lambda>s. s\<lparr>misc := (misc s)\<lparr>cbdata := (cbdata (misc s))(p \<mapsto> f cb)\<rparr>\<rparr>)
   }"

definition preflight_device_remove_cb :: "ptr option \<Rightarrow> ('p, unit) mux" where
  "preflight_device_remove_cb data = (case data of
       None \<Rightarrow> skip
     | Some p \<Rightarrow> up_cbdata p (\<lambda>cb. cb\<lparr>is_device_connected := False\<rparr>))"

text \<open>The worker is a thread of its own: it is started here and its effects are steps of their own.\<close>

definition preflight_worker_device_add :: "'p ext \<Rightarrow> device_info \<Rightarrow> ('p, unit) mux" where
  "preflight_worker_device_add E info = do {
     m \<leftarrow> gets misc;
     if di_pid info = PID_APPLE_T2_COPROCESSOR \<or> no_preflight m then client_device_add E info
     else do {
       t \<leftarrow> tick E;
       if os_thread_fails E t then client_device_add E info
       else modify (\<lambda>s. s\<lparr>misc := (misc s)\<lparr>workers := workers (misc s) @ [info]\<rparr>\<rparr>)
     }
   }"

end
