(* ===== verification/Device.thy ===== *)
theory Device
  imports Notify
begin

text \<open>
  The rest of \<^verbatim>\<open>device.c\<close>: choosing ports and identifiers, opening connections, moving
  data between clients and devices, the input from the device, and the life cycle of a
  device. Packets are the bytes that were received; reading beyond them is the fault
  \<open>Uninitialised\<close>, since the buffers behind them come from \<^verbatim>\<open>malloc\<close>.
\<close>

section \<open>Identifiers and ports\<close>

text \<open>
  Both searches step a counter until no element of the collection uses it. The bound on
  the iterations, one more than the collection has elements, is enough.
\<close>

fun id_loop :: "nat \<Rightarrow> ('p, u32) mux" where
  "id_loop 0 = do { raise_fault Diverges; ret 0 }"
| "id_loop (Suc n) = do {
     lock_devices;
     l \<leftarrow> gets device_list;
     i \<leftarrow> gets next_device_id;
     hit \<leftarrow> find_m (\<lambda>d. do { D \<leftarrow> rd_dev d; ret (dev_id D = i) }) l;
     modify (\<lambda>s. s\<lparr>next_device_id := i + 1\<rparr>);
     unlock_devices;
     (case hit of Some d \<Rightarrow> id_loop n | None \<Rightarrow> ret i)
   }"

definition get_next_device_id :: "('p, u32) mux" where
  "get_next_device_id = do {
     l \<leftarrow> gets device_list;
     id_loop (length l + 1)
   }"

fun sport_loop :: "nat \<Rightarrow> ptr \<Rightarrow> ('p, u16) mux" where
  "sport_loop 0 d = do { raise_fault Diverges; ret 0 }"
| "sport_loop (Suc n) d = do {
     D \<leftarrow> rd_dev d;
     ks \<leftarrow> expect Uninitialised [] (dev_connections D);
     hit \<leftarrow> find_m (\<lambda>k. do { C \<leftarrow> rd_conn k; ret (dev_next_sport D = conn_sport C) }) ks;
     up_dev d (\<lambda>D. D\<lparr>dev_next_sport := dev_next_sport D + 1\<rparr>);
     (case hit of Some k \<Rightarrow> sport_loop n d | None \<Rightarrow> ret (dev_next_sport D))
   }"

definition find_sport :: "ptr \<Rightarrow> ('p, u16) mux" where
  "find_sport d = do {
     D \<leftarrow> rd_dev d;
     ks \<leftarrow> expect Uninitialised [] (dev_connections D);
     if 65535 \<le> length ks then ret 0 else sport_loop (length ks + 1) d
   }"

section \<open>Opening a connection\<close>

definition new_connection :: "ptr \<Rightarrow> ptr \<Rightarrow> u16 \<Rightarrow> u16 \<Rightarrow> mux_connection" where
  "new_connection d c sport dport =
     conn_zero\<lparr>conn_dev := d, conn_client := Some c, conn_state := CONN_CONNECTING,
       conn_sport := sport, conn_dport := dport, conn_tx_seq := 0, conn_tx_ack := 0,
       conn_tx_acked := 0, conn_tx_win := 131072, conn_rx_recvd := 0, conn_flags := 0,
       conn_max_payload := MAX_PAYLOAD, conn_ob_capacity := CONN_OUTBUF_SIZE,
       conn_ib_capacity := CONN_INBUF_SIZE, conn_ib_size := 0\<rparr>"

definition device_start_connect :: "'p ext \<Rightarrow> u32 \<Rightarrow> u16 \<Rightarrow> ptr \<Rightarrow> ('p, int) mux" where
  "device_start_connect E device_id dport c = do {
     dev \<leftarrow> get_mux_device_for_id device_id;
     case dev of
       None \<Rightarrow> ret (- uint (result_num RESULT_BADDEV))
     | Some d \<Rightarrow> do {
         sport \<leftarrow> find_sport d;
         if sport = 0 then ret (- uint (result_num RESULT_BADDEV))
         else do {
           k \<leftarrow> new_heap conns_update (new_connection d c sport dport);
           res \<leftarrow> send_tcp E k TH_SYN [];
           if res < 0 then do {
             free_heap conns conns_update k;
             ret (- uint (result_num RESULT_CONNREFUSED))
           } else do {
             D \<leftarrow> rd_dev d;
             ks \<leftarrow> expect Uninitialised [] (dev_connections D);
             up_dev d (\<lambda>D. D\<lparr>dev_connections := Some (collection_add E ks k)\<rparr>);
             ret 0
           }
         }
       }
   }"

section \<open>Flow control\<close>

definition sendable_window :: "mux_connection \<Rightarrow> u32" where
  "sendable_window C =
     (let sent = conn_tx_seq C - conn_rx_ack C;
          w = (if conn_rx_win C > sent then conn_rx_win C - sent else 0);
          w = (if w > conn_ob_capacity C then conn_ob_capacity C else w)
      in if w > conn_max_payload C then conn_max_payload C else w)"

definition refreshed :: "mux_connection \<Rightarrow> mux_connection" where
  "refreshed C =
     (let w = sendable_window C;
          ev = (if w > 0 then conn_events C OR POLLIN else conn_events C AND NOT POLLIN);
          ev = (if conn_ib_size C \<noteq> 0 then ev OR POLLOUT else ev AND NOT POLLOUT)
      in C\<lparr>conn_sendable := w, conn_events := ev,
           conn_flags := (if conn_tx_acked C \<noteq> conn_tx_ack C then conn_flags C OR CONN_ACK_PENDING
                          else conn_flags C AND NOT CONN_ACK_PENDING)\<rparr>)"

definition update_connection :: "ptr \<Rightarrow> ('p, unit) mux" where
  "update_connection k = do {
     up_conn k refreshed;
     C \<leftarrow> rd_conn k;
     c \<leftarrow> deref (conn_client C);
     client_set_events c (conn_events C);
     skip
   }"

definition send_tcp_ack :: "'p ext \<Rightarrow> ptr \<Rightarrow> ('p, int) mux" where
  "send_tcp_ack E k = do {
     res \<leftarrow> send_tcp E k TH_ACK [];
     if res < 0 then do { connection_teardown E k; ret (-1) }
     else do { update_connection k; ret 0 }
   }"

section \<open>Between client and device\<close>

text \<open>The two halves of \<^verbatim>\<open>device_client_process\<close>: each tells whether the connection is still there.\<close>

definition process_out :: "'p ext \<Rightarrow> ptr \<Rightarrow> u16 \<Rightarrow> ('p, bool) mux" where
  "process_out E k events = do {
     C \<leftarrow> rd_conn k;
     if has_flag events POLLOUT \<and> 0 < conn_ib_size C then do {
       c \<leftarrow> deref (conn_client C);
       sz \<leftarrow> client_write E c (conn_pending C);
       if sz \<le> 0 then do { connection_teardown E k; ret False }
       else do {
         up_conn k (\<lambda>C. conn_ib_drop (nat sz) (C\<lparr>conn_tx_ack := conn_tx_ack C + word_of_int sz\<rparr>));
         ret True
       }
     } else ret True
   }"

definition process_in :: "'p ext \<Rightarrow> ptr \<Rightarrow> u16 \<Rightarrow> ('p, bool) mux" where
  "process_in E k events = do {
     C \<leftarrow> rd_conn k;
     if has_flag events POLLIN \<and> 0 < conn_sendable C then do {
       c \<leftarrow> deref (conn_client C);
       assert_m OutOfBounds (conn_sendable C \<le> conn_ob_capacity C);
       r \<leftarrow> client_read E c (conn_sendable C);
       case r of
         Inl e \<Rightarrow> do { connection_teardown E k; ret False }
       | Inr bs \<Rightarrow>
           if bs = [] then do { connection_teardown E k; ret False }
           else do {
             up_conn k (\<lambda>C. C\<lparr>conn_ob_buf := memcpy_at (conn_ob_buf C) 0 bs\<rparr>);
             res \<leftarrow> send_tcp E k TH_ACK bs;
             if res < 0 then do { connection_teardown E k; ret False }
             else do {
               up_conn k (\<lambda>C. C\<lparr>conn_tx_seq := conn_tx_seq C + of_nat (length bs)\<rparr>);
               ret True
             }
           }
     } else ret True
   }"

definition device_client_process :: "'p ext \<Rightarrow> u32 \<Rightarrow> ptr \<Rightarrow> u16 \<Rightarrow> ('p, unit) mux" where
  "device_client_process E device_id c events = do {
     lock_devices;
     conn \<leftarrow> get_mux_connection device_id c;
     unlock_devices;
     case conn of
       None \<Rightarrow> skip
     | Some k \<Rightarrow> do {
         alive \<leftarrow> process_out E k events;
         if \<not> alive then skip
         else do {
           alive \<leftarrow> process_in E k events;
           whenM alive (update_connection k)
         }
       }
   }"

definition connection_device_input :: "'p ext \<Rightarrow> ptr \<Rightarrow> bytes \<Rightarrow> ('p, unit) mux" where
  "connection_device_input E k payload = do {
     C \<leftarrow> rd_conn k;
     if conn_ib_size C + of_nat (length payload) > conn_ib_capacity C then connection_teardown E k
     else do {
       assert_m OutOfBounds (unat (conn_ib_size C) + length payload \<le> unat (conn_ib_capacity C));
       up_conn k (\<lambda>C. (conn_ib_put payload C)\<lparr>conn_rx_recvd := conn_rx_recvd C + of_nat (length payload)\<rparr>);
       update_connection k
     }
   }"

section \<open>Input from the device\<close>

definition device_info_of :: "mux_device \<Rightarrow> usb_device \<Rightarrow> device_info" where
  "device_info_of D u = \<lparr>di_id = dev_id D, di_serial = usb_get_serial u, di_location = usb_get_location u,
     di_pid = usb_get_pid u, di_speed = usb_get_speed u\<rparr>"

definition device_version_input :: "'p ext \<Rightarrow> ptr \<Rightarrow> u32 \<Rightarrow> ('p, unit) mux" where
  "device_version_input E d major = do {
     D \<leftarrow> rd_dev d;
     if dev_state D \<noteq> MUXDEV_INIT then skip
     else if major \<noteq> 2 \<and> major \<noteq> 1 then do {
       lock_devices;
       modify (\<lambda>s. s\<lparr>device_list := collection_remove E (device_list s) d\<rparr>);
       unlock_devices;
       free_heap devs devs_update d
     } else do {
       up_dev d (\<lambda>D. D\<lparr>dev_version := major\<rparr>);
       whenM (2 \<le> major) (do { send_packet E d MUX_PROTO_SETUP [] [7]; skip });
       up_dev d (\<lambda>D. D\<lparr>dev_state := MUXDEV_ACTIVE, dev_connections := Some []\<rparr>);
       D \<leftarrow> rd_dev d;
       u \<leftarrow> rd_udev (dev_usbdev D);
       preflight_worker_device_add E (device_info_of D u)
     }
   }"

text \<open>
  A control packet is only logged. \<open>payload\<close> are the bytes received behind offset 16;
  \<^verbatim>\<open>%.*s\<close> reads up to the given number of bytes, all up to a NUL if the number is
  negative as an \<^verbatim>\<open>int\<close>.
\<close>

definition log_text_ok :: "bytes \<Rightarrow> u32 \<Rightarrow> bool" where
  "log_text_ok text n \<longleftrightarrow> 0 \<in> set text \<or> 0 \<le> sint n \<and> sint n \<le> int (length text)"

definition device_control_input :: "ptr \<Rightarrow> bytes \<Rightarrow> u32 \<Rightarrow> ('p, unit) mux" where
  "device_control_input d payload payload_length =
     (if payload_length > 0 then do {
        D \<leftarrow> rd_dev d;
        assert_m Uninitialised (payload \<noteq> []);
        whenM (payload_length > 1 \<or> hd payload \<notin> {3, 5, 7})
          (assert_m Uninitialised (log_text_ok (drop 1 payload) (payload_length - 1)))
      } else skip)"

definition tcp_connecting :: "'p ext \<Rightarrow> ptr \<Rightarrow> tcphdr \<Rightarrow> ('p, unit) mux" where
  "tcp_connecting E k th =
     (if th_flags th \<noteq> (TH_SYN OR TH_ACK) then do {
        whenM (has_flag (th_flags th) TH_RST) (up_conn k (\<lambda>C. C\<lparr>conn_state := CONN_REFUSED\<rparr>));
        connection_teardown E k
      } else do {
        up_conn k (\<lambda>C. C\<lparr>conn_tx_seq := conn_tx_seq C + 1, conn_tx_ack := conn_tx_ack C + 1,
          conn_rx_recvd := conn_rx_seq C\<rparr>);
        res \<leftarrow> send_tcp E k TH_ACK [];
        if res < 0 then connection_teardown E k
        else do {
          up_conn k (\<lambda>C. C\<lparr>conn_state := CONN_CONNECTED\<rparr>);
          C \<leftarrow> rd_conn k;
          c \<leftarrow> deref (conn_client C);
          r \<leftarrow> client_notify_connect E c RESULT_OK;
          whenM (r < 0) (do {
            up_conn k (\<lambda>C. C\<lparr>conn_client := None\<rparr>);
            connection_teardown E k
          });
          update_connection k
        }
      })"

definition tcp_connected :: "'p ext \<Rightarrow> ptr \<Rightarrow> tcphdr \<Rightarrow> bytes \<Rightarrow> ('p, unit) mux" where
  "tcp_connected E k th payload =
     (if th_flags th \<noteq> TH_ACK then do {
        whenM (has_flag (th_flags th) TH_RST) (up_conn k (\<lambda>C. C\<lparr>conn_state := CONN_DYING\<rparr>));
        connection_teardown E k
      } else do {
        connection_device_input E k payload;
        send_tcp_ack E k;
        skip
      })"

definition device_tcp_input :: "'p ext \<Rightarrow> ptr \<Rightarrow> tcphdr \<Rightarrow> bytes \<Rightarrow> ('p, unit) mux" where
  "device_tcp_input E d th payload = do {
     D \<leftarrow> rd_dev d;
     if dev_state D \<noteq> MUXDEV_ACTIVE then skip
     else do {
       ks \<leftarrow> expect Uninitialised [] (dev_connections D);
       conn \<leftarrow> find_m (\<lambda>k. do { C \<leftarrow> rd_conn k;
          ret (conn_sport C = th_dport th \<and> conn_dport C = th_sport th) }) ks;
       case conn of
         None \<Rightarrow> whenM (\<not> has_flag (th_flags th) TH_RST)
           (do { send_anon_rst E d (th_dport th) (th_sport th) (th_seq th); skip })
       | Some k \<Rightarrow> do {
           up_conn k (\<lambda>C. C\<lparr>conn_rx_seq := th_seq th, conn_rx_ack := th_ack th,
             conn_rx_win := push_bit 8 (ucast (th_win th))\<rparr>);
           C \<leftarrow> rd_conn k;
           case conn_state C of
             CONN_CONNECTING \<Rightarrow> tcp_connecting E k th
           | CONN_CONNECTED \<Rightarrow> tcp_connected E k th payload
           | _ \<Rightarrow> skip
         }
     }
   }"

text \<open>
  Reassembly of a packet that USB delivers in pieces of \<^verbatim>\<open>USB_MRU\<close> bytes: the new state of
  the device, and the packet if it is complete.
\<close>

definition mux_length :: "bytes \<Rightarrow> ('p, u32) mux" where
  "mux_length buf = expect Uninitialised 0 (rd_be32 buf 4)"

definition gather :: "ptr \<Rightarrow> bytes \<Rightarrow> ('p, bytes option) mux" where
  "gather d buffer = do {
     D \<leftarrow> rd_dev d;
     let len = of_nat (length buffer);
     if dev_pktlen D \<noteq> 0 then
       if len + dev_pktlen D > DEV_MRU then do {
         up_dev d (\<lambda>D. D\<lparr>dev_pktlen := 0\<rparr>);
         ret None
       } else do {
         up_dev d (\<lambda>D. D\<lparr>dev_pktbuf := memcpy_at (dev_pktbuf D) (unat (dev_pktlen D)) buffer\<rparr>);
         D \<leftarrow> rd_dev d;
         expected \<leftarrow> mux_length (dev_pktbuf D);
         if len < USB_MRU \<or> expected = len + dev_pktlen D then do {
           up_dev d (\<lambda>D. D\<lparr>dev_pktlen := 0\<rparr>);
           ret (Some (take (unat (len + dev_pktlen D)) (dev_pktbuf D)))
         } else do {
           up_dev d (\<lambda>D. D\<lparr>dev_pktlen := dev_pktlen D + len\<rparr>);
           ret None
         }
       }
     else if len = USB_MRU then do {
       expected \<leftarrow> mux_length buffer;
       if len < expected then do {
         up_dev d (\<lambda>D. D\<lparr>dev_pktbuf := memcpy_at (dev_pktbuf D) 0 buffer, dev_pktlen := len\<rparr>);
         ret None
       } else ret (Some buffer)
     } else ret (Some buffer)
   }"

definition dispatch_packet :: "'p ext \<Rightarrow> ptr \<Rightarrow> bytes \<Rightarrow> ('p, unit) mux" where
  "dispatch_packet E d buf = do {
     D \<leftarrow> rd_dev d;
     expected \<leftarrow> mux_length buf;
     if expected \<noteq> of_nat (length buf) then skip
     else do {
       whenM (2 \<le> dev_version D) (do {
         rx \<leftarrow> expect Uninitialised 0 (rd_be16 buf 14);
         up_dev d (\<lambda>D. D\<lparr>dev_rx_seq := Some rx\<rparr>)
       });
       proto \<leftarrow> expect Uninitialised 0 (rd_be32 buf 0);
       let hs = mux_header_size D;
       if proto = proto_num MUX_PROTO_VERSION then
         if length buf < hs + 12 then skip
         else do {
           major \<leftarrow> expect Uninitialised 0 (rd_be32 buf hs);
           device_version_input E d major
         }
       else if proto = proto_num MUX_PROTO_CONTROL then
         device_control_input d (drop 16 buf) (of_nat (length buf) - of_nat hs)
       else if proto = proto_num MUX_PROTO_TCP then
         if length buf < hs + 20 then skip
         else do {
           th \<leftarrow> expect Uninitialised tcphdr_zero (dec_tcphdr buf hs);
           device_tcp_input E d th (drop (hs + 20) buf)
         }
       else skip
     }
   }"

definition device_data_input :: "'p ext \<Rightarrow> ptr \<Rightarrow> bytes \<Rightarrow> ('p, unit) mux" where
  "device_data_input E usbdev buffer = do {
     lock_devices;
     l \<leftarrow> gets device_list;
     dev \<leftarrow> find_m (\<lambda>d. do { D \<leftarrow> rd_dev d; ret (dev_usbdev D = usbdev) }) l;
     unlock_devices;
     case dev of
       None \<Rightarrow> do { u \<leftarrow> rd_udev usbdev; skip }
     | Some d \<Rightarrow>
         if buffer = [] then skip
         else if length buffer > unat USB_MRU \<or> length buffer > unat DEV_MRU then skip
         else do {
           pkt \<leftarrow> gather d buffer;
           case pkt of
             None \<Rightarrow> skip
           | Some buf \<Rightarrow> dispatch_packet E d buf
         }
   }"


section \<open>Life cycle\<close>

definition new_device :: "u32 \<Rightarrow> ptr \<Rightarrow> mux_device" where
  "new_device i usbdev =
     dev_zero\<lparr>dev_id := i, dev_usbdev := usbdev, dev_state := MUXDEV_INIT, dev_visible := False,
       dev_next_sport := 1, dev_pktlen := 0, dev_preflight_cb_data := None, dev_version := 0\<rparr>"

definition device_add :: "'p ext \<Rightarrow> ptr \<Rightarrow> ('p, int) mux" where
  "device_add E usbdev = do {
     i \<leftarrow> get_next_device_id;
     u \<leftarrow> rd_udev usbdev;
     d \<leftarrow> new_heap devs_update (new_device i usbdev);
     res \<leftarrow> send_packet E d MUX_PROTO_VERSION
       (enc_version_header \<lparr>vh_major = 2, vh_minor = 0, vh_padding = 0\<rparr>) [];
     if res < 0 then do { free_heap devs devs_update d; ret res }
     else do {
       lock_devices;
       modify (\<lambda>s. s\<lparr>device_list := collection_add E (device_list s) d\<rparr>);
       unlock_devices;
       ret 0
     }
   }"

definition conns_of :: "ptr \<Rightarrow> 'p daemon \<Rightarrow> ptr list" where
  "conns_of d s = (case devs s d of
       None \<Rightarrow> []
     | Some D \<Rightarrow> (case dev_connections D of None \<Rightarrow> [] | Some ks \<Rightarrow> ks))"

definition teardown_all :: "'p ext \<Rightarrow> ptr \<Rightarrow> ('p, unit) mux" where
  "teardown_all E d = do {
     D \<leftarrow> rd_dev d;
     ks \<leftarrow> expect Uninitialised [] (dev_connections D);
     foreach_m (conns_of d) (connection_teardown E) ks
   }"

definition device_remove :: "'p ext \<Rightarrow> ptr \<Rightarrow> ('p, unit) mux" where
  "device_remove E usbdev = do {
     lock_devices;
     l \<leftarrow> gets device_list;
     dev \<leftarrow> find_m (\<lambda>d. do { D \<leftarrow> rd_dev d; ret (dev_usbdev D = usbdev) }) l;
     case dev of
       None \<Rightarrow> do { unlock_devices; u \<leftarrow> rd_udev usbdev; skip }
     | Some d \<Rightarrow> do {
         u \<leftarrow> rd_udev usbdev;
         D \<leftarrow> rd_dev d;
         whenM (dev_state D = MUXDEV_ACTIVE) (do {
           up_dev d (\<lambda>D. D\<lparr>dev_state := MUXDEV_DEAD\<rparr>);
           teardown_all E d;
           client_device_remove E (dev_id D)
         });
         preflight_device_remove_cb (dev_preflight_cb_data D);
         modify (\<lambda>s. s\<lparr>device_list := collection_remove E (device_list s) d\<rparr>);
         unlock_devices;
         free_heap devs devs_update d
       }
   }"

definition device_set_preflight_cb_data :: "u32 \<Rightarrow> ptr option \<Rightarrow> ('p, unit) mux" where
  "device_set_preflight_cb_data device_id data = do {
     lock_devices;
     l \<leftarrow> gets device_list;
     dev \<leftarrow> find_m (\<lambda>d. do { D \<leftarrow> rd_dev d; ret (dev_id D = device_id) }) l;
     (case dev of
        Some d \<Rightarrow> up_dev d (\<lambda>D. D\<lparr>dev_preflight_cb_data := data\<rparr>)
      | None \<Rightarrow> skip);
     unlock_devices
   }"

definition listed :: "bool \<Rightarrow> mux_device \<Rightarrow> bool" where
  "listed include_hidden D \<longleftrightarrow> dev_state D = MUXDEV_ACTIVE \<and> (include_hidden \<or> dev_visible D)"

definition device_get_count :: "bool \<Rightarrow> ('p, nat) mux" where
  "device_get_count include_hidden = do {
     lock_devices;
     l \<leftarrow> gets device_list;
     unlock_devices;
     fold_m (\<lambda>n d. do { D \<leftarrow> rd_dev d; ret (if listed include_hidden D then n + 1 else n) }) 0 l
   }"

definition device_get_list :: "bool \<Rightarrow> ('p, device_info list) mux" where
  "device_get_list include_hidden = do {
     lock_devices;
     l \<leftarrow> gets device_list;
     unlock_devices;
     fold_m (\<lambda>is d. do {
       D \<leftarrow> rd_dev d;
       if listed include_hidden D then do {
         u \<leftarrow> rd_udev (dev_usbdev D);
         ret (is @ [device_info_of D u])
       } else ret is
     }) [] l
   }"

section \<open>Delayed acknowledgements\<close>

definition ack_due :: "mux_connection \<Rightarrow> bool" where
  "ack_due C \<longleftrightarrow> conn_state C = CONN_CONNECTED \<and> has_flag (conn_flags C) CONN_ACK_PENDING"

definition older :: "u64 \<Rightarrow> mux_connection \<Rightarrow> u64" where
  "older oldest C = (if ack_due C \<and> conn_last_ack_time C < oldest then conn_last_ack_time C else oldest)"

definition oldest_ack :: "('p, u64) mux" where
  "oldest_ack = do {
     l \<leftarrow> gets device_list;
     fold_m (\<lambda>oldest d. do {
       D \<leftarrow> rd_dev d;
       if dev_state D = MUXDEV_ACTIVE then do {
         ks \<leftarrow> expect Uninitialised [] (dev_connections D);
         fold_m (\<lambda>oldest k. do { C \<leftarrow> rd_conn k; ret (older oldest C) }) oldest ks
       } else ret oldest
     }) (-1) l
   }"

definition device_get_timeout :: "'p ext \<Rightarrow> ('p, int) mux" where
  "device_get_timeout E = do {
     lock_devices;
     oldest \<leftarrow> oldest_ack;
     unlock_devices;
     ct \<leftarrow> sys_mstime64 E;
     ret (if oldest = -1 then 100000
          else if ct - oldest > ACK_TIMEOUT then 0
          else uint (ACK_TIMEOUT - (ct - oldest)))
   }"

definition check_conn :: "'p ext \<Rightarrow> u64 \<Rightarrow> ptr \<Rightarrow> ('p, unit) mux" where
  "check_conn E ct k = do {
     C \<leftarrow> rd_conn k;
     whenM (ack_due C \<and> ct - conn_last_ack_time C > ACK_TIMEOUT) (do { send_tcp_ack E k; skip })
   }"

definition device_check_timeouts :: "'p ext \<Rightarrow> ('p, unit) mux" where
  "device_check_timeouts E = do {
     ct \<leftarrow> sys_mstime64 E;
     lock_devices;
     l \<leftarrow> gets device_list;
     foreach_m device_list (\<lambda>d. do {
       D \<leftarrow> rd_dev d;
       whenM (dev_state D = MUXDEV_ACTIVE) (do {
         ks \<leftarrow> expect Uninitialised [] (dev_connections D);
         foreach_m (conns_of d) (check_conn E ct) ks
       })
     }) l;
     unlock_devices
   }"

section \<open>Start and stop\<close>

definition device_init :: "('p, unit) mux" where
  "device_init = modify (\<lambda>s. s\<lparr>device_list := [], device_list_mutex := False, next_device_id := 1\<rparr>)"

text \<open>\<open>usb_process_timeout\<close> is the function of \<^verbatim>\<open>usb.c\<close> that is called at the end.\<close>

definition device_kill_connections :: "'p ext \<Rightarrow> (int \<Rightarrow> ('p, int) mux) \<Rightarrow> ('p, unit) mux" where
  "device_kill_connections E usb_process_timeout = do {
     l \<leftarrow> gets device_list;
     foreach_m device_list (\<lambda>d. do {
       D \<leftarrow> rd_dev d;
       whenM (dev_state D \<noteq> MUXDEV_INIT) (teardown_all E d)
     }) l;
     usb_process_timeout 100;
     skip
   }"

definition device_shutdown :: "'p ext \<Rightarrow> ('p, unit) mux" where
  "device_shutdown E = do {
     lock_devices;
     l \<leftarrow> gets device_list;
     foreach_m device_list (\<lambda>d. do {
       teardown_all E d;
       modify (\<lambda>s. s\<lparr>device_list := collection_remove E (device_list s) d\<rparr>);
       free_heap devs devs_update d
     }) l;
     unlock_devices;
     modify (\<lambda>s. s\<lparr>device_list := []\<rparr>)
   }"

end
