(* ===== verification/Teardown_Inv.thy ===== *)
theory Teardown_Inv
  imports Invariant Device
begin

text \<open>
  Closing a client and taking a connection down keep the invariant and commit no memory
  error, in every state of the connection and with every answer of the outside world.
\<close>

section \<open>The parts\<close>

lemma conn_acked_simps [simp]:
  "conn_dev (conn_acked now C) = conn_dev C" "conn_client (conn_acked now C) = conn_client C"
  "conn_state (conn_acked now C) = conn_state C" "conn_sport (conn_acked now C) = conn_sport C"
  "conn_dport (conn_acked now C) = conn_dport C" "conn_ib_size (conn_acked now C) = conn_ib_size C"
  "conn_events (conn_acked now C) = conn_events C" "conn_pending (conn_acked now C) = conn_pending C"
  "conn_ib_ok (conn_acked now C) = conn_ib_ok C" "conn_ok (conn_acked now C) = conn_ok C"
  "conn_sendable (conn_acked now C) = conn_sendable C" "conn_ob_capacity (conn_acked now C) = conn_ob_capacity C"
  "conn_tx_seq (conn_acked now C) = conn_tx_seq C" "conn_tx_ack (conn_acked now C) = conn_tx_ack C"
  by (simp_all add: conn_acked_def conn_pending_def conn_ib_ok_def conn_ok_def)

lemma seq_next_more [simp]:
  "dev_id (seq_next D) = dev_id D" "dev_state (seq_next D) = dev_state D"
  "dev_pktbuf (seq_next D) = dev_pktbuf D" "dev_pktlen (seq_next D) = dev_pktlen D"
  "dev_next_sport (seq_next D) = dev_next_sport D" "dev_preflight_cb_data (seq_next D) = dev_preflight_cb_data D"
  "dev_visible (seq_next D) = dev_visible D"
  by (simp_all add: seq_next_def)

definition usb_only :: "ptr \<Rightarrow> event list \<Rightarrow> bool" where
  "usb_only u evs \<longleftrightarrow> (\<forall>e\<in>set evs. \<exists>ep bs. e = UsbOut u ep bs)"

lemma usb_only_simps [simp]:
  "usb_only u []" "usb_only u (UsbOut u ep bs # evs) = usb_only u evs"
  "usb_only d (usb_packet d ud pkt)"
  by (auto simp: usb_only_def usb_packet_def)

text \<open>A step that at most sends a packet on behalf of connection \<open>k\<close>.\<close>

definition sent_on :: "ptr \<Rightarrow> mux_connection \<Rightarrow> mux_device \<Rightarrow> 'p daemon \<Rightarrow> 'p daemon \<Rightarrow> bool" where
  "sent_on k C D s s' \<longleftrightarrow> io_rest s s' \<and> clients s' = clients s \<and>
     (\<exists>D1. devs s' = (devs s)(conn_dev C \<mapsto> D1) \<and> (D1 = D \<or> D1 = seq_next D)) \<and>
     (\<exists>C1. conns s' = (conns s)(k \<mapsto> C1) \<and> (C1 = C \<or> (\<exists>now. C1 = conn_acked now C))) \<and>
     (\<exists>evs. trace s' = trace s @ evs \<and> usb_only (dev_usbdev D) evs)"

lemma sent_onE:
  assumes "sent_on k C D s t"
  obtains D1 C1 where "io_rest s t" "clients t = clients s" "devs t = (devs s)(conn_dev C \<mapsto> D1)"
    "D1 = D \<or> D1 = seq_next D" "conns t = (conns s)(k \<mapsto> C1)" "C1 = C \<or> (\<exists>now. C1 = conn_acked now C)"
    "conns t k = Some C1"
proof -
  from assms obtain D1 C1 where "io_rest s t" "clients t = clients s" "devs t = (devs s)(conn_dev C \<mapsto> D1)"
    "D1 = D \<or> D1 = seq_next D" "conns t = (conns s)(k \<mapsto> C1)" "C1 = C \<or> (\<exists>now. C1 = conn_acked now C)"
    unfolding sent_on_def by blast
  with that [of D1 C1] show thesis by simp
qed

lemma wp_send_tcp_on:
  assumes C: "conns s k = Some C" and D: "devs s (conn_dev C) = Some D" and ok: "dev_sendable s D"
    and fits: "length data \<le> unat MAX_PAYLOAD"
  shows "wp (send_tcp E k flags data) (\<lambda>res s'. sent_on k C D s s' \<and>
     (0 \<le> res \<longrightarrow> (\<exists>now. conns s' = (conns s)(k \<mapsto> conn_acked now C))) \<and> (res < 0 \<longrightarrow> conns s' = conns s)) s"
proof -
  from ok obtain u where u: "udevs s (dev_usbdev D) = Some u" by (auto simp: dev_sendable_def)
  have triv: "conns s = (conns s)(k \<mapsto> C)" using C by auto
  show ?thesis
  proof (rule wp_mono [OF wp_send_tcp [OF C D ok u fits]], goal_cases)
    case (1 res s')
    then show ?case
      using triv unfolding sent_on_def by (cases "0 \<le> res") auto
  qed
qed

lemma wp_teardown_rst:
  assumes C: "conns s k = Some C" and D: "devs s (conn_dev C) = Some D" and ok: "dev_sendable s D"
  shows "wp (teardown_rst E k) (\<lambda>_ s'. sent_on k C D s s') s"
proof -
  have none: "sent_on k C D s s"
    using C D unfolding sent_on_def by (auto intro!: exI [of _ D] exI [of _ C])
  have "wp (send_tcp E k TH_RST []) (\<lambda>_ s'. sent_on k C D s s') s"
    by (rule wp_mono [OF wp_send_tcp_on [OF C D ok]]) simp_all
  then show ?thesis
    using C D none by (simp add: teardown_rst_def wp_rules wp_eta)
qed

text \<open>Freeing a connection takes it out of its device's list.\<close>

lemma wp_teardown_free:
  assumes "conns s k = Some C" and "devs s (conn_dev C) = Some D" and "dev_connections D = Some ks"
  shows "wp (teardown_free E k) (\<lambda>_ s'. s' = s\<lparr>conns := (conns s)(k := None),
     devs := (devs s)(conn_dev C \<mapsto> D\<lparr>dev_connections := Some (collection_remove E ks k)\<rparr>)\<rparr>) s"
  using assms by (simp add: teardown_free_def wp_rules)

text \<open>Closing a client whose connection is already being freed leaves that connection alone.\<close>

definition client_gone :: "'p ext \<Rightarrow> ptr \<Rightarrow> 'p mux_client \<Rightarrow> 'p daemon \<Rightarrow> 'p daemon \<Rightarrow> bool" where
  "client_gone E c cl s s' \<longleftrightarrow> clients s' = (clients s)(c := None) \<and>
     client_list s' = collection_remove E (client_list s) c \<and>
     io_rest (s\<lparr>client_list := client_list s'\<rparr>) s' \<and>
     (\<exists>evs u. trace s' = trace s @ evs @ [SockClosed (cl_fd cl)] \<and> usb_only u evs)"

lemma wp_client_close_dead:
  assumes c: "c \<in> set (client_list s)" "clients s c = Some cl" and free: "\<not> client_list_mutex s"
    and k: "conns s k = Some C" "conn_state C = CONN_DEAD"
    and look: "lookup_ok (conns s) (devs s) (device_list s) (cl_connect_device cl) c k"
  shows "wp (client_close E c) (\<lambda>_ s'. client_gone E c cl s s' \<and> devs s' = devs s \<and>
     (\<exists>p. conns s' = (conns s)(k \<mapsto> C\<lparr>conn_client := p\<rparr>))) s"
proof -
  define s1 where "s1 C' = s\<lparr>conns := (conns s)(k \<mapsto> C'), trace := trace s @ [SockClosed (cl_fd cl)],
    client_list := collection_remove E (client_list s) c, client_list_mutex := False,
    clients := (clients s)(c := None)\<rparr>" for C'
  have post: "client_gone E c cl s (s1 C') \<and> devs (s1 C') = devs s \<and> conns (s1 C') = (conns s)(k \<mapsto> C')" for C'
    using free unfolding client_gone_def s1_def by (simp add: io_rest_def udev_core_def)
  have triv: "(conns s)(k \<mapsto> C) = conns s" using k by auto
  have "wp (client_close E c) (\<lambda>_ s'. s' = s1 (C\<lparr>conn_client := None\<rparr>) \<or> s' = s1 C) s"
    using c free k look triv
    by (simp add: client_close_def device_abort_connect_def connection_teardown_orphan_def wp_rules s1_def)
  then show ?thesis
  proof (rule wp_mono, goal_cases)
    case (1 _ s')
    have "C = C\<lparr>conn_client := conn_client C\<rparr>" by simp
    with 1 post show ?case by metis
  qed
qed

section \<open>Taking a connection down\<close>

text \<open>What a call needs of the outside world, and of the client that may get a reply.\<close>

definition world_ok :: "'p ext \<Rightarrow> bool" where
  "world_ok E \<longleftrightarrow> collections_ok E \<and> sockets_ok E \<and> clock_ok E \<and> replies_ok E"

definition calm :: "'p daemon \<Rightarrow> bool" where
  "calm s \<longleftrightarrow> (\<forall>c cl. clients s c = Some cl \<longrightarrow> cl_state cl \<noteq> CLIENT_COMMAND \<longrightarrow> unat (cl_ob_capacity cl) < 2 ^ 31)"

text \<open>
  The state after the connection \<open>k\<close> has gone: it is freed and off its device's list, its
  client is freed or back to taking commands, and nothing else has changed.
\<close>

definition torn :: "'p ext \<Rightarrow> ptr \<Rightarrow> mux_connection \<Rightarrow> 'p daemon \<Rightarrow> 'p daemon \<Rightarrow> bool" where
  "torn E k C s s' \<longleftrightarrow> conns s' = (conns s)(k := None) \<and>
     (\<exists>D D' ks. devs s (conn_dev C) = Some D \<and> dev_connections D = Some ks \<and>
        devs s' = (devs s)(conn_dev C \<mapsto> D'\<lparr>dev_connections := Some (collection_remove E ks k)\<rparr>) \<and>
        (D' = D \<or> D' = seq_next D)) \<and>
     (\<exists>c x. conn_client C = Some c \<and> clients s' = (clients s)(c := x) \<and>
        (x = None \<and> client_list s' = collection_remove E (client_list s) c \<or>
         (\<exists>cl. clients s c = Some cl \<and> cl_state cl = CLIENT_CONNECTING1 \<and> x = Some (notified E RESULT_CONNREFUSED cl) \<and> client_list s' = client_list s))) \<and>
     io_rest (s\<lparr>client_list := client_list s'\<rparr>) s'"

lemma notified_simps [simp]:
  "cl_state (notified E r cl) = (if r = RESULT_OK then CLIENT_CONNECTING2 else CLIENT_COMMAND)"
  "cl_connect_device (notified E r cl) = cl_connect_device cl" "cl_fd (notified E r cl) = cl_fd cl"
  by (simp_all add: notified_def Let_def)

lemma notified_ok:
  assumes E: "replies_ok E" and cl: "client_ok cl" "cl_state cl = CLIENT_CONNECTING1" "unat (cl_ob_capacity cl) < 2 ^ 31"
  shows "client_ok (notified E result cl)"
proof -
  have calm: "ob_calm cl" using cl by (simp add: ob_calm_def client_ok_def)
  let ?a = "answered E (cl_connect_tag cl) (result_num result) cl"
  note a = answered_ok [OF E calm, of "cl_connect_tag cl" "result_num result"]
  have sz: "cl_ob_size ?a \<noteq> 0"
  proof
    assume "cl_ob_size ?a = 0"
    then have "cl_pending ?a = []" by (simp add: cl_pending_def)
    with a(2) show False by (metis append_is_Nil_conv length_message_bytes list.size(3) add_is_0 zero_neq_numeral)
  qed
  show ?thesis
    using cl a(1) sz by (auto simp: client_ok_def notified_def Let_def cl_ob_ok_def)
qed

lemma torn_wf:
  assumes wf: "wf s" and E: "world_ok E" and calm: "calm s" and C: "conns s k = Some C"
    and torn: "torn E k C s s'"
  shows "wf s'" "calm s'"
proof -
  note tab = wfD(5) [OF wf]
  from E have col: "collections_ok E" and rep: "replies_ok E" by (simp_all add: world_ok_def)
  from torn obtain D D' ks c x where t: "conns s' = (conns s)(k := None)"
    "devs s (conn_dev C) = Some D" "dev_connections D = Some ks"
    "devs s' = (devs s)(conn_dev C \<mapsto> D'\<lparr>dev_connections := Some (collection_remove E ks k)\<rparr>)"
    "D' = D \<or> D' = seq_next D" "conn_client C = Some c" "clients s' = (clients s)(c := x)"
    and x: "x = None \<and> client_list s' = collection_remove E (client_list s) c \<or>
       (\<exists>cl. clients s c = Some cl \<and> cl_state cl = CLIENT_CONNECTING1 \<and> x = Some (notified E RESULT_CONNREFUSED cl) \<and> client_list s' = client_list s)"
    and rest: "io_rest (s\<lparr>client_list := client_list s'\<rparr>) s'"
    unfolding torn_def by blast
  note r = io_restD [OF rest, simplified]
  define D1 where "D1 = D'\<lparr>dev_connections := Some (collection_remove E ks k)\<rparr>"
  have D1: "dev_id D1 = dev_id D" "dev_connections D1 = Some (collection_remove E ks k)" "dev_ok s D1"
    using t(3,5) wfD(6) [OF wf t(2)] dev_ok_io(2) [OF wfD(6) [OF wf t(2)] refl]
    by (auto simp: D1_def dev_ok_def dev_sendable_def)
  have dist: "distinct ks" by (rule tablesD_dev(1) [OF tab t(2,3)])
  obtain cl where cl: "clients s c = Some cl" "busy (cl_state cl)"
    using session [OF tab C] t(6) linked_busy by auto
  have "cl_state cl \<noteq> CLIENT_COMMAND" using cl(2) by auto
  then have small: "unat (cl_ob_capacity cl) < 2 ^ 31"
    using calm cl(1) unfolding calm_def by blast
  have new: "client_ok cl' \<and> \<not> busy (cl_state cl')" if "x = Some cl'" for cl'
    using that x cl small notified_ok [OF rep wfD(7) [OF wf cl(1)]] by auto
  have tab': "tables_ok (conns s') (devs s') (clients s')"
    unfolding t(1,4,7) D1_def [symmetric]
    by (rule tables_drop [OF tab C t(6,2,3) D1(1,2)]) (use new dist col in simp_all)
  show "wf s'"
  proof (rule wf_step [OF wf r(8) r(11) tab' r(1)], goal_cases)
    case 1
    show ?case using t(2) unfolding t(4) by auto
  next
    case (2 d D2)
    then show ?case using D1(3) wfD(6) [OF wf] unfolding t(4) D1_def by (auto split: if_splits)
  next
    case 3
    show ?case using x wfD(2) [OF wf] col by auto
  next
    case 4
    show ?case using x wfD(2,4) [OF wf] col cl unfolding t(7) by auto
  next
    case 5
    show ?case using cl unfolding t(7) by auto
  next
    case (6 c1 cl1)
    then show ?case using new wfD(7) [OF wf] unfolding t(7) by (auto split: if_splits)
  next
    case 7
    show ?case unfolding t(1) by auto
  qed
  have "cl_state cl' = CLIENT_COMMAND" if "x = Some cl'" for cl'
    using that x by auto
  then show "calm s'"
    using calm unfolding calm_def t(7) by auto
qed


text \<open>The last step: from a state in which only the connection is left to free.\<close>

lemma torn_free:
  assumes C: "conns s k = Some C" and D: "devs s (conn_dev C) = Some D" "dev_connections D = Some ks"
    and c: "conn_client C = Some c"
    and t: "conns t = (conns s)(k \<mapsto> C')" "conn_dev C' = conn_dev C"
      "devs t = (devs s)(conn_dev C \<mapsto> D')" "D' = D \<or> D' = seq_next D"
      "clients t = (clients s)(c := x)" "io_rest (s\<lparr>client_list := client_list t\<rparr>) t"
      "x = None \<and> client_list t = collection_remove E (client_list s) c \<or>
       (\<exists>cl. clients s c = Some cl \<and> cl_state cl = CLIENT_CONNECTING1 \<and>
          x = Some (notified E RESULT_CONNREFUSED cl) \<and> client_list t = client_list s)"
  shows "wp (teardown_free E k) (\<lambda>_ s'. torn E k C s s') t"
proof -
  have k: "conns t k = Some C'" "devs t (conn_dev C') = Some D'" "dev_connections D' = Some ks"
    using t D by auto
  show ?thesis
  proof (rule wp_mono [OF wp_teardown_free [OF k]], goal_cases)
    case (1 _ s')
    have "conns s' = (conns s)(k := None)" "clients s' = (clients s)(c := x)" "client_list s' = client_list t"
      "devs s' = (devs s)(conn_dev C \<mapsto> D'\<lparr>dev_connections := Some (collection_remove E ks k)\<rparr>)"
      "io_rest (s\<lparr>client_list := client_list t\<rparr>) s'"
      using 1 t by simp_all
    then show ?case unfolding torn_def using D c t(4,7) by metis
  qed
qed

text \<open>The client of a connection that is not up yet is told that it was refused.\<close>

lemma wp_teardown_refused:
  assumes wf: "wf s" and E: "world_ok E" and calm: "calm s" and C: "conns s k = Some C"
    and D: "devs s (conn_dev C) = Some D" "dev_connections D = Some ks" and c: "conn_client C = Some c"
    and st: "conn_state C = CONN_REFUSED \<or> conn_state C = CONN_CONNECTING" and t: "sent_on k C D s t"
  shows "wp (client_notify_connect E c RESULT_CONNREFUSED) (\<lambda>_. wp (teardown_free E k) (\<lambda>_ s'. torn E k C s s')) t"
proof -
  from t obtain D1 C1 where t: "io_rest s t" "clients t = clients s"
    "devs t = (devs s)(conn_dev C \<mapsto> D1)" "D1 = D \<or> D1 = seq_next D"
    "conns t = (conns s)(k \<mapsto> C1)" "C1 = C \<or> (\<exists>now. C1 = conn_acked now C)"
    unfolding sent_on_def by blast
  obtain cl where cl: "clients s c = Some cl" "linked (conn_state C) (cl_state cl)"
    using session [OF wfD(5) [OF wf] C] c by auto
  then have st1: "cl_state cl = CLIENT_CONNECTING1" using st by auto
  have ob: "ob_calm cl"
    using calm cl wfD(7) [OF wf cl(1)] st1 unfolding calm_def ob_calm_def client_ok_def by simp
  have rep: "replies_ok E" using E by (simp add: world_ok_def)
  show ?thesis
  proof (rule wp_mono [OF wp_client_notify_connect [OF rep _ ob st1]], goal_cases)
    case 1
    show ?case using cl t by simp
  next
    case (2 r t1)
    note q = after_queueD [OF conjunct1 [OF 2]]
    have dev: "conn_dev C1 = conn_dev C" using t(6) by auto
    have l: "client_list t1 = client_list s"
      using io_restD(2) [OF q(4)] io_restD(2) [OF t(1)] by simp
    show ?case
    proof (rule torn_free [OF C D c _ dev _ t(4)])
      show "conns t1 = (conns s)(k \<mapsto> C1)" "devs t1 = (devs s)(conn_dev C \<mapsto> D1)"
        "clients t1 = (clients s)(c := Some (notified E RESULT_CONNREFUSED cl))"
        using q t by simp_all
      show "io_rest (s\<lparr>client_list := client_list t1\<rparr>) t1"
        using io_rest_trans [OF t(1) q(4)] l by (simp add: io_rest_def)
    qed (use cl st1 l in auto)
  qed
qed

text \<open>The client of a connection that is up gets what is left in the buffer, then is closed.\<close>

definition last_flush :: "'p ext \<Rightarrow> ptr \<Rightarrow> ptr \<Rightarrow> mux_connection \<Rightarrow> ('p, unit) mux" where
  "last_flush E k c C = whenM (has_flag (conn_events C) POLLOUT \<and> 0 < conn_ib_size C) (do {
     tm_last \<leftarrow> sys_mstime64 E;
     flush_loop (flush_fuel C) E k c tm_last
   })"

lemma wp_last_flush:
  assumes E: "sockets_ok E" "clock_ok E" and C: "conns s k = Some C'" "conn_ib_ok C'"
    and same: "conn_ib_size C' = conn_ib_size C" and cl: "clients s c = Some cl"
  shows "wp (last_flush E k c C) (\<lambda>_ s'. flushed k C' (cl_fd cl) s s') s"
proof -
  have none: "flushed k C' (cl_fd cl) s s"
    using C by (intro flushed_none [of s k C' s _ "[]"]) simp_all
  have "wp (flush_loop (flush_fuel C) E k c (of_nat (clock (ticked E s) div 10 ^ 6)))
      (\<lambda>_ s'. flushed k C' (cl_fd cl) (ticked E s) s') (ticked E s)"
    using C cl same by (intro wp_flush_loop [OF E, where j = 0]) (simp_all add: flush_fuel_def)
  then have "wp (flush_loop (flush_fuel C) E k c (of_nat (clock (ticked E s) div 10 ^ 6)))
      (\<lambda>_ s'. flushed k C' (cl_fd cl) s s') (ticked E s)"
    by (rule wp_mono) (simp add: flushed_def io_rest_def)
  with none show ?thesis
    by (simp add: last_flush_def wp_rules now_ms_clock [OF E(2)])
qed

lemma wp_teardown_close:
  assumes wf: "wf s" and E: "world_ok E" and C: "conns s k = Some C" and free: "\<not> client_list_mutex s"
    and D: "devs s (conn_dev C) = Some D" "dev_connections D = Some ks" and c: "conn_client C = Some c"
    and t: "sent_on k C D s t" and C1: "conns t k = Some C1"
  shows "wp (do { up_conn k (\<lambda>C. C\<lparr>conn_state := CONN_DEAD\<rparr>); last_flush E k c C1; client_close E c; teardown_free E k })
    (\<lambda>_ s'. torn E k C s s') t"
proof -
  from E have w: "sockets_ok E" "clock_ok E" by (simp_all add: world_ok_def)
  obtain D1 where t: "io_rest s t" "clients t = clients s"
    "devs t = (devs s)(conn_dev C \<mapsto> D1)" "D1 = D \<or> D1 = seq_next D"
    "conns t = (conns s)(k \<mapsto> C1)" "C1 = C \<or> (\<exists>now. C1 = conn_acked now C)"
    by (rule sent_onE [OF t]) (use C1 in simp)
  obtain cl where cl: "clients s c = Some cl" "conn_ib_ok C"
    using session [OF wfD(5) [OF wf] C] c by (auto simp: conn_ok_def)
  have same: "conn_dev C1 = conn_dev C" "conn_client C1 = conn_client C" "conn_ib_ok C1" using t(6) cl by auto
  have D1: "dev_id D1 = dev_id D" "dev_connections D1 = dev_connections D" using t(4) by auto
  define C2 where "C2 = C1\<lparr>conn_state := CONN_DEAD\<rparr>"
  define t1 where "t1 = t\<lparr>conns := (conns s)(k \<mapsto> C2)\<rparr>"
  have ib: "conn_ib_ok C2" using same(3) by (auto simp: C2_def conn_ib_ok_def)
  have "wp (last_flush E k c C1) (\<lambda>_. wp (client_close E c) (\<lambda>_. wp (teardown_free E k) (\<lambda>_ s'. torn E k C s s'))) t1"
  proof (rule wp_mono [OF wp_last_flush [where cl = cl, OF w _ ib]], goal_cases)
    case (4 _ t2)
    then obtain C3 where t2: "io_rest t1 t2" "devs t2 = devs t1" "clients t2 = clients t1" "conns t2 = (conns s)(k \<mapsto> C3)"
      and C3: "C3 = C2\<lparr>conn_ib_buf := conn_ib_buf C3, conn_ib_size := conn_ib_size C3\<rparr>"
      unfolding flushed_def t1_def by auto
    have C3: "conn_client C3 = conn_client C" "conn_dev C3 = conn_dev C" "conn_state C3 = CONN_DEAD"
      by (subst C3, simp add: C2_def same)+
    have r: "io_rest s t2" using io_rest_trans [OF t(1), of t2] t2(1) by (simp add: t1_def)
    note r2 = io_restD [OF r]
    have look: "lookup_ok (conns t2) (devs t2) (device_list t2) (cl_connect_device cl) c k"
      unfolding t2(2,4) r2(1) using t(3) lookup_upd [OF wf_lookup [OF wf C c cl(1)] C C3(1) D(1) D1]
      by (simp add: t1_def)
    show ?case
    proof (rule wp_mono [OF wp_client_close_dead [OF _ _ _ _ C3(3) look]], goal_cases)
      case (5 _ t3)
      then obtain p where t3: "client_gone E c cl t2 t3" "devs t3 = devs t2" "conns t3 = (conns s)(k \<mapsto> C3\<lparr>conn_client := p\<rparr>)"
        using t2(4) by auto
      then show ?case
        using t2 t r r2 C3(2) unfolding client_gone_def
        by (intro torn_free [OF C D c t3(3) _ _ t(4), where x = None]) (simp_all add: t1_def io_rest_def)
    qed (use cl t t2 r2 free wfD(4) [OF wf] in \<open>auto simp: t1_def\<close>)
  qed (use t cl in \<open>simp_all add: t1_def C2_def\<close>)
  then show ?thesis
    using C1 t(5) by (simp add: wp_rules wp_eta t1_def C2_def)
qed

text \<open>
  From every state in which the invariant holds: no fault, and only the connection and
  its session change.
\<close>

theorem wp_connection_teardown:
  assumes wf: "wf s" and E: "world_ok E" and calm: "calm s" and C: "conns s k = Some C" and free: "\<not> client_list_mutex s"
  shows "wp (connection_teardown E k) (\<lambda>_ s'. torn E k C s s') s"
proof -
  obtain D ks c cl where C': "devs s (conn_dev C) = Some D" "dev_connections D = Some ks"
    "conn_client C = Some c" "clients s c = Some cl" "linked (conn_state C) (cl_state cl)"
    using session [OF wfD(5) [OF wf] C] by blast
  have send: "dev_sendable s D" using wfD(6) [OF wf C'(1)] by (simp add: dev_ok_def)
  have alive: "conn_state C \<noteq> CONN_DEAD" using linked_busy [OF C'(5)] by blast
  define rest where "rest = do {
       C \<leftarrow> rd_conn k;
       (case conn_client C of
          None \<Rightarrow> skip
        | Some c \<Rightarrow>
            if conn_state C = CONN_REFUSED \<or> conn_state C = CONN_CONNECTING
            then do { client_notify_connect E c RESULT_CONNREFUSED; skip }
            else do {
              up_conn k (\<lambda>C. C\<lparr>conn_state := CONN_DEAD\<rparr>);
              last_flush E k c C;
              client_close E c
            });
       teardown_free E k }"
  have "wp (teardown_rst E k) (\<lambda>_. wp rest (\<lambda>_ s'. torn E k C s s')) s"
  proof (rule wp_mono [OF wp_teardown_rst [OF C C'(1) send]], goal_cases)
    case (1 _ t)
    then obtain C1 where C1: "conns t k = Some C1" "C1 = C \<or> (\<exists>now. C1 = conn_acked now C)"
      by (rule sent_onE) blast
    then have "conn_client C1 = Some c" "conn_state C1 = conn_state C" using C' by auto
    with C1(1) show ?case
      using wp_teardown_refused [OF wf E calm C C'(1-3) _ 1] wp_teardown_close [OF wf E C free C'(1-3) 1 C1(1)]
      by (simp add: rest_def wp_rules wp_eta)
  qed
  then show ?thesis
    unfolding connection_teardown_def rest_def last_flush_def using C alive by (simp add: wp_rules)
qed


section \<open>The recursion of the C code\<close>

text \<open>
  A connection that has lost its client does not get one back by a send; so the call of
  \<open>connection_teardown\<close> in \<open>device_abort_connect\<close> behaves as the one for an orphan.
\<close>

definition orphaned :: "ptr \<Rightarrow> 'p daemon \<Rightarrow> bool" where
  "orphaned k s \<longleftrightarrow> (case conns s k of None \<Rightarrow> fault s \<noteq> None | Some C \<Rightarrow> conn_client C = None)"

lemma orphaned_simps [simp]:
  "orphaned k s \<Longrightarrow> orphaned k (set_fault f s)"
  "orphaned k (devs_update f1 s) = orphaned k s" "orphaned k (mem_update f2 s) = orphaned k s"
  "orphaned k (xfers_update f3 s) = orphaned k s" "orphaned k (udevs_update f4 s) = orphaned k s"
  "orphaned k (trace_update f5 s) = orphaned k s" "orphaned k (next_ptr_update f6 s) = orphaned k s"
  "orphaned k (calls_update f7 s) = orphaned k s" "orphaned k (clock_update f8 s) = orphaned k s"
  by (auto simp: orphaned_def split: option.splits)

lemma stable_orphaned_primitives [frame_rules]:
  "stable (orphaned k) (rd_heap h dflt p)"
  "stable (orphaned k) (up_heap devs devs_update p g1)" "stable (orphaned k) (up_heap udevs udevs_update p g2)"
  "stable (orphaned k) (up_heap xfers xfers_update p g3)"
  "stable (orphaned k) (free_heap mem mem_update p)" "stable (orphaned k) (free_heap xfers xfers_update p)"
  "stable (orphaned k) (new_heap mem_update x1)" "stable (orphaned k) (new_heap xfers_update x2)"
  "stable (orphaned k) (expect f y z)" "stable (orphaned k) (assert_m f b)" "stable (orphaned k) (emit e)"
  "stable (orphaned k) (tick E)"
  by (auto simp: stable_def rd_heap_def up_heap_def free_heap_def new_heap_def raise_fault_def expect_def
      assert_m_def emit_def tick_def split: option.splits)

lemma stable_orphaned_up_conn [frame_rules]:
  "(\<And>C. conn_client (g C) = conn_client C) \<Longrightarrow> stable (orphaned k) (up_conn p g)"
  by (auto simp: stable_def up_heap_def raise_fault_def orphaned_def set_fault_def split: option.splits)

lemma stable_teardown_rst: "stable (orphaned k) (teardown_rst E k)"
  unfolding teardown_rst_def send_tcp_def send_packet_def usb_send_def submit_out_def sys_mstime64_def Let_def
  by (intro frame_rules) simp_all

lemma run_rd_orphaned:
  assumes "orphaned k s"
  shows "\<exists>C. run_state (rd_conn k) s = (C, s) \<and> conn_client C = None"
proof (cases "conns s k")
  case None
  with assms have "set_fault f s = s" for f by (simp add: orphaned_def set_fault_def)
  with None show ?thesis by (simp add: rd_heap_def raise_fault_def conn_zero_def)
next
  case (Some C)
  with assms show ?thesis by (simp add: rd_heap_def orphaned_def)
qed

lemma connection_teardown_orphaned:
  assumes "orphaned k s"
  shows "run_state (connection_teardown E k) s = run_state (connection_teardown_orphan E k) s"
proof -
  have "orphaned k (snd (run_state (teardown_rst E k) s))"
    by (rule stable_teardown_rst [unfolded stable_def, rule_format, OF assms])
  then obtain C2 where "run_state (rd_conn k) (snd (run_state (teardown_rst E k) s)) = (C2, snd (run_state (teardown_rst E k) s))"
      "conn_client C2 = None"
    using run_rd_orphaned by blast
  moreover obtain C where "run_state (rd_conn k) s = (C, s)"
    using run_rd_orphaned [OF assms] by blast
  ultimately show ?thesis
    unfolding connection_teardown_def connection_teardown_orphan_def by (simp add: split_beta)
qed

lemma device_abort_connect_eq:
  "device_abort_connect E device_id client = do {
     conn \<leftarrow> get_mux_connection device_id client;
     case conn of
       Some k \<Rightarrow> do {
         up_conn k (\<lambda>C. C\<lparr>conn_client := None\<rparr>);
         connection_teardown E k
       }
     | None \<Rightarrow> skip
   }"
proof -
  have "orphaned k (snd (run_state (up_conn k (\<lambda>C. C\<lparr>conn_client := None\<rparr>)) s))" for k and s :: "'a daemon"
    by (simp add: up_heap_def orphaned_def raise_fault_def set_fault_def split: option.splits)
  then have "do { up_conn k (\<lambda>C. C\<lparr>conn_client := None\<rparr>); connection_teardown_orphan E k } =
      do { up_conn k (\<lambda>C. C\<lparr>conn_client := None\<rparr>); connection_teardown E k }" for k
    by (intro state.expand ext) (simp add: split_beta connection_teardown_orphaned)
  then show ?thesis by (simp add: device_abort_connect_def cong: option.case_cong)
qed

section \<open>Closing a client\<close>

text \<open>The end of \<open>client_close\<close>, from the closing of the socket on.\<close>

definition client_end :: "'p ext \<Rightarrow> ptr \<Rightarrow> int \<Rightarrow> ('p, unit) mux" where
  "client_end E c fd = do {
     emit (SockClosed fd);
     modify (\<lambda>s. s\<lparr>client_list := collection_remove E (client_list s) c\<rparr>);
     unlock_clients;
     free_heap clients clients_update c
   }"

definition client_ended :: "'p ext \<Rightarrow> ptr \<Rightarrow> int \<Rightarrow> 'p daemon \<Rightarrow> 'p daemon" where
  "client_ended E c fd s = s\<lparr>trace := trace s @ [SockClosed fd], client_list := collection_remove E (client_list s) c,
     client_list_mutex := False, clients := (clients s)(c := None)\<rparr>"

lemma client_ended_simps [simp]:
  "conns (client_ended E c fd s) = conns s" "devs (client_ended E c fd s) = devs s"
  "clients (client_ended E c fd s) = (clients s)(c := None)"
  "client_list (client_ended E c fd s) = collection_remove E (client_list s) c"
  "trace (client_ended E c fd s) = trace s @ [SockClosed fd]"
  by (simp_all add: client_ended_def)

lemma io_rest_client_ended:
  assumes "io_rest (s\<lparr>client_list_mutex := True\<rparr>) t" and "\<not> client_list_mutex s"
  shows "io_rest (s\<lparr>client_list := collection_remove E (client_list s) c\<rparr>) (client_ended E c fd t)"
  using assms by (simp add: io_rest_def client_ended_def)

lemma wp_client_end: "clients s c = Some cl \<Longrightarrow> wp (client_end E c fd) Q s = Q () (client_ended E c fd s)"
  by (simp add: client_end_def client_ended_def wp_rules)

text \<open>A client that waits for the device takes its connection down with it.\<close>

theorem wp_client_close_connecting:
  assumes wf: "wf s" and E: "world_ok E" and free: "\<not> client_list_mutex s"
    and C: "conns s k = Some C" "conn_client C = Some c" "clients s c = Some cl"
    and st: "cl_state cl = CLIENT_CONNECTING1 \<or> cl_state cl = CLIENT_CONNECTING2"
  shows "wp (client_close E c) (\<lambda>_ s'. torn E k C s s' \<and> clients s' c = None) s"
proof -
  obtain D ks where D: "devs s (conn_dev C) = Some D" "dev_connections D = Some ks" "linked (conn_state C) (cl_state cl)"
    using session [OF wfD(5) [OF wf] C(1)] C by auto
  define C1 where "C1 = C\<lparr>conn_client := None\<rparr>"
  define s1 where "s1 = s\<lparr>client_list_mutex := True, clients := (clients s)(c \<mapsto> cl\<lparr>cl_state := CLIENT_DEAD\<rparr>)\<rparr>"
  define s2 where "s2 = s1\<lparr>conns := (conns s)(k \<mapsto> C1)\<rparr>"
  have look: "lookup_ok (conns s1) (devs s1) (device_list s1) (cl_connect_device cl) c k"
    using wf_lookup [OF wf C] by (simp add: s1_def)
  have alive: "conn_state C1 \<noteq> CONN_DEAD" using linked_busy [OF D(3)] by (simp add: C1_def)
  have C1: "conns s2 k = Some C1" "devs s2 (conn_dev C1) = Some D" "dev_sendable s2 D"
    using wfD(6) [OF wf D(1)] D by (simp_all add: s2_def s1_def C1_def dev_ok_def dev_sendable_def)
  have "wp (teardown_rst E k) (\<lambda>_. wp (teardown_free E k) (\<lambda>_. wp (client_end E c (cl_fd cl)) (\<lambda>_ s'. torn E k C s s' \<and> clients s' c = None))) s2"
  proof (rule wp_mono [OF wp_teardown_rst [OF C1]], goal_cases)
    case (1 _ t)
    obtain D1 C2 where t: "io_rest s2 t" "clients t = clients s2" "devs t = (devs s2)(conn_dev C1 \<mapsto> D1)"
      "D1 = D \<or> D1 = seq_next D" "conns t = (conns s2)(k \<mapsto> C2)" "C2 = C1 \<or> (\<exists>now. C2 = conn_acked now C1)"
      "conns t k = Some C2"
      by (rule sent_onE [OF 1])
    have dev: "conn_dev C2 = conn_dev C" using t(6) by (auto simp: C1_def)
    have "devs t (conn_dev C2) = Some D1" "dev_connections D1 = Some ks" using t(3,4) D dev by (auto simp: C1_def)
    note fr = wp_teardown_free [OF t(7) this]
    show ?case
    proof (rule wp_mono [OF fr], goal_cases)
      case (1 _ u)
      have r: "io_rest (s\<lparr>client_list_mutex := True\<rparr>) u" using t(1) 1 by (simp add: s2_def s1_def io_rest_def)
      have u: "conns u = (conns s)(k := None)" "clients u = (clients s)(c \<mapsto> cl\<lparr>cl_state := CLIENT_DEAD\<rparr>)"
        "devs u = (devs s)(conn_dev C \<mapsto> D1\<lparr>dev_connections := Some (collection_remove E ks k)\<rparr>)"
        "client_list u = client_list s"
        using t dev 1 io_restD(2) [OF r] by (simp_all add: s2_def s1_def C1_def)
      have "torn E k C s (client_ended E c (cl_fd cl) u)"
        unfolding torn_def using u D C t(4) io_rest_client_ended [OF r free] by auto
      then show ?case by (subst wp_client_end, use u in simp, simp)
    qed
  qed
  then have "wp (client_close E c) (\<lambda>_ s'. torn E k C s s' \<and> clients s' c = None) s"
    if "c \<in> set (client_list s)"
    using that C free st look alive C1(1)
    by (simp add: client_close_def device_abort_connect_def connection_teardown_orphan_def client_end_def wp_rules wp_eta
        s1_def s2_def C1_def)
  then show ?thesis using C(3) wfD(4) [OF wf] by blast
qed

text \<open>Any other client that has no connection just goes.\<close>

lemma wp_client_close_idle:
  assumes wf: "wf s" and free: "\<not> client_list_mutex s" and cl: "clients s c = Some cl" "\<not> busy (cl_state cl)"
  shows "wp (client_close E c) (\<lambda>_ s'. client_gone E c cl s s' \<and> conns s' = conns s \<and> devs s' = devs s) s"
proof -
  define s1 where "s1 = s\<lparr>client_list_mutex := True\<rparr>"
  have r: "io_rest (s\<lparr>client_list_mutex := True\<rparr>) s1" by (simp add: s1_def)
  have "client_gone E c cl s (client_ended E c (cl_fd cl) s1)"
    using io_rest_client_ended [OF r free, of E c "cl_fd cl"] usb_only_simps(1)
    by (auto simp: client_gone_def s1_def)
  moreover have s1: "clients s1 c = Some cl" "c \<in> set (client_list s1)" "cl_state cl \<noteq> CLIENT_CONNECTING1"
    "cl_state cl \<noteq> CLIENT_CONNECTING2"
    using cl wfD(4) [OF wf] by (auto simp: s1_def)
  ultimately have "wp (client_end E c (cl_fd cl)) (\<lambda>_ s'. client_gone E c cl s s' \<and> conns s' = conns s \<and> devs s' = devs s) s1"
    by (subst wp_client_end, simp, simp) (simp add: s1_def)
  moreover have "client_close E c = do { lock_clients; l \<leftarrow> gets client_list;
      if c \<notin> set l then unlock_clients
      else do {
        cl \<leftarrow> rd_client c;
        whenM (cl_state cl = CLIENT_CONNECTING1 \<or> cl_state cl = CLIENT_CONNECTING2) (do {
          up_client c (\<lambda>cl. cl\<lparr>cl_state := CLIENT_DEAD\<rparr>);
          device_abort_connect E (cl_connect_device cl) c
        });
        client_end E c (cl_fd cl)
      }
    }" unfolding client_close_def client_end_def ..
  ultimately show ?thesis
    using free s1
    by (simp add: wp_rules s1_def)
qed

lemma client_gone_wf:
  assumes wf: "wf s" and E: "world_ok E" and cl: "clients s c = Some cl" "\<not> busy (cl_state cl)"
    and gone: "client_gone E c cl s s'" "conns s' = conns s" "devs s' = devs s"
  shows "wf s'" "calm s \<Longrightarrow> calm s'"
proof -
  from E have col: "collections_ok E" by (simp add: world_ok_def)
  from gone(1) have g: "clients s' = (clients s)(c := None)" "client_list s' = collection_remove E (client_list s) c"
    and rest: "io_rest (s\<lparr>client_list := client_list s'\<rparr>) s'"
    by (auto simp: client_gone_def)
  note r = io_restD [OF rest, simplified]
  show "calm s \<Longrightarrow> calm s'" unfolding calm_def g(1) by auto
  have "tables_ok (conns s') (devs s') (clients s')"
    unfolding gone(2,3) g(1) by (rule tables_drop_client [OF wfD(5) [OF wf] cl])
  then show "wf s'"
    by (rule wf_step [OF wf r(8) r(11) _ r(1)])
      (use wfD [OF wf] g gone col in \<open>auto split: if_splits\<close>)
qed

text \<open>So closing any client but one that talks to a device keeps the invariant.\<close>

theorem wp_client_close_wf:
  assumes wf: "wf s" and E: "world_ok E" and free: "\<not> client_list_mutex s" and calm: "calm s"
    and cl: "clients s c = Some cl" "cl_state cl \<noteq> CLIENT_CONNECTED"
  shows "wp (client_close E c) (\<lambda>_ s'. wf s' \<and> calm s' \<and> fault s' = fault s \<and> clients s' = (clients s)(c := None)) s"
proof (cases "busy (cl_state cl)")
  case True
  then have st: "cl_state cl = CLIENT_CONNECTING1 \<or> cl_state cl = CLIENT_CONNECTING2"
    using cl(2) by (cases "cl_state cl") auto
  obtain k C where C: "conns s k = Some C" "conn_client C = Some c"
    using tablesD_busy [OF wfD(5) [OF wf] cl(1) True] .
  show ?thesis
  proof (rule wp_mono [OF wp_client_close_connecting [OF wf E free C cl(1) st]], goal_cases)
    case (1 _ s')
    then have t: "torn E k C s s'" "clients s' c = None" by simp_all
    from t C(2) obtain x where "clients s' = (clients s)(c := x)" "io_rest (s\<lparr>client_list := client_list s'\<rparr>) s'"
      unfolding torn_def by auto
    with t(2) have "clients s' = (clients s)(c := None)" "fault s' = fault s"
      using io_restD(4) by fastforce+
    with torn_wf [OF wf E calm C(1) t(1)] show ?case by blast
  qed
next
  case False
  show ?thesis
  proof (rule wp_mono [OF wp_client_close_idle [OF wf free cl(1) False]], goal_cases)
    case (1 _ s')
    then have g: "client_gone E c cl s s'" "conns s' = conns s" "devs s' = devs s" by simp_all
    then have "clients s' = (clients s)(c := None)" "fault s' = fault s"
      unfolding client_gone_def using io_restD(4) by fastforce+
    with client_gone_wf [OF wf E cl(1) False g] calm show ?case by blast
  qed
qed

end
