(* ===== verification/Fresh.thy ===== *)
theory Fresh
  imports Teardown_Inv
begin

text \<open>
  The two searches for an unused number: source ports of a device and identifiers of
  devices. Each steps a counter that wraps around; both end, since more consecutive
  values are tried than are in use, and what they return is not in use.
\<close>

section \<open>Consecutive values of a counter\<close>

lemma inj_count:
  fixes i :: "'a::len word"
  assumes "m \<le> 2 ^ LENGTH('a)"
  shows "inj_on (\<lambda>j. i + of_nat j) {..<m}"
proof (rule inj_onI)
  fix x y assume xy: "x \<in> {..<m}" "y \<in> {..<m}" "i + of_nat x = i + of_nat y"
  then have "unat (of_nat x :: 'a word) = unat (of_nat y :: 'a word)" by simp
  moreover have "x < 2 ^ LENGTH('a)" "y < 2 ^ LENGTH('a)" using xy assms by auto
  ultimately show "x = y" by (simp add: unat_of_nat_small)
qed

text \<open>Among one more value than are in use, one is free.\<close>

lemma unused_count:
  fixes i :: "'a::len word"
  assumes "length ks < 2 ^ LENGTH('a)"
  obtains j where "j < length ks + 1" "i + of_nat j \<notin> f ` set ks"
proof -
  have "\<not> (\<lambda>j. i + of_nat j) ` {..<length ks + 1} \<subseteq> f ` set ks"
  proof
    assume "(\<lambda>j. i + of_nat j) ` {..<length ks + 1} \<subseteq> f ` set ks"
    then have "card ((\<lambda>j. i + of_nat j) ` {..<length ks + 1}) \<le> card (f ` set ks)"
      by (intro card_mono) simp_all
    also have "\<dots> \<le> length ks"
      using card_image_le [of "set ks" f] card_length [of ks] by simp
    finally show False
      using assms by (simp add: card_image [OF inj_count])
  qed
  then show ?thesis using that by auto
qed

section \<open>Source ports\<close>

definition ports_used :: "'p daemon \<Rightarrow> ptr list \<Rightarrow> u16 set" where
  "ports_used s ks = (\<lambda>k. conn_sport (the (conns s k))) ` set ks"

lemma wp_sport_loop:
  assumes "devs s d = Some D" and "dev_connections D = Some ks" and "\<And>k. k \<in> set ks \<Longrightarrow> \<exists>C. conns s k = Some C"
    and "j < n" and "dev_next_sport D + of_nat j \<notin> ports_used s ks"
  shows "wp (sport_loop n d) (\<lambda>r s'. r \<notin> ports_used s ks \<and>
     s' = s\<lparr>devs := (devs s)(d \<mapsto> D\<lparr>dev_next_sport := r + 1\<rparr>)\<rparr>) s"
  using assms
proof (induction n arbitrary: s D j)
  case 0
  then show ?case by simp
next
  case (Suc n)
  note D = Suc.prems(1,2)
  have run: "run_state (do { C \<leftarrow> rd_conn k; ret (dev_next_sport D = conn_sport C) }) s =
      (dev_next_sport D = conn_sport (the (conns s k)), s)" if "k \<in> set ks" for k
    using Suc.prems(3) [OF that] by (auto simp: rd_heap_def)
  define D1 where "D1 = D\<lparr>dev_next_sport := dev_next_sport D + 1\<rparr>"
  define s1 where "s1 = s\<lparr>devs := (devs s)(d \<mapsto> D1)\<rparr>"
  have again: "wp (sport_loop n d) (\<lambda>r s'. r \<notin> ports_used s ks \<and>
      s' = s\<lparr>devs := (devs s)(d \<mapsto> D\<lparr>dev_next_sport := r + 1\<rparr>)\<rparr>) s1"
    if "dev_next_sport D \<in> ports_used s ks"
  proof -
    from that Suc.prems(5) obtain i where i: "j = Suc i" by (cases j) auto
    have "wp (sport_loop n d) (\<lambda>r s'. r \<notin> ports_used s1 ks \<and>
        s' = s1\<lparr>devs := (devs s1)(d \<mapsto> D1\<lparr>dev_next_sport := r + 1\<rparr>)\<rparr>) s1"
      using Suc.prems D i
      by (intro Suc.IH [of s1 D1 i]) (simp_all add: s1_def D1_def ports_used_def ac_simps)
    then show ?thesis
      by (rule wp_mono) (simp add: s1_def D1_def ports_used_def)
  qed
  define Q where "Q = (\<lambda>r s'. r \<notin> ports_used s ks \<and> s' = s\<lparr>devs := (devs s)(d \<mapsto> D\<lparr>dev_next_sport := r + 1\<rparr>)\<rparr>)"
  have "find (\<lambda>k. dev_next_sport D = conn_sport (the (conns s k))) ks = None \<longleftrightarrow> dev_next_sport D \<notin> ports_used s ks"
    by (auto simp: find_None_iff ports_used_def)
  moreover have "Q (dev_next_sport D) s1" if "dev_next_sport D \<notin> ports_used s ks"
    using that by (simp add: Q_def s1_def D1_def)
  ultimately have "wp (sport_loop (Suc n) d) Q s"
    using D again [folded Q_def]
    by (cases "find (\<lambda>k. dev_next_sport D = conn_sport (the (conns s k))) ks")
      (simp_all add: wp_rules wp_find_m_pure [OF run] s1_def D1_def)
  then show ?case unfolding Q_def .
qed

text \<open>
  The port that a new connection gets is used by no other connection of the device. It is
  0, which the callers take for a failure, only if the device has 65535 connections or
  the counter has wrapped around to 0.
\<close>

lemma wp_find_sport:
  assumes D: "devs s d = Some D" "dev_connections D = Some ks"
    and ks: "\<And>k. k \<in> set ks \<Longrightarrow> \<exists>C. conns s k = Some C"
  shows "wp (find_sport d) (\<lambda>r s'. (r = 0 \<and> 65535 \<le> length ks \<and> s' = s) \<or>
     (r \<notin> ports_used s ks \<and> length ks < 65535 \<and> s' = s\<lparr>devs := (devs s)(d \<mapsto> D\<lparr>dev_next_sport := r + 1\<rparr>)\<rparr>)) s"
proof (cases "65535 \<le> length ks")
  case True
  then show ?thesis using D by (simp add: find_sport_def wp_rules)
next
  case False
  then have "length ks < 2 ^ LENGTH(16)" by simp
  then obtain j where j: "j < length ks + 1" "dev_next_sport D + of_nat j \<notin> ports_used s ks"
    unfolding ports_used_def by (rule unused_count)
  have "wp (sport_loop (length ks + 1) d) (\<lambda>r s'. (r = 0 \<and> 65535 \<le> length ks \<and> s' = s) \<or>
     (r \<notin> ports_used s ks \<and> length ks < 65535 \<and> s' = s\<lparr>devs := (devs s)(d \<mapsto> D\<lparr>dev_next_sport := r + 1\<rparr>)\<rparr>)) s"
    using False by (intro wp_mono [OF wp_sport_loop [OF D ks j]]) auto
  then show ?thesis using False D by (simp add: find_sport_def wp_rules)
qed

section \<open>Identifiers\<close>

definition ids_used :: "'p daemon \<Rightarrow> u32 set" where
  "ids_used s = (\<lambda>d. dev_id (the (devs s d))) ` set (device_list s)"

lemma wp_id_loop:
  assumes "\<And>d. d \<in> set (device_list s) \<Longrightarrow> \<exists>D. devs s d = Some D" and "\<not> device_list_mutex s"
    and "j < n" and "next_device_id s + of_nat j \<notin> ids_used s"
  shows "wp (id_loop n) (\<lambda>r s'. r \<notin> ids_used s \<and> s' = s\<lparr>next_device_id := r + 1\<rparr>) s"
  using assms
proof (induction n arbitrary: s j)
  case 0
  then show ?case by simp
next
  case (Suc n)
  define s1 where "s1 = s\<lparr>next_device_id := next_device_id s + 1\<rparr>"
  define sl where "sl = s\<lparr>device_list_mutex := True\<rparr>"
  have run: "run_state (do { D \<leftarrow> rd_dev d; ret (dev_id D = next_device_id s) }) sl =
      (dev_id (the (devs s d)) = next_device_id s, sl)" if "d \<in> set (device_list s)" for d
    using Suc.prems(1) [OF that] by (auto simp: rd_heap_def sl_def)
  have again: "wp (id_loop n) (\<lambda>r s'. r \<notin> ids_used s \<and> s' = s\<lparr>next_device_id := r + 1\<rparr>) s1"
    if "next_device_id s \<in> ids_used s"
  proof -
    from that Suc.prems(4) obtain i where i: "j = Suc i" by (cases j) auto
    have "wp (id_loop n) (\<lambda>r s'. r \<notin> ids_used s1 \<and> s' = s1\<lparr>next_device_id := r + 1\<rparr>) s1"
      using Suc.prems i by (intro Suc.IH [of s1 i]) (simp_all add: s1_def ids_used_def ac_simps)
    then show ?thesis
      by (rule wp_mono) (simp add: s1_def ids_used_def)
  qed
  have hit: "find (\<lambda>d. dev_id (the (devs s d)) = next_device_id s) (device_list s) = None \<longleftrightarrow>
      next_device_id s \<notin> ids_used s"
    unfolding find_None_iff ids_used_def by force
  have s1: "s\<lparr>device_list_mutex := False, next_device_id := next_device_id s + 1\<rparr> = s1"
    "sl\<lparr>next_device_id := next_device_id s + 1, device_list_mutex := False\<rparr> = s1"
    using Suc.prems(2) by (simp_all add: s1_def sl_def)
  show ?case
    using hit again Suc.prems(2)
    by (cases "find (\<lambda>d. dev_id (the (devs s d)) = next_device_id s) (device_list s)")
      (simp_all add: wp_rules wp_find_m_pure [OF run, unfolded sl_def] s1 [unfolded sl_def], simp add: s1_def)
qed

lemma wp_get_next_device_id:
  assumes devs: "\<And>d. d \<in> set (device_list s) \<Longrightarrow> \<exists>D. devs s d = Some D" and free: "\<not> device_list_mutex s"
    and few: "length (device_list s) < 2 ^ 32"
  shows "wp get_next_device_id (\<lambda>r s'. r \<notin> ids_used s \<and> s' = s\<lparr>next_device_id := r + 1\<rparr>) s"
proof -
  have "length (device_list s) < 2 ^ LENGTH(32)" using few by simp
  then obtain j where j: "j < length (device_list s) + 1" "next_device_id s + of_nat j \<notin> ids_used s"
    unfolding ids_used_def by (rule unused_count)
  show ?thesis
    using wp_id_loop [OF devs free j] by (simp add: get_next_device_id_def wp_rules)
qed

end
