(* ===== verification/Device_Inv.thy ===== *)
theory Device_Inv
  imports Fresh
begin

text \<open>
  The handlers of the device layer keep the invariant and commit no memory error: flow
  control, moving data between a client and its device, and the packets of a device.
\<close>

section \<open>Sound transitions\<close>

text \<open>
  A transition that ends in the invariant, raises no fault and leaves the locks as they
  were; a sound one also leaves no client but one in the command state with a huge buffer.
\<close>

definition safe :: "'p daemon \<Rightarrow> 'p daemon \<Rightarrow> bool" where
  "safe s s' \<longleftrightarrow> wf s' \<and> fault s' = fault s \<and> device_list_mutex s' = device_list_mutex s \<and>
     client_list_mutex s' = client_list_mutex s"

definition sound :: "'p daemon \<Rightarrow> 'p daemon \<Rightarrow> bool" where
  "sound s s' \<longleftrightarrow> safe s s' \<and> calm s'"

lemma soundD:
  assumes "sound s s'"
  shows "wf s'" "calm s'" "fault s' = fault s" "device_list_mutex s' = device_list_mutex s"
    "client_list_mutex s' = client_list_mutex s" "safe s s'"
  using assms by (simp_all add: sound_def safe_def)

lemma safeD:
  assumes "safe s s'"
  shows "wf s'" "fault s' = fault s" "device_list_mutex s' = device_list_mutex s"
    "client_list_mutex s' = client_list_mutex s"
  using assms by (simp_all add: safe_def)

lemma safe_trans: "safe s t \<Longrightarrow> safe t u \<Longrightarrow> safe s u"
  by (simp add: safe_def)

lemma safe_io: "wf t \<Longrightarrow> io_rest s t \<Longrightarrow> safe s t"
  by (simp add: safe_def io_rest_def)

lemma sound_refl: "wf s \<Longrightarrow> calm s \<Longrightarrow> sound s s"
  by (simp add: sound_def safe_def)

lemma sound_trans: "sound s t \<Longrightarrow> sound t u \<Longrightarrow> sound s u"
  by (simp add: sound_def safe_def)

lemma torn_sound:
  assumes "wf s" and "world_ok E" and "calm s" and "conns s k = Some C" and "torn E k C s s'"
  shows "sound s s'"
proof -
  from assms(5) have "io_rest (s\<lparr>client_list := client_list s'\<rparr>) s'" by (simp add: torn_def)
  note r = io_restD [OF this, simplified]
  show ?thesis using torn_wf [OF assms] r by (simp add: sound_def safe_def)
qed

lemma wp_teardown_sound:
  assumes "wf s" and "world_ok E" and "calm s" and "conns s k = Some C" and "\<not> client_list_mutex s"
  shows "wp (connection_teardown E k) (\<lambda>_ s'. sound s s' \<and> conns s' k = None) s"
  by (rule wp_mono [OF wp_connection_teardown [OF assms]])
    (use torn_sound [OF assms(1-4)] in \<open>auto simp: torn_def\<close>)

text \<open>Changing one struct in place.\<close>

lemma wf_upd_conn:
  assumes wf: "wf s" and C: "conns s k = Some C" and C': "conn_ok C'"
    and same: "conn_dev C' = conn_dev C" "conn_client C' = conn_client C" "conn_sport C' = conn_sport C"
      "conn_state C' = conn_state C"
    and t: "conns t = (conns s)(k \<mapsto> C')" "devs t = devs s" "clients t = clients s" "io_rest s t"
  shows "wf t"
proof -
  note r = io_restD [OF t(4)]
  have "tables_ok (conns t) (devs t) (clients t)"
    unfolding t(1-3) by (rule tables_upd_conn [OF wfD(5) [OF wf] C C' same(1-3)]) (simp add: same)
  then show ?thesis
    by (rule wf_step [OF wf r(8,11) _ r(1)]) (use wfD [OF wf] t r C in auto)
qed

lemma wf_upd_client:
  assumes wf: "wf s" and cl: "clients s c = Some cl" and cl': "client_ok cl'"
    and same: "busy (cl_state cl) \<Longrightarrow> cl_connect_device cl' = cl_connect_device cl"
    and st: "cl_state cl' = cl_state cl \<or> \<not> busy (cl_state cl) \<and> \<not> busy (cl_state cl') \<or>
      cl_state cl = CLIENT_CONNECTING2 \<and> cl_state cl' = CLIENT_CONNECTED"
    and t: "conns t = conns s" "devs t = devs s" "clients t = (clients s)(c \<mapsto> cl')" "io_rest s t"
  shows "wf t"
proof -
  note r = io_restD [OF t(4)]
  have "tables_ok (conns t) (devs t) (clients t)"
    unfolding t(1-3) by (rule tables_upd_client [OF wfD(5) [OF wf] cl same st])
  then show ?thesis
    by (rule wf_step [OF wf r(8,11) _ r(1)]) (use wfD [OF wf] t r cl cl' in \<open>auto split: if_splits\<close>)
qed

lemma wf_upd_dev:
  assumes wf: "wf s" and D: "devs s d = Some D" and D': "dev_ok s D'"
    and same: "dev_id D' = dev_id D" "dev_connections D' = dev_connections D"
    and t: "conns t = conns s" "devs t = (devs s)(d \<mapsto> D')" "clients t = clients s" "io_rest s t"
  shows "wf t"
proof -
  note r = io_restD [OF t(4)]
  have "tables_ok (conns t) (devs t) (clients t)"
    unfolding t(1-3) by (rule tables_upd_dev [OF wfD(5) [OF wf] D same])
  then show ?thesis
    by (rule wf_step [OF wf r(8,11) _ r(1)]) (use wfD [OF wf] t r D D' in \<open>auto split: if_splits\<close>)
qed

lemma calm_same: "calm s \<Longrightarrow> clients t = clients s \<Longrightarrow> calm t"
  by (simp add: calm_def)

lemma sound_io: "wf t \<Longrightarrow> calm t \<Longrightarrow> io_rest s t \<Longrightarrow> sound s t"
  by (simp add: sound_def safe_def io_rest_def)

lemma io_frame_sound:
  assumes wf: "wf s" and calm: "calm s" and t: "io_frame s t"
  shows "sound s t"
proof -
  note f = io_frameD [OF t] and r = io_restD [OF io_frameD(4) [OF t]]
  have "wf t"
    by (rule wf_step [OF wf r(8,11) _ r(1)]) (use wfD [OF wf] f r in auto)
  then show ?thesis using calm_same [OF calm f(3)] f(4) by (rule sound_io)
qed

lemma sent_on_sound:
  assumes wf: "wf s" and calm: "calm s" and C: "conns s k = Some C" and D: "devs s (conn_dev C) = Some D"
    and sent: "sent_on k C D s t"
  shows "sound s t"
proof -
  obtain D1 C1 where t: "io_rest s t" "clients t = clients s" "devs t = (devs s)(conn_dev C \<mapsto> D1)"
    "D1 = D \<or> D1 = seq_next D" "conns t = (conns s)(k \<mapsto> C1)" "C1 = C \<or> (\<exists>now. C1 = conn_acked now C)"
    by (rule sent_onE [OF sent])
  have ok: "conn_ok C" using session [OF wfD(5) [OF wf] C] by blast
  have C1: "conn_ok C1" "conn_dev C1 = conn_dev C" "conn_client C1 = conn_client C" "conn_sport C1 = conn_sport C"
    "conn_state C1 = conn_state C" using t(6) ok by auto
  have D1: "dev_ok s D1" "dev_id D1 = dev_id D" "dev_connections D1 = dev_connections D"
    using t(4) dev_ok_io [OF wfD(6) [OF wf D] refl] by auto
  define m where "m = s\<lparr>devs := (devs s)(conn_dev C \<mapsto> D1)\<rparr>"
  have "wf m" by (rule wf_upd_dev [OF wf D D1]) (simp_all add: m_def)
  then have "wf t"
    by (rule wf_upd_conn [OF _ _ C1]) (use t C in \<open>simp_all add: m_def\<close>)
  then show ?thesis using calm_same [OF calm t(2)] t(1) by (rule sound_io)
qed

section \<open>Flow control\<close>

text \<open>The mask goes to the client that is connected, or is kept for when it is.\<close>

definition polled :: "u16 \<Rightarrow> 'p mux_client \<Rightarrow> 'p mux_client" where
  "polled ev cl =
     (if cl_state cl = CLIENT_CONNECTED then cl\<lparr>cl_devents := ev, cl_events := ev\<rparr>
      else if cl_state cl = CLIENT_CONNECTING2 then cl\<lparr>cl_devents := ev\<rparr> else cl)"

lemma polled_simps [simp]:
  "cl_state (polled ev cl) = cl_state cl" "cl_connect_device (polled ev cl) = cl_connect_device cl"
  "cl_ob_capacity (polled ev cl) = cl_ob_capacity cl" "cl_fd (polled ev cl) = cl_fd cl"
  "client_ok cl \<Longrightarrow> client_ok (polled ev cl)"
  by (auto simp: polled_def client_ok_def cl_ob_ok_def)

lemma sendable_window_bound:
  "sendable_window C \<le> conn_max_payload C" "sendable_window C \<le> conn_ob_capacity C"
  by (auto simp: sendable_window_def Let_def not_less)

lemma refreshed_simps [simp]:
  "conn_dev (refreshed C) = conn_dev C" "conn_client (refreshed C) = conn_client C"
  "conn_state (refreshed C) = conn_state C" "conn_sport (refreshed C) = conn_sport C"
  "conn_ib_size (refreshed C) = conn_ib_size C" "conn_pending (refreshed C) = conn_pending C"
  "conn_sendable (refreshed C) = sendable_window C"
  "conn_tx_seq (refreshed C) = conn_tx_seq C" "conn_tx_ack (refreshed C) = conn_tx_ack C"
  by (simp_all add: refreshed_def Let_def conn_pending_def)

lemma refreshed_ok [simp]: "conn_ok C \<Longrightarrow> conn_ok (refreshed C)"
  using sendable_window_bound [of C] by (auto simp: refreshed_def Let_def conn_ok_def conn_ib_ok_def)

lemma wp_update_connection:
  assumes "conns s k = Some C" and "conn_client C = Some c" and "clients s c = Some cl"
  shows "wp (update_connection k) Q s =
     Q () (s\<lparr>conns := (conns s)(k \<mapsto> refreshed C), clients := (clients s)(c \<mapsto> polled (conn_events (refreshed C)) cl)\<rparr>)"
proof -
  have "(clients s)(c \<mapsto> cl) = clients s" using assms by auto
  then show ?thesis
    using assms by (simp add: update_connection_def client_set_events_def polled_def wp_rules) 
qed

lemma update_safe:
  assumes wf: "wf s" and C: "conns s k = Some C" "conn_client C = Some c" "clients s c = Some cl"
  shows "wp (update_connection k) (\<lambda>_ s'. safe s s' \<and> (calm s \<longrightarrow> calm s') \<and>
     conns s' k = Some (refreshed C) \<and> trace s' = trace s) s"
proof -
  define ev where "ev = conn_events (refreshed C)"
  define s1 where "s1 = s\<lparr>conns := (conns s)(k \<mapsto> refreshed C)\<rparr>"
  define s2 where "s2 = s\<lparr>conns := (conns s)(k \<mapsto> refreshed C), clients := (clients s)(c \<mapsto> polled ev cl)\<rparr>"
  have "conn_ok C" using session [OF wfD(5) [OF wf] C(1)] by blast
  then have "wf s1"
    by (intro wf_upd_conn [OF wf C(1), of "refreshed C"]) (simp_all add: s1_def)
  then have "wf s2"
    by (rule wf_upd_client [where c = c and cl = cl]) (use C wfD(7) [OF wf C(3)] in \<open>simp_all add: s1_def s2_def\<close>)
  then have "safe s s2" by (rule safe_io) (simp add: s2_def)
  moreover have "calm s \<longrightarrow> calm s2" using C(3) unfolding calm_def s2_def by auto
  ultimately show ?thesis
    unfolding wp_update_connection [OF C] by (simp add: s2_def ev_def)
qed

lemma update_sound:
  assumes "wf s" and "calm s" and "conns s k = Some C" "conn_client C = Some c" "clients s c = Some cl"
  shows "wp (update_connection k) (\<lambda>_ s'. sound s s' \<and> conns s' k = Some (refreshed C) \<and> trace s' = trace s) s"
  by (rule wp_mono [OF update_safe [OF assms(1,3-5)]]) (use assms(2) in \<open>simp add: sound_def\<close>)

section \<open>Between client and device\<close>

text \<open>A connection after \<open>m\<close> pending bytes went to the client.\<close>

definition drained :: "nat \<Rightarrow> mux_connection \<Rightarrow> mux_connection" where
  "drained m C = conn_ib_drop m (C\<lparr>conn_tx_ack := conn_tx_ack C + of_nat m\<rparr>)"

lemma drained_simps [simp]:
  "conn_dev (drained m C) = conn_dev C" "conn_client (drained m C) = conn_client C"
  "conn_state (drained m C) = conn_state C" "conn_sport (drained m C) = conn_sport C"
  "conn_tx_seq (drained m C) = conn_tx_seq C" "conn_tx_ack (drained m C) = conn_tx_ack C + of_nat m"
  "conn_sendable (drained m C) = conn_sendable C" "conn_ob_capacity (drained m C) = conn_ob_capacity C"
  by (simp_all add: drained_def)

lemma drained_ok:
  assumes "conn_ok C" and "m \<le> length (conn_pending C)"
  shows "conn_ok (drained m C)" "conn_pending (drained m C) = drop m (conn_pending C)"
proof -
  let ?C = "C\<lparr>conn_tx_ack := conn_tx_ack C + of_nat m\<rparr>"
  have "conn_ib_ok ?C" "m \<le> length (conn_pending ?C)"
    using assms by (auto simp: conn_ok_def conn_ib_ok_def conn_pending_def)
  then have "conn_ib_ok (drained m C)" "conn_pending (drained m C) = drop m (conn_pending ?C)"
    unfolding drained_def by (rule conn_q.drop_ok, rule conn_q.drop_content)
  then show "conn_ok (drained m C)" "conn_pending (drained m C) = drop m (conn_pending C)"
    using assms(1) by (auto simp: conn_ok_def drained_def conn_pending_def)
qed

lemma drained_0: "conn_ib_ok C \<Longrightarrow> drained 0 C = C"
  by (cases "conn_ib_size C = 0")
    (auto simp: drained_def conn_ib_drop_def Let_def memmove_down_def signed_eq_0_iff)

text \<open>The events of handing bytes to a client.\<close>

definition sent_to :: "int \<Rightarrow> bytes \<Rightarrow> event list" where
  "sent_to fd bs = (if bs = [] then [] else [SockSent fd bs])"

lemma wp_process_out:
  assumes wf: "wf s" and E: "world_ok E" and calm: "calm s" and free: "\<not> client_list_mutex s"
    and C: "conns s k = Some C" "conn_client C = Some c" "clients s c = Some cl"
  shows "wp (process_out E k events) (\<lambda>alive s'. sound s s' \<and>
     (if alive then \<exists>m \<le> length (conn_pending C). io_rest s s' \<and> conns s' = (conns s)(k \<mapsto> drained m C) \<and>
          devs s' = devs s \<and> clients s' = clients s \<and> trace s' = trace s @ sent_to (cl_fd cl) (take m (conn_pending C))
      else conns s' k = None)) s" (is "wp _ ?Q s")
proof -
  from E have sock: "sockets_ok E" by (simp add: world_ok_def)
  have ok: "conn_ok C" using session [OF wfD(5) [OF wf] C(1)] by blast
  have none: "?Q True s"
    using C ok drained_0 [of C] sound_refl [OF wf calm]
    by (auto intro!: exI [of _ 0] simp: sent_to_def conn_ok_def)
  have down: "wp (connection_teardown E k) (\<lambda>_. ?Q False) s1" if "io_frame s s1" for s1
  proof -
    note s1 = io_frame_sound [OF wf calm that]
    have C1: "conns s1 k = Some C" and free1: "\<not> client_list_mutex s1"
      using C io_frameD(1) [OF that] soundD(5) [OF s1] free by simp_all
    show ?thesis
      by (rule wp_mono [OF wp_teardown_sound [OF soundD(1) [OF s1] E soundD(2) [OF s1] C1 free1]])
        (use sound_trans [OF s1] in auto)
  qed
  have wr: "wp (client_write E c (conn_pending C)) (\<lambda>sz. wp (if sz \<le> 0
      then do { connection_teardown E k; ret False }
      else do { up_conn k (\<lambda>C. conn_ib_drop (nat sz) (C\<lparr>conn_tx_ack := conn_tx_ack C + word_of_int sz\<rparr>)); ret True }) ?Q) s"
  proof (rule wp_client_write [OF C(3) sock], goal_cases)
    case (1 s1)
    then have "io_frame s s1" by auto
    then show ?case using down [of s1] by (simp add: wp_rules wp_eta)
  next
    case 2
    then show ?case using down [of "ticked E s"] by (simp add: wp_rules wp_eta)
  next
    case (3 m)
    define s1 where "s1 = (ticked E s)\<lparr>trace := trace s @ [SockSent (cl_fd cl) (take m (conn_pending C))]\<rparr>"
    have s1: "io_frame s s1" by (simp add: s1_def io_frame_def)
    show ?case
    proof (cases "m = 0")
      case True
      then show ?thesis using down [OF s1] by (simp add: wp_rules wp_eta s1_def)
    next
      case False
      define s2 where "s2 = s1\<lparr>conns := (conns s)(k \<mapsto> drained m C)\<rparr>"
      have "wf s2"
        using drained_ok(1) [OF ok 3] by (intro wf_upd_conn [OF wf C(1), of "drained m C"]) (simp_all add: s2_def s1_def)
      then have "sound s s2"
        using calm_same [OF calm] by (intro sound_io) (simp_all add: s2_def s1_def)
      moreover have "take m (conn_pending C) \<noteq> []" using False 3 by (cases "conn_pending C") auto
      ultimately have "?Q True s2"
        using 3 by (auto intro!: exI [of _ m] simp: s2_def s1_def sent_to_def)
      then show ?thesis
        using C(1) False by (simp add: wp_rules s2_def s1_def drained_def)
    qed
  qed
  show ?thesis
    using C none wr by (simp add: process_out_def wp_rules)
qed

text \<open>The events of passing bytes of a client on to the device.\<close>

definition passed_on :: "int \<Rightarrow> mux_device \<Rightarrow> usb_device \<Rightarrow> mux_connection \<Rightarrow> bytes \<Rightarrow> event list" where
  "passed_on fd D u C bs =
     (if bs = [] then [] else SockRead fd bs # usb_packet (dev_usbdev D) u (tcp_packet D C TH_ACK bs))"

definition passed :: "bytes \<Rightarrow> u64 \<Rightarrow> mux_connection \<Rightarrow> mux_connection" where
  "passed bs now C = (if bs = [] then C else
     (conn_acked now (C\<lparr>conn_ob_buf := memcpy_at (conn_ob_buf C) 0 bs\<rparr>))\<lparr>conn_tx_seq := conn_tx_seq C + of_nat (length bs)\<rparr>)"

lemma passed_simps [simp]:
  "conn_dev (passed bs now C) = conn_dev C" "conn_client (passed bs now C) = conn_client C"
  "conn_state (passed bs now C) = conn_state C" "conn_sport (passed bs now C) = conn_sport C"
  "conn_tx_ack (passed bs now C) = conn_tx_ack C" "conn_pending (passed bs now C) = conn_pending C"
  "conn_tx_seq (passed bs now C) = conn_tx_seq C + of_nat (length bs)" "conn_ok (passed bs now C) = conn_ok C"
  by (simp_all add: passed_def conn_acked_def conn_pending_def conn_ok_def conn_ib_ok_def)

lemma wp_client_read:
  assumes "clients s c = Some cl" and "sockets_ok E"
    and "\<And>e s1. io_frame s s1 \<Longrightarrow> Q (Inl e) s1"
    and "\<And>bs. length bs \<le> unat len \<Longrightarrow> Q (Inr bs) ((ticked E s)\<lparr>trace := trace s @ [SockRead (cl_fd cl) bs]\<rparr>)"
  shows "wp (client_read E c len) Q s"
  using assms by (auto simp: client_read_def wp_rules sockets_ok_def split: sum.splits)

text \<open>A teardown at the end of a transition that was sound so far.\<close>

lemma wp_teardown_end:
  assumes s1: "sound s s1" and E: "world_ok E" and C: "conns s1 k = Some C" and free: "\<not> client_list_mutex s"
  shows "wp (connection_teardown E k) (\<lambda>_ s'. sound s s' \<and> conns s' k = None) s1"
proof -
  have free1: "\<not> client_list_mutex s1" using soundD(5) [OF s1] free by simp
  show ?thesis
    by (rule wp_mono [OF wp_teardown_sound [OF soundD(1) [OF s1] E soundD(2) [OF s1] C free1]])
      (use sound_trans [OF s1] in auto)
qed

lemma wp_pass_on:
  assumes wf: "wf s" and E: "world_ok E" and calm: "calm s" and free: "\<not> client_list_mutex s"
    and C: "conns s k = Some C" and D: "devs s (conn_dev C) = Some D" "udevs s (dev_usbdev D) = Some u"
    and bs: "bs \<noteq> []" "length bs \<le> unat MAX_PAYLOAD"
  shows "wp (do {
      up_conn k (\<lambda>C. C\<lparr>conn_ob_buf := memcpy_at (conn_ob_buf C) 0 bs\<rparr>);
      res \<leftarrow> send_tcp E k TH_ACK bs;
      if res < 0 then do { connection_teardown E k; ret False }
      else do {
        up_conn k (\<lambda>C. C\<lparr>conn_tx_seq := conn_tx_seq C + of_nat (length bs)\<rparr>);
        ret True
      } })
    (\<lambda>alive s'. sound s s' \<and>
      (if alive then \<exists>now. io_rest s s' \<and> conns s' = (conns s)(k \<mapsto> passed bs now C) \<and> clients s' = clients s \<and>
           trace s' = trace s @ usb_packet (dev_usbdev D) u (tcp_packet D C TH_ACK bs)
       else conns s' k = None)) s" (is "wp _ ?Q s")
proof -
  define C1 where "C1 = C\<lparr>conn_ob_buf := memcpy_at (conn_ob_buf C) 0 bs\<rparr>"
  define s1 where "s1 = s\<lparr>conns := (conns s)(k \<mapsto> C1)\<rparr>"
  have okC: "conn_ok C" using session [OF wfD(5) [OF wf] C] by blast
  then have ok: "conn_ok C1" "conn_dev C1 = conn_dev C" "conn_client C1 = conn_client C" "conn_sport C1 = conn_sport C"
    "conn_state C1 = conn_state C"
    by (auto simp: C1_def conn_ok_def conn_ib_ok_def)
  have pkt: "tcp_packet D C1 TH_ACK bs = tcp_packet D C TH_ACK bs"
    by (simp add: tcp_packet_def conn_tcphdr_def C1_def)
  have "wf s1" by (rule wf_upd_conn [OF wf C ok]) (simp_all add: s1_def)
  then have s1: "sound s s1" by (rule sound_io) (use calm_same [OF calm] in \<open>simp_all add: s1_def\<close>)
  have D1: "devs s1 (conn_dev C1) = Some D" "udevs s1 (dev_usbdev D) = Some u" "conns s1 k = Some C1"
    using D ok(2) by (simp_all add: s1_def)
  have send: "dev_sendable s1 D" using wfD(6) [OF soundD(1) [OF s1] D1(1)] by (simp add: dev_ok_def)
  have "wp (send_tcp E k TH_ACK bs) (\<lambda>res. wp (if res < 0 then do { connection_teardown E k; ret False }
      else do { up_conn k (\<lambda>C. C\<lparr>conn_tx_seq := conn_tx_seq C + of_nat (length bs)\<rparr>); ret True }) ?Q) s1"
  proof (rule wp_mono [OF wp_conj [OF wp_send_tcp [OF D1(3,1) send D1(2) bs(2)] wp_send_tcp_on [OF D1(3,1) send bs(2)]]], goal_cases)
    case (1 res s2)
    have s2: "sound s s2"
      using sent_on_sound [OF soundD(1,2) [OF s1] D1(3,1)] 1 sound_trans [OF s1] by blast
    show ?case
    proof (cases "res < 0")
      case True
      then have "conns s2 k = Some C1" using 1 D1(3) by simp
      from wp_teardown_end [OF s2 E this free] True show ?thesis by (simp add: wp_rules wp_eta)
    next
      case False
      with 1 obtain now where t: "conns s2 = (conns s)(k \<mapsto> conn_acked now C1)" "clients s2 = clients s" "io_rest s s2"
        "trace s2 = trace s @ usb_packet (dev_usbdev D) u (tcp_packet D C TH_ACK bs)"
        using pkt by (auto simp: s1_def)
      define s3 where "s3 = s2\<lparr>conns := (conns s)(k \<mapsto> passed bs now C)\<rparr>"
      have p: "(conn_acked now C1)\<lparr>conn_tx_seq := conn_tx_seq C1 + of_nat (length bs)\<rparr> = passed bs now C"
        using bs by (simp add: passed_def C1_def conn_acked_def)
      have "wf s3"
        by (rule wf_upd_conn [OF soundD(1) [OF s2], where k = k and C = "conn_acked now C1" and C' = "passed bs now C"])
          (use t okC in \<open>simp_all add: s3_def C1_def\<close>)
      then have "sound s s3"
        by (rule sound_io) (use t calm_same [OF calm] in \<open>simp_all add: s3_def\<close>)
      then have "?Q True s3" using t by (auto simp: s3_def)
      then show ?thesis using False t(1) p by (simp add: wp_rules s3_def)
    qed
  qed
  then show ?thesis using C by (simp add: wp_rules s1_def C1_def)
qed

lemma wp_process_in:
  assumes wf: "wf s" and E: "world_ok E" and calm: "calm s" and free: "\<not> client_list_mutex s"
    and C: "conns s k = Some C" "conn_client C = Some c" "clients s c = Some cl"
    and D: "devs s (conn_dev C) = Some D" "udevs s (dev_usbdev D) = Some u"
  shows "wp (process_in E k events) (\<lambda>alive s'. sound s s' \<and>
     (if alive then \<exists>bs now. io_rest s s' \<and> conns s' = (conns s)(k \<mapsto> passed bs now C) \<and> clients s' = clients s \<and>
          trace s' = trace s @ passed_on (cl_fd cl) D u C bs
      else conns s' k = None)) s" (is "wp _ ?Q s")
proof -
  from E have sock: "sockets_ok E" by (simp add: world_ok_def)
  have ok: "conn_ok C" using session [OF wfD(5) [OF wf] C(1)] by blast
  have cap: "conn_sendable C \<le> conn_ob_capacity C" "unat (conn_sendable C) \<le> unat MAX_PAYLOAD"
    using ok by (auto simp: conn_ok_def MAX_PAYLOAD_def CONN_OUTBUF_SIZE_def word_le_nat_alt)
  have triv: "(conns s)(k \<mapsto> C) = conns s" using C by auto
  have none: "?Q True s"
    using C sound_refl [OF wf calm] triv by (auto intro!: exI [of _ "[]"] simp: passed_on_def passed_def)
  have "wp (client_read E c (conn_sendable C)) (\<lambda>r. wp (case r of
         Inl e \<Rightarrow> do { connection_teardown E k; ret False }
       | Inr bs \<Rightarrow>
           if bs = [] then do { connection_teardown E k; ret False }
           else do {
             up_conn k (\<lambda>C. C\<lparr>conn_ob_buf := memcpy_at (conn_ob_buf C) 0 bs\<rparr>);
             res \<leftarrow> send_tcp E k TH_ACK bs;
             if res < 0 then do { connection_teardown E k; ret False }
             else do {
               up_conn k (\<lambda>C. C\<lparr>conn_tx_seq := conn_tx_seq C + of_nat (length bs)\<rparr>);
               ret True
             }
           }) ?Q) s"
  proof (rule wp_client_read [OF C(3) sock], goal_cases)
    case (1 e s1)
    have "conns s1 k = Some C" using io_frameD(1) [OF 1] C by simp
    from wp_teardown_end [OF io_frame_sound [OF wf calm 1] E this free] show ?case by (simp add: wp_rules wp_eta)
  next
    case (2 bs)
    define s1 where "s1 = (ticked E s)\<lparr>trace := trace s @ [SockRead (cl_fd cl) bs]\<rparr>"
    have s1: "io_frame s s1" by (simp add: s1_def io_frame_def)
    note sound1 = io_frame_sound [OF wf calm s1]
    have C1: "conns s1 k = Some C" "devs s1 (conn_dev C) = Some D" "udevs s1 (dev_usbdev D) = Some u" "\<not> client_list_mutex s1"
      using C D free by (simp_all add: s1_def)
    show ?case
    proof (cases "bs = []")
      case True
      with wp_teardown_end [OF sound1 E C1(1) free] show ?thesis by (simp add: wp_rules wp_eta s1_def)
    next
      case False
      have len: "length bs \<le> unat MAX_PAYLOAD" using 2 cap(2) by simp
      have post: "?Q alive s'" if "sound s1 s' \<and>
        (if alive then \<exists>now. io_rest s1 s' \<and> conns s' = (conns s1)(k \<mapsto> passed bs now C) \<and> clients s' = clients s1 \<and>
           trace s' = trace s1 @ usb_packet (dev_usbdev D) u (tcp_packet D C TH_ACK bs)
         else conns s' k = None)" for alive s'
        using that sound_trans [OF sound1, of s'] False
        by (cases alive) (auto intro!: exI [of _ bs] simp: s1_def passed_on_def)
      show ?thesis
        unfolding sum.case if_not_P [OF False] s1_def [symmetric]
        by (rule wp_mono [OF wp_pass_on [OF soundD(1) [OF sound1] E soundD(2) [OF sound1] C1(4,1,2,3) False len]])
          (rule post)
    qed
  qed
  then show ?thesis
    using C none cap by (simp add: process_in_def wp_rules)
qed

text \<open>
  One round for a client that talks to a device. Unless the connection is taken down, a
  prefix of the bytes from the device goes to the client and is counted as acknowledged,
  then what the client sent goes to the device in one packet and is counted as sent.
\<close>

definition served :: "int \<Rightarrow> mux_device \<Rightarrow> usb_device \<Rightarrow> ptr \<Rightarrow> mux_connection \<Rightarrow> 'p daemon \<Rightarrow> 'p daemon \<Rightarrow> bool" where
  "served fd D u k C s s' \<longleftrightarrow> (\<exists>m bs C'. conns s' k = Some C' \<and> m \<le> length (conn_pending C) \<and>
     conn_pending C' = drop m (conn_pending C) \<and> conn_tx_ack C' = conn_tx_ack C + of_nat m \<and>
     conn_tx_seq C' = conn_tx_seq C + of_nat (length bs) \<and>
     trace s' = trace s @ sent_to fd (take m (conn_pending C)) @ passed_on fd D u (drained m C) bs)"

lemma passed_on_core [simp]: "passed_on fd D (u\<lparr>ud_tx_xfers := xs\<rparr>) C bs = passed_on fd D u C bs"
  by (simp add: passed_on_def usb_packet_def)

lemma wp_serve:
  assumes wf: "wf s" and E: "world_ok E" and calm: "calm s" and free: "\<not> client_list_mutex s"
    and C: "conns s k = Some C" "conn_client C = Some c" "clients s c = Some cl"
    and D: "devs s (conn_dev C) = Some D" "udevs s (dev_usbdev D) = Some u"
  shows "wp (do { alive \<leftarrow> process_out E k events;
       if \<not> alive then skip
       else do { alive \<leftarrow> process_in E k events; whenM alive (update_connection k) } })
     (\<lambda>_ s'. sound s s' \<and> (conns s' k = None \<or> served (cl_fd cl) D u k C s s')) s" (is "wp _ ?Q s")
proof -
  have ok: "conn_ok C" using session [OF wfD(5) [OF wf] C(1)] by blast
  have "wp (process_out E k events) (\<lambda>alive. wp (if \<not> alive then skip
       else do { alive \<leftarrow> process_in E k events; whenM alive (update_connection k) }) ?Q) s"
  proof (rule wp_mono [OF wp_process_out [OF wf E calm free C]], goal_cases)
    case (1 alive s1)
    then have s1: "sound s s1" by blast
    show ?case
    proof (cases alive)
      case False
      then show ?thesis using 1 by (simp add: wp_rules)
    next
      case True
      with 1 obtain m where m: "m \<le> length (conn_pending C)" "io_rest s s1" "conns s1 = (conns s)(k \<mapsto> drained m C)"
        "devs s1 = devs s" "clients s1 = clients s" "trace s1 = trace s @ sent_to (cl_fd cl) (take m (conn_pending C))"
        by auto
      obtain xs where u1: "udevs s1 (dev_usbdev D) = Some (u\<lparr>ud_tx_xfers := xs\<rparr>)"
        using udev_core_SomeD [OF io_restD(8) [OF m(2)] D(2)] by blast
      have C1: "conns s1 k = Some (drained m C)" "conn_client (drained m C) = Some c" "clients s1 c = Some cl"
        "devs s1 (conn_dev (drained m C)) = Some D" "\<not> client_list_mutex s1"
        using m C D soundD(5) [OF s1] free by simp_all
      have "wp (process_in E k events) (\<lambda>alive. wp (whenM alive (update_connection k)) ?Q) s1"
      proof (rule wp_mono [OF wp_process_in [OF soundD(1) [OF s1] E soundD(2) [OF s1] C1(5,1,2,3,4) u1]], goal_cases)
        case (1 alive2 s2)
        have s2: "sound s s2" using 1 sound_trans [OF s1] by blast
        show ?case
        proof (cases alive2)
          case False
          then show ?thesis using 1 s2 by (simp add: wp_rules)
        next
          case True
          with 1 obtain bs now where p: "conns s2 = (conns s1)(k \<mapsto> passed bs now (drained m C))" "clients s2 = clients s1"
            "trace s2 = trace s1 @ passed_on (cl_fd cl) D u (drained m C) bs"
            by auto
          have C2: "conns s2 k = Some (passed bs now (drained m C))" "conn_client (passed bs now (drained m C)) = Some c"
            "clients s2 c = Some cl"
            using p C1 by simp_all
          have "?Q () s'" if "sound s2 s'" "conns s' k = Some (refreshed (passed bs now (drained m C)))" "trace s' = trace s2" for s'
            unfolding served_def using that sound_trans [OF s2 that(1)] m p drained_ok(2) [OF ok m(1)] by auto
          then have "wp (update_connection k) ?Q s2"
            by (intro wp_mono [OF update_sound [OF soundD(1,2) [OF s2] C2]]) auto
          then show ?thesis using True by (simp add: wp_rules)
        qed
      qed
      then show ?thesis using True by (simp add: wp_rules)
    qed
  qed
  then show ?thesis by (simp add: wp_rules)
qed

lemma wp_device_client_process:
  assumes wf: "wf s" and E: "world_ok E" and calm: "calm s" and free: "\<not> client_list_mutex s" "\<not> device_list_mutex s"
    and C: "conns s k = Some C" "conn_client C = Some c" "clients s c = Some cl"
    and D: "devs s (conn_dev C) = Some D" "udevs s (dev_usbdev D) = Some u"
  shows "wp (device_client_process E (cl_connect_device cl) c events)
     (\<lambda>_ s'. sound s s' \<and> (conns s' k = None \<or> served (cl_fd cl) D u k C s s')) s"
proof -
  have "lookup_ok (conns s) (devs s) (device_list s) (cl_connect_device cl) c k" by (rule wf_lookup [OF wf C])
  then show ?thesis
    unfolding device_client_process_def using wp_serve [OF wf E calm free(1) C D, of events] free
    by (simp add: wp_rules)
qed

end
