(* ===== verification/Tcp_Input.thy ===== *)
theory Tcp_Input
  imports Device_Inv
begin

text \<open>
  Packets from the device: the handshake and the data of a connection keep the invariant
  as long as the device does not send more than the in-buffer takes; when it does, the
  code uses the connection after it has freed it.
\<close>

section \<open>Acknowledging\<close>

lemma wf_upd_state:
  assumes wf: "wf s" and C: "conns s k = Some C" and C': "conn_ok C'"
    and same: "conn_dev C' = conn_dev C" "conn_client C' = conn_client C" "conn_sport C' = conn_sport C"
    and st: "\<And>cst. linked (conn_state C) cst \<Longrightarrow> linked (conn_state C') cst"
  shows "wf (s\<lparr>conns := (conns s)(k \<mapsto> C')\<rparr>)" (is "wf ?t")
proof -
  have "io_rest s ?t" by simp
  note r = io_restD [OF this]
  have "tables_ok (conns ?t) (devs ?t) (clients ?t)"
    using tables_upd_conn [OF wfD(5) [OF wf] C C' same] st by simp
  then show ?thesis
    by (rule wf_step [OF wf r(8,11) _ r(1)]) (use wfD [OF wf] r C in auto)
qed

text \<open>A send on a connection of a sound state; the connection stays, with or without the mark of an acknowledgement.\<close>

lemma wp_send_tcp_sound:
  assumes s1: "sound s s1" and C: "conns s1 k = Some C" and fits: "length data \<le> unat MAX_PAYLOAD"
  shows "wp (send_tcp E k flags data) (\<lambda>res s2. sound s s2 \<and> clients s2 = clients s1 \<and> io_rest s1 s2 \<and>
     (res < 0 \<longrightarrow> conns s2 k = Some C) \<and> (0 \<le> res \<longrightarrow> (\<exists>now. conns s2 = (conns s1)(k \<mapsto> conn_acked now C)))) s1"
proof -
  obtain D where D: "devs s1 (conn_dev C) = Some D"
    using session [OF wfD(5) [OF soundD(1) [OF s1]] C] by blast
  have send: "dev_sendable s1 D" using wfD(6) [OF soundD(1) [OF s1] D] by (simp add: dev_ok_def)
  show ?thesis
  proof (rule wp_mono [OF wp_send_tcp_on [OF C D send fits]], goal_cases)
    case (1 res s2)
    then have on: "sent_on k C D s1 s2" by blast
    have "sound s s2" by (rule sound_trans [OF s1 sent_on_sound [OF soundD(1,2) [OF s1] C D on]])
    moreover have "clients s2 = clients s1" "io_rest s1 s2" using on by (simp_all add: sent_on_def)
    ultimately show ?case using 1 C by auto
  qed
qed

lemma conn_client_wf:
  assumes "wf s" and "conns s k = Some C"
  obtains c cl where "conn_client C = Some c" "clients s c = Some cl" "linked (conn_state C) (cl_state cl)" "conn_ok C"
  using session [OF wfD(5) [OF assms(1)] assms(2)] by blast

lemma wp_send_tcp_ack:
  assumes s1: "sound s s1" and E: "world_ok E" and C: "conns s1 k = Some C" and free: "\<not> client_list_mutex s"
  shows "wp (send_tcp_ack E k) (\<lambda>_ s'. sound s s' \<and>
     (conns s' k = None \<or> (\<exists>C'. conns s' k = Some C' \<and> conn_pending C' = conn_pending C \<and> conn_state C' = conn_state C))) s1"
    (is "wp _ ?Q s1")
proof -
  have "wp (send_tcp E k TH_ACK []) (\<lambda>res. wp (if res < 0 then do { connection_teardown E k; ret (-1) }
      else do { update_connection k; ret 0 }) ?Q) s1"
  proof (rule wp_mono [OF wp_send_tcp_sound [OF s1 C]], goal_cases)
    case 1
    show ?case by simp
  next
    case (2 res s2)
    then have s2: "sound s s2" by blast
    show ?case
    proof (cases "res < 0")
      case True
      with 2 have "conns s2 k = Some C" by blast
      have "wp (connection_teardown E k) (\<lambda>_. ?Q (-1)) s2"
        by (rule wp_mono [OF wp_teardown_end [OF s2 E \<open>conns s2 k = Some C\<close> free]]) blast
      with True show ?thesis by (simp add: wp_rules wp_eta)
    next
      case False
      with 2 obtain now where k: "conns s2 k = Some (conn_acked now C)" by auto
      obtain c cl where c: "conn_client (conn_acked now C) = Some c" "clients s2 c = Some cl"
        using conn_client_wf [OF soundD(1) [OF s2] k] by blast
      have "wp (update_connection k) (\<lambda>_. ?Q 0) s2"
        by (rule wp_mono [OF update_sound [OF soundD(1,2) [OF s2] k c]])
          (use sound_trans [OF s2] in auto)
      with False show ?thesis by (simp add: wp_rules wp_eta)
    qed
  qed
  then show ?thesis by (simp add: send_tcp_ack_def wp_rules)
qed

section \<open>Data\<close>

definition fed :: "bytes \<Rightarrow> mux_connection \<Rightarrow> mux_connection" where
  "fed payload C = (conn_ib_put payload C)\<lparr>conn_rx_recvd := conn_rx_recvd C + of_nat (length payload)\<rparr>"

lemma fed_ok:
  assumes ok: "conn_ok C" and room: "conn_ib_room C payload"
  shows "conn_ok (fed payload C)" "conn_pending (fed payload C) = conn_pending C @ payload"
    "conn_client (fed payload C) = conn_client C" "conn_dev (fed payload C) = conn_dev C"
    "conn_sport (fed payload C) = conn_sport C" "conn_state (fed payload C) = conn_state C"
proof -
  have ib: "conn_ib_ok C" using ok by (simp add: conn_ok_def)
  show "conn_ok (fed payload C)"
    using ok conn_q.put_ok [OF ib room] by (simp add: fed_def conn_ok_def conn_ib_ok_def)
  show "conn_pending (fed payload C) = conn_pending C @ payload"
    using conn_q.put_content [OF ib room] by (simp add: fed_def conn_pending_def)
qed (simp_all add: fed_def)

lemma ib_check:
  assumes ok: "conn_ok C" and len: "length payload \<le> unat DEV_MRU"
  shows "conn_ib_size C + of_nat (length payload) > conn_ib_capacity C \<longleftrightarrow> \<not> conn_ib_room C payload"
proof -
  have "unat (conn_ib_size C) \<le> unat CONN_INBUF_SIZE" "conn_ib_capacity C = CONN_INBUF_SIZE"
    using ok by (auto simp: conn_ok_def conn_ib_ok_def)
  then have "unat (conn_ib_size C + of_nat (length payload)) = unat (conn_ib_size C) + length payload"
    using len by (intro unat_add_of_nat) (simp add: size_consts)
  then show ?thesis by (auto simp: conn_ib_room_def word_less_nat_alt)
qed

lemma wp_connection_device_input:
  assumes wf: "wf s" and calm: "calm s" and C: "conns s k = Some C" and len: "length payload \<le> unat DEV_MRU"
    and room: "conn_ib_room C payload"
  shows "wp (connection_device_input E k payload) (\<lambda>_ s'. sound s s' \<and>
     (\<exists>C'. conns s' k = Some C' \<and> conn_pending C' = conn_pending C @ payload \<and> conn_state C' = conn_state C)) s"
proof -
  obtain c cl where c: "conn_client C = Some c" "clients s c = Some cl" "conn_ok C"
    by (rule conn_client_wf [OF wf C])
  note f = fed_ok [OF c(3) room]
  define s1 where "s1 = s\<lparr>conns := (conns s)(k \<mapsto> fed payload C)\<rparr>"
  have "wf s1" by (rule wf_upd_conn [OF wf C f(1,4,3,5,6)]) (simp_all add: s1_def)
  then have s1: "sound s s1" using calm_same [OF calm] by (intro sound_io) (simp_all add: s1_def)
  have "wp (update_connection k) (\<lambda>_ s'. sound s s' \<and>
      (\<exists>C'. conns s' k = Some C' \<and> conn_pending C' = conn_pending C @ payload \<and> conn_state C' = conn_state C)) s1"
    by (rule wp_mono [OF update_sound [OF soundD(1,2) [OF s1], of k "fed payload C" c cl]])
      (use c f sound_trans [OF s1] in \<open>auto simp: s1_def\<close>)
  then show ?thesis
    using C ib_check [OF c(3) len] room
    by (simp add: connection_device_input_def wp_rules conn_ib_room_def s1_def fed_def [abs_def])
qed

text \<open>A packet of an open connection: data is appended in order and acknowledged, anything else ends it.\<close>

lemma wp_tcp_connected:
  assumes wf: "wf s" and E: "world_ok E" and calm: "calm s" and free: "\<not> client_list_mutex s"
    and C: "conns s k = Some C" "conn_state C = CONN_CONNECTED" and len: "length payload \<le> unat DEV_MRU"
    and room: "conn_ib_room C payload"
  shows "wp (tcp_connected E k th payload) (\<lambda>_ s'. sound s s' \<and> (conns s' k = None \<or>
     th_flags th = TH_ACK \<and> (\<exists>C'. conns s' k = Some C' \<and> conn_pending C' = conn_pending C @ payload))) s"
proof (cases "th_flags th = TH_ACK")
  case True
  have "wp (connection_device_input E k payload) (\<lambda>_. wp (send_tcp_ack E k) (\<lambda>_ s'. sound s s' \<and> (conns s' k = None \<or>
     th_flags th = TH_ACK \<and> (\<exists>C'. conns s' k = Some C' \<and> conn_pending C' = conn_pending C @ payload)))) s"
  proof (rule wp_mono [OF wp_connection_device_input [OF wf calm C(1) len room]], goal_cases)
    case (1 _ s1)
    then obtain C1 where s1: "sound s s1" "conns s1 k = Some C1" "conn_pending C1 = conn_pending C @ payload" by blast
    show ?case
      by (rule wp_mono [OF wp_send_tcp_ack [OF s1(1) E s1(2) free]]) (use True s1(3) in auto)
  qed
  with True show ?thesis by (simp add: tcp_connected_def wp_rules wp_eta)
next
  case False
  obtain c cl where c: "conn_client C = Some c" "clients s c = Some cl" "conn_ok C"
    by (rule conn_client_wf [OF wf C(1)])
  define C1 where "C1 = C\<lparr>conn_state := CONN_DYING\<rparr>"
  define s1 where "s1 = s\<lparr>conns := (conns s)(k \<mapsto> C1)\<rparr>"
  have "conn_ok C1" using c(3) by (auto simp: C1_def conn_ok_def conn_ib_ok_def)
  then have "wf s1"
    unfolding s1_def using C by (intro wf_upd_state [OF wf C(1)]) (simp_all add: C1_def)
  then have s1: "sound s s1" using calm_same [OF calm] by (intro sound_io) (simp_all add: s1_def)
  have "wp (connection_teardown E k) (\<lambda>_ s'. sound s s' \<and> conns s' k = None) s1"
    by (rule wp_teardown_end [OF s1 E _ free]) (simp add: s1_def)
  moreover have "wp (connection_teardown E k) (\<lambda>_ s'. sound s s' \<and> conns s' k = None) s"
    by (rule wp_teardown_end [OF sound_refl [OF wf calm] E C(1) free])
  ultimately show ?thesis
    using False C(1) by (auto simp: tcp_connected_def wp_rules s1_def C1_def elim!: wp_mono)
qed

section \<open>The handshake\<close>

text \<open>Telling the client that the connection is up makes it wait for its reply to go out.\<close>

lemma wf_established:
  assumes wf: "wf s" and E: "world_ok E" and calm: "calm s"
    and C: "conns s k = Some C" "conn_client C = Some c" "clients s c = Some cl" "conn_state C = CONN_CONNECTING"
    and t: "conns t = (conns s)(k \<mapsto> C\<lparr>conn_state := CONN_CONNECTED\<rparr>)" "devs t = devs s"
      "clients t = (clients s)(c \<mapsto> notified E RESULT_OK cl)" "io_rest s t"
  shows "wf t"
proof -
  note r = io_restD [OF t(4)]
  have rep: "replies_ok E" using E by (simp add: world_ok_def)
  obtain c1 cl1 where "conn_client C = Some c1" "clients s c1 = Some cl1" "linked (conn_state C) (cl_state cl1)" "conn_ok C"
    by (rule conn_client_wf [OF wf C(1)])
  with C have st: "conn_ok C" "cl_state cl = CLIENT_CONNECTING1" by simp_all
  then have small: "unat (cl_ob_capacity cl) < 2 ^ 31" using calm C(3) by (simp add: calm_def)
  have ok: "client_ok (notified E RESULT_OK cl)" by (rule notified_ok [OF rep wfD(7) [OF wf C(3)] st(2) small])
  have "conn_ok (C\<lparr>conn_state := CONN_CONNECTED\<rparr>)" using st(1) by (auto simp: conn_ok_def conn_ib_ok_def)
  then have "tables_ok (conns t) (devs t) (clients t)"
    unfolding t(1-3) by (intro tables_upd_session [OF wfD(5) [OF wf] C(1-3)]) simp_all
  then show ?thesis
    by (rule wf_step [OF wf r(8,11) _ r(1)]) (use wfD [OF wf] t r C ok in \<open>auto split: if_splits\<close>)
qed

lemma wp_establish:
  assumes s1: "sound s s1" and E: "world_ok E"
    and C: "conns s1 k = Some C" "conn_state C = CONN_CONNECTING"
  shows "wp (do {
       up_conn k (\<lambda>C. C\<lparr>conn_state := CONN_CONNECTED\<rparr>);
       C \<leftarrow> rd_conn k;
       c \<leftarrow> deref (conn_client C);
       r \<leftarrow> client_notify_connect E c RESULT_OK;
       whenM (r < 0) (do { up_conn k (\<lambda>C. C\<lparr>conn_client := None\<rparr>); connection_teardown E k });
       update_connection k })
     (\<lambda>_ s'. safe s s' \<and> (\<exists>C'. conns s' k = Some C' \<and> conn_state C' = CONN_CONNECTED)) s1"
proof -
  note wf = soundD(1) [OF s1] and calm = soundD(2) [OF s1]
  have rep: "replies_ok E" using E by (simp add: world_ok_def)
  obtain c cl where c: "conn_client C = Some c" "clients s1 c = Some cl" "linked (conn_state C) (cl_state cl)"
    by (rule conn_client_wf [OF wf C(1)])
  have st: "cl_state cl = CLIENT_CONNECTING1" using c(3) C(2) by simp
  have ob: "ob_calm cl"
    using calm c wfD(7) [OF wf c(2)] st unfolding calm_def ob_calm_def client_ok_def by simp
  define C2 where "C2 = C\<lparr>conn_state := CONN_CONNECTED\<rparr>"
  define s2 where "s2 = s1\<lparr>conns := (conns s1)(k \<mapsto> C2)\<rparr>"
  have "wp (client_notify_connect E c RESULT_OK) (\<lambda>r. wp (do {
       whenM (r < 0) (do { up_conn k (\<lambda>C. C\<lparr>conn_client := None\<rparr>); connection_teardown E k });
       update_connection k }) (\<lambda>_ s'. safe s s' \<and> (\<exists>C'. conns s' k = Some C' \<and> conn_state C' = CONN_CONNECTED))) s2"
  proof (rule wp_mono [OF wp_client_notify_connect [OF rep _ ob st]], goal_cases)
    case 1
    show ?case using c by (simp add: s2_def)
  next
    case (2 r s3)
    then have r: "r = 0" and "after_queue E c (notified E RESULT_OK cl) s2 s3" by simp_all
    note q = after_queueD [OF this(2)]
    have wf3: "wf s3"
      by (rule wf_established [OF wf E calm C(1) c(1,2) C(2)]) (use q in \<open>simp_all add: s2_def C2_def\<close>)
    have s3: "safe s s3"
      using safe_io [OF wf3, of s1] q(4) safe_trans [OF soundD(6) [OF s1]] by (simp add: s2_def)
    have k: "conns s3 k = Some C2" "conn_client C2 = Some c" "clients s3 c = Some (notified E RESULT_OK cl)"
      using q c by (simp_all add: s2_def C2_def)
    have "wp (update_connection k) (\<lambda>_ s'. safe s s' \<and> (\<exists>C'. conns s' k = Some C' \<and> conn_state C' = CONN_CONNECTED)) s3"
      by (rule wp_mono [OF update_safe [OF wf3 k]]) (use safe_trans [OF s3] in \<open>auto simp: C2_def\<close>)
    then show ?case using r by (simp add: wp_rules)
  qed
  then show ?thesis
    using C(1) c(1) by (simp add: wp_rules s2_def C2_def)
qed

lemma wp_tcp_connecting:
  assumes wf: "wf s" and E: "world_ok E" and calm: "calm s" and free: "\<not> client_list_mutex s"
    and C: "conns s k = Some C" "conn_state C = CONN_CONNECTING"
  shows "wp (tcp_connecting E k th) (\<lambda>_ s'. safe s s' \<and> (conns s' k = None \<or>
     th_flags th = TH_SYN OR TH_ACK \<and> (\<exists>C'. conns s' k = Some C' \<and> conn_state C' = CONN_CONNECTED))) s"
    (is "wp _ (\<lambda>_. ?Q) s")
proof (cases "th_flags th = TH_SYN OR TH_ACK")
  case True
  have ok: "conn_ok C" by (rule conn_client_wf [OF wf C(1)])
  define C1 where "C1 = C\<lparr>conn_tx_seq := conn_tx_seq C + 1, conn_tx_ack := conn_tx_ack C + 1, conn_rx_recvd := conn_rx_seq C\<rparr>"
  define s1 where "s1 = s\<lparr>conns := (conns s)(k \<mapsto> C1)\<rparr>"
  have "wf s1"
    by (rule wf_upd_conn [OF wf C(1), of C1]) (use ok in \<open>auto simp: s1_def C1_def conn_ok_def conn_ib_ok_def\<close>)
  then have s1: "sound s s1" using calm_same [OF calm] by (intro sound_io) (simp_all add: s1_def)
  have k1: "conns s1 k = Some C1" by (simp add: s1_def)
  have "wp (send_tcp E k TH_ACK []) (\<lambda>res. wp (if res < 0 then connection_teardown E k else do {
       up_conn k (\<lambda>C. C\<lparr>conn_state := CONN_CONNECTED\<rparr>);
       C \<leftarrow> rd_conn k;
       c \<leftarrow> deref (conn_client C);
       r \<leftarrow> client_notify_connect E c RESULT_OK;
       whenM (r < 0) (do { up_conn k (\<lambda>C. C\<lparr>conn_client := None\<rparr>); connection_teardown E k });
       update_connection k }) (\<lambda>_. ?Q)) s1"
  proof (rule wp_mono [OF wp_send_tcp_sound [OF s1 k1]], goal_cases)
    case 1
    show ?case by simp
  next
    case (2 res s2)
    then have s2: "sound s s2" by blast
    show ?case
    proof (cases "res < 0")
      case True
      with 2 have "conns s2 k = Some C1" by blast
      from wp_teardown_end [OF s2 E this free] True show ?thesis by (auto elim!: wp_mono dest: soundD(6))
    next
      case False
      with 2 obtain now where k: "conns s2 k = Some (conn_acked now C1)" by auto
      have st: "conn_state (conn_acked now C1) = CONN_CONNECTING" using C by (simp add: C1_def)
      from wp_establish [OF s2 E k st] False \<open>th_flags th = TH_SYN OR TH_ACK\<close>
      show ?thesis by (auto elim!: wp_mono)
    qed
  qed
  with True C(1) show ?thesis by (simp add: tcp_connecting_def wp_rules s1_def C1_def)
next
  case False
  have ok: "conn_ok C" by (rule conn_client_wf [OF wf C(1)])
  define C1 where "C1 = C\<lparr>conn_state := CONN_REFUSED\<rparr>"
  define s1 where "s1 = s\<lparr>conns := (conns s)(k \<mapsto> C1)\<rparr>"
  have "conn_ok C1" using ok by (auto simp: C1_def conn_ok_def conn_ib_ok_def)
  then have "wf s1"
    unfolding s1_def using C by (intro wf_upd_state [OF wf C(1)]) (simp_all add: C1_def)
  then have s1: "sound s s1" using calm_same [OF calm] by (intro sound_io) (simp_all add: s1_def)
  have "wp (connection_teardown E k) (\<lambda>_ s'. sound s s' \<and> conns s' k = None) s1"
    by (rule wp_teardown_end [OF s1 E _ free]) (simp add: s1_def)
  moreover have "wp (connection_teardown E k) (\<lambda>_ s'. sound s s' \<and> conns s' k = None) s"
    by (rule wp_teardown_end [OF sound_refl [OF wf calm] E C(1) free])
  ultimately show ?thesis
    using False C(1) by (auto simp: tcp_connecting_def wp_rules s1_def C1_def elim!: wp_mono dest: soundD(6))
qed

section \<open>A TCP packet\<close>

text \<open>The device has room for the packet: it goes to no open connection whose in-buffer it would overflow.\<close>

definition takes :: "'p daemon \<Rightarrow> ptr \<Rightarrow> tcphdr \<Rightarrow> bytes \<Rightarrow> bool" where
  "takes s d th payload \<longleftrightarrow> length payload \<le> unat DEV_MRU \<and> (\<forall>k C. conns s k = Some C \<longrightarrow> conn_dev C = d \<longrightarrow>
     conn_sport C = th_dport th \<longrightarrow> conn_dport C = th_sport th \<longrightarrow> conn_state C = CONN_CONNECTED \<longrightarrow> conn_ib_room C payload)"

lemma wp_send_anon_rst:
  assumes wf: "wf s" and calm: "calm s" and D: "devs s d = Some D"
  shows "wp (send_anon_rst E d sport dport ack) (\<lambda>_ s'. sound s s') s"
proof -
  have ok: "dev_ok s D" by (rule wfD(6) [OF wf D])
  then obtain u where u: "udevs s (dev_usbdev D) = Some u" by (auto simp: dev_ok_def dev_sendable_def)
  let ?h = "enc_tcphdr (tcphdr_zero\<lparr>th_sport := sport, th_dport := dport, th_ack := ack, th_flags := TH_RST\<rparr>)"
  have "wp (send_packet E d MUX_PROTO_TCP ?h []) (\<lambda>_ s'. sound s s') s"
  proof (rule wp_mono [OF wp_send_packet [OF D, of MUX_PROTO_TCP ?h "[]" u]], goal_cases)
    case (5 res t)
    then have t: "io_rest s t" "conns t = conns s" "clients t = clients s" "devs t = (devs s)(d \<mapsto> seq_next D)" by simp_all
    have "wf t"
      by (rule wf_upd_dev [OF wf D, of "seq_next D"]) (use t dev_ok_io(2) [OF ok refl] in simp_all)
    then show ?case using calm_same [OF calm t(3)] t(1) by (rule sound_io)
  qed (use ok u in \<open>simp_all add: dev_ok_def mux_header_size_def USB_MTU_def\<close>)
  then show ?thesis by (simp add: send_anon_rst_def)
qed

lemma wp_device_tcp_input:
  assumes wf: "wf s" and E: "world_ok E" and calm: "calm s" and free: "\<not> client_list_mutex s"
    and D: "devs s d = Some D" and fits: "takes s d th payload"
  shows "wp (device_tcp_input E d th payload) (\<lambda>_ s'. safe s s') s"
proof (cases "dev_state D = MUXDEV_ACTIVE")
  case False
  then show ?thesis using D soundD(6) [OF sound_refl [OF wf calm]] by (simp add: device_tcp_input_def wp_rules)
next
  case True
  then obtain ks where ks: "dev_connections D = Some ks"
    using wfD(6) [OF wf D] by (auto simp: dev_ok_def)
  define hit where "hit k = (conn_sport (the (conns s k)) = th_dport th \<and> conn_dport (the (conns s k)) = th_sport th)" for k
  have run: "run_state (do { C \<leftarrow> rd_conn k; ret (conn_sport C = th_dport th \<and> conn_dport C = th_sport th) }) s = (hit k, s)"
    if "k \<in> set ks" for k
    using tablesD_dev(2) [OF wfD(5) [OF wf] D ks that] by (auto simp: rd_heap_def hit_def)
  have rst: "wp (send_anon_rst E d a b q) (\<lambda>_ s'. safe s s') s" for a b q
    by (rule wp_mono [OF wp_send_anon_rst [OF wf calm D]]) (rule soundD(6))
  have conn: "wp (do {
      up_conn k (\<lambda>C. C\<lparr>conn_rx_seq := th_seq th, conn_rx_ack := th_ack th, conn_rx_win := push_bit 8 (ucast (th_win th))\<rparr>);
      C \<leftarrow> rd_conn k;
      case conn_state C of
        CONN_CONNECTING \<Rightarrow> tcp_connecting E k th
      | CONN_CONNECTED \<Rightarrow> tcp_connected E k th payload
      | _ \<Rightarrow> skip }) (\<lambda>_ s'. safe s s') s" if k: "k \<in> set ks" "hit k" for k
  proof -
    obtain C where C: "conns s k = Some C" "conn_dev C = d"
      using tablesD_dev(2) [OF wfD(5) [OF wf] D ks k(1)] by blast
    have ok: "conn_ok C" by (rule conn_client_wf [OF wf C(1)])
    define C1 where "C1 = C\<lparr>conn_rx_seq := th_seq th, conn_rx_ack := th_ack th, conn_rx_win := push_bit 8 (ucast (th_win th))\<rparr>"
    define s1 where "s1 = s\<lparr>conns := (conns s)(k \<mapsto> C1)\<rparr>"
    have "wf s1"
      by (rule wf_upd_conn [OF wf C(1), of C1]) (use ok in \<open>auto simp: s1_def C1_def conn_ok_def conn_ib_ok_def\<close>)
    then have s1: "sound s s1" using calm_same [OF calm] by (intro sound_io) (simp_all add: s1_def)
    have k1: "conns s1 k = Some C1" "\<not> client_list_mutex s1" using free by (simp_all add: s1_def)
    have room: "length payload \<le> unat DEV_MRU" "conn_state C1 = CONN_CONNECTED \<Longrightarrow> conn_ib_room C1 payload"
      using fits k(2) C by (auto simp: takes_def hit_def C1_def conn_ib_room_def)
    note safe1 = safe_trans [OF soundD(6) [OF s1]]
    have "wp (tcp_connecting E k th) (\<lambda>_ s'. safe s s') s1" if "conn_state C1 = CONN_CONNECTING"
      by (rule wp_mono [OF wp_tcp_connecting [OF soundD(1) [OF s1] E soundD(2) [OF s1] k1(2,1) that]]) (use safe1 in blast)
    moreover have "wp (tcp_connected E k th payload) (\<lambda>_ s'. safe s s') s1" if "conn_state C1 = CONN_CONNECTED"
      by (rule wp_mono [OF wp_tcp_connected [OF soundD(1) [OF s1] E soundD(2) [OF s1] k1(2,1) that room(1) room(2) [OF that]]])
        (use safe1 soundD(6) in blast)
    ultimately have "wp (case conn_state C1 of
        CONN_CONNECTING \<Rightarrow> tcp_connecting E k th
      | CONN_CONNECTED \<Rightarrow> tcp_connected E k th payload
      | _ \<Rightarrow> skip) (\<lambda>_ s'. safe s s') s1"
      using soundD(6) [OF s1] by (cases "conn_state C1") (simp_all add: wp_rules)
    then show ?thesis using C(1) by (simp add: wp_rules s1_def C1_def)
  qed
  show ?thesis
    using True D ks rst conn soundD(6) [OF sound_refl [OF wf calm]]
    by (auto simp: device_tcp_input_def wp_rules wp_eta wp_find_m_pure [OF run] find_Some_iff)
qed

end
