(* ===== verification/Conf.thy ===== *)
theory Conf
  imports Calculus
begin

text \<open>
  \<^verbatim>\<open>conf.c\<close>: the configuration directory, the system BUID and the pairing records. The
  file system is a set of directories and a map from paths to contents; which paths the
  process may not write is a parameter. Parsing and printing property lists, joining
  strings and reading a whole file into a buffer are library functions.
\<close>

section \<open>Files\<close>

definition gets_fs :: "(fsys \<Rightarrow> 'a) \<Rightarrow> ('p, 'a) mux" where
  "gets_fs f = gets (\<lambda>s. f (fsys (misc s)))"

definition mod_fs :: "(fsys \<Rightarrow> fsys) \<Rightarrow> ('p, unit) mux" where
  "mod_fs f = modify (\<lambda>s. s\<lparr>misc := (misc s)\<lparr>fsys := f (fsys (misc s))\<rparr>\<rparr>)"

definition dirname :: "string \<Rightarrow> string" where
  "dirname path =
     (let r = dropWhile (\<lambda>c. c = CHR ''/'') (rev path);
          q = dropWhile (\<lambda>c. c \<noteq> CHR ''/'') r;
          p = dropWhile (\<lambda>c. c = CHR ''/'') q
      in if r = [] then (if path = [] then ''.'' else ''/'')
         else if q = [] then ''.''
         else if p = [] then ''/'' else rev p)"

definition fs_exists :: "fsys \<Rightarrow> string \<Rightarrow> bool" where
  "fs_exists f path \<longleftrightarrow> path \<in> fs_dirs f \<or> fs_files f path \<noteq> None"

definition mkdir_err :: "'p ext \<Rightarrow> fsys \<Rightarrow> string \<Rightarrow> int" where
  "mkdir_err E f dir =
     (if fs_exists f dir then EEXIST
      else if dirname dir \<notin> fs_dirs f then ENOENT
      else if os_denied E dir then EACCES
      else 0)"

definition fs_mkdir :: "'p ext \<Rightarrow> string \<Rightarrow> ('p, int) mux" where
  "fs_mkdir E dir = do {
     err \<leftarrow> gets_fs (\<lambda>f. mkdir_err E f dir);
     whenM (err = 0) (mod_fs (\<lambda>f. f\<lparr>fs_dirs := insert dir (fs_dirs f)\<rparr>));
     ret err
   }"

definition fs_write :: "'p ext \<Rightarrow> string \<Rightarrow> bytes \<Rightarrow> ('p, bool) mux" where
  "fs_write E path content = do {
     ok \<leftarrow> gets_fs (\<lambda>f. path \<notin> fs_dirs f \<and> dirname path \<in> fs_dirs f \<and> \<not> os_denied E path);
     whenM ok (mod_fs (\<lambda>f. f\<lparr>fs_files := (fs_files f)(path \<mapsto> content)\<rparr>));
     ret ok
   }"

definition fs_remove :: "'p ext \<Rightarrow> string \<Rightarrow> ('p, int) mux" where
  "fs_remove E path = do {
     err \<leftarrow> gets_fs (\<lambda>f. if fs_files f path = None then ENOENT else if os_denied E path then EACCES else 0);
     whenM (err = 0) (mod_fs (\<lambda>f. f\<lparr>fs_files := (fs_files f)(path := None)\<rparr>));
     ret err
   }"

definition plist_read_from_file :: "'p ext \<Rightarrow> string \<Rightarrow> ('p, 'p option) mux" where
  "plist_read_from_file E path = gets_fs (\<lambda>f. Option.bind (fs_files f path) (plist_from_memory E))"

definition plist_write_to_file :: "'p ext \<Rightarrow> 'p \<Rightarrow> string \<Rightarrow> ('p, bool) mux" where
  "plist_write_to_file E plist path = (case plist_to_xml E plist of
       None \<Rightarrow> ret False
     | Some xml \<Rightarrow> fs_write E path xml)"

section \<open>The configuration directory\<close>

definition strip_seps :: "string \<Rightarrow> string" where
  "strip_seps path = (case path of
       [] \<Rightarrow> []
     | c # cs \<Rightarrow> c # rev (dropWhile (\<lambda>c. c = CHR ''/'') (rev cs)))"

definition config_get_config_dir :: "'p ext \<Rightarrow> ('p, string) mux" where
  "config_get_config_dir E = do {
     known \<leftarrow> gets_fs fs_config_dir;
     case known of
       Some dir \<Rightarrow> ret dir
     | None \<Rightarrow> do {
         let dir = strip_seps (string_concat E [''/var/lib'', ''/'', ''lockdown'']);
         mod_fs (\<lambda>f. f\<lparr>fs_config_dir := Some dir\<rparr>);
         ret dir
       }
   }"

text \<open>The recursion goes to the parent directory; a path as long as the bound always ends it.\<close>

fun mkdir_loop :: "nat \<Rightarrow> 'p ext \<Rightarrow> string \<Rightarrow> ('p, int) mux" where
  "mkdir_loop 0 E dir = do { raise_fault Diverges; ret (-1) }"
| "mkdir_loop (Suc n) E dir = do {
     err \<leftarrow> fs_mkdir E dir;
     if err = 0 then ret 0
     else if err = EEXIST then ret 0
     else mkdir_loop n E (dirname dir)
   }"

definition mkdir_with_parents :: "'p ext \<Rightarrow> string \<Rightarrow> ('p, int) mux" where
  "mkdir_with_parents E dir = mkdir_loop (length dir + 2) E dir"

definition config_create_config_dir :: "'p ext \<Rightarrow> ('p, int) mux" where
  "config_create_config_dir E = do {
     dir \<leftarrow> config_get_config_dir E;
     there \<leftarrow> gets_fs (\<lambda>f. fs_exists f dir);
     if there then ret 0 else mkdir_with_parents E dir
   }"

definition config_set_config_dir :: "'p ext \<Rightarrow> string \<Rightarrow> ('p, int) mux" where
  "config_set_config_dir E path = do {
     mod_fs (\<lambda>f. f\<lparr>fs_config_dir := Some path\<rparr>);
     config_create_config_dir E
   }"

definition config_path :: "'p ext \<Rightarrow> string \<Rightarrow> ('p, string) mux" where
  "config_path E name = do {
     dir \<leftarrow> config_get_config_dir E;
     ret (string_concat E [dir, ''/'', name])
   }"

definition CONFIG_FILE :: string where "CONFIG_FILE = ''SystemConfiguration.plist''"

text \<open>The file of a pairing record, named by the identifier of the device.\<close>

definition record_path :: "'p ext \<Rightarrow> string \<Rightarrow> ('p, string) mux" where
  "record_path E udid = do {
     dir \<leftarrow> config_get_config_dir E;
     ret (string_concat E [dir, ''/'', udid, ''.plist''])
   }"

section \<open>Values in a property list file\<close>

definition internal_set_value :: "'p ext \<Rightarrow> string \<Rightarrow> string \<Rightarrow> 'p \<Rightarrow> ('p, bool) mux" where
  "internal_set_value E config_file key value = do {
     config \<leftarrow> plist_read_from_file E config_file;
     config \<leftarrow> (case config of
        None \<Rightarrow> ret (plist_dict_set_item E (plist_new_dict E) key value)
      | Some config \<Rightarrow> do {
          let config = (if plist_dict_get_item E config key \<noteq> None
                        then plist_dict_remove_item E config key else config);
          fs_remove E config_file;
          ret (plist_dict_set_item E config key value)
        });
     plist_write_to_file E config config_file
   }"

definition config_set_value :: "'p ext \<Rightarrow> string \<Rightarrow> 'p \<Rightarrow> ('p, int) mux" where
  "config_set_value E key value = do {
     r \<leftarrow> config_create_config_dir E;
     if r < 0 then ret (-1)
     else do {
       config_file \<leftarrow> config_path E CONFIG_FILE;
       ok \<leftarrow> internal_set_value E config_file key value;
       ret (if ok then 1 else 0)
     }
   }"

definition internal_get_value :: "'p ext \<Rightarrow> string \<Rightarrow> string \<Rightarrow> ('p, 'p option) mux" where
  "internal_get_value E config_file key = do {
     config \<leftarrow> plist_read_from_file E config_file;
     ret (case config of None \<Rightarrow> None | Some config \<Rightarrow> plist_dict_get_item E config key)
   }"

definition string_value :: "'p ext \<Rightarrow> 'p option \<Rightarrow> string option" where
  "string_value E value = (case value of
       None \<Rightarrow> None
     | Some v \<Rightarrow> if plist_get_node_type E v = PLIST_STRING then plist_get_string_val E v else None)"

section \<open>The system BUID\<close>

definition uuid_chars :: string where "uuid_chars = ''ABCDEF0123456789''"

fun uuid_from :: "'p ext \<Rightarrow> nat list \<Rightarrow> ('p, string) mux" where
  "uuid_from E [] = ret []"
| "uuid_from E (i # is) = do {
     c \<leftarrow> (if i = 8 \<or> i = 13 \<or> i = 18 \<or> i = 23 then ret (CHR ''-'')
         else do { t \<leftarrow> tick E; ret (uuid_chars ! (os_rand E t mod (16 - 0) + 0)) });
     cs \<leftarrow> uuid_from E is;
     ret (c # cs)
   }"

definition config_generate_uuid :: "'p ext \<Rightarrow> ('p, string) mux" where
  "config_generate_uuid E = uuid_from E [0..<36]"

definition config_get_system_buid :: "'p ext \<Rightarrow> ('p, string) mux" where
  "config_get_system_buid E = do {
     config_file \<leftarrow> config_path E CONFIG_FILE;
     value \<leftarrow> internal_get_value E config_file ''SystemBUID'';
     case string_value E value of
       Some buid \<Rightarrow> ret buid
     | None \<Rightarrow> do {
         buid \<leftarrow> config_generate_uuid E;
         config_set_value E ''SystemBUID'' (plist_new_string E buid);
         ret buid
       }
   }"

section \<open>Pairing records\<close>

definition is_alnum :: "char \<Rightarrow> bool" where
  "is_alnum c \<longleftrightarrow> (let n = of_char c :: nat in
     48 \<le> n \<and> n \<le> 57 \<or> 65 \<le> n \<and> n \<le> 90 \<or> 97 \<le> n \<and> n \<le> 122)"

definition udid_valid :: "string \<Rightarrow> bool" where
  "udid_valid udid \<longleftrightarrow> list_all (\<lambda>c. is_alnum c \<or> c = CHR ''-'') udid"

definition config_has_device_record :: "'p ext \<Rightarrow> string option \<Rightarrow> ('p, int) mux" where
  "config_has_device_record E udid = (case udid of
       None \<Rightarrow> ret 0
     | Some udid \<Rightarrow> do {
         r \<leftarrow> config_create_config_dir E;
         if r < 0 then ret (-1)
         else do {
           file \<leftarrow> record_path E udid;
           there \<leftarrow> gets_fs (\<lambda>f. fs_files f file \<noteq> None);
           ret (if there then 1 else 0)
         }
       })"

definition config_set_device_record :: "'p ext \<Rightarrow> string \<Rightarrow> bytes \<Rightarrow> ('p, int) mux" where
  "config_set_device_record E udid record_data =
     (if length record_data < 8 then ret (- EINVAL)
      else if \<not> udid_valid udid then ret (- EINVAL)
      else case plist_from_memory E record_data of
        None \<Rightarrow> ret (- EINVAL)
      | Some plist \<Rightarrow>
          if plist_get_node_type E plist \<noteq> PLIST_DICT then ret (- EINVAL)
          else do {
            r \<leftarrow> config_create_config_dir E;
            if r < 0 then ret (-1)
            else do {
              file \<leftarrow> record_path E udid;
              fs_remove E file;
              ok \<leftarrow> plist_write_to_file E plist file;
              ret (if ok then 0 else - ENOENT)
            }
          })"

definition config_get_device_record :: "'p ext \<Rightarrow> string \<Rightarrow> ('p, int \<times> bytes option) mux" where
  "config_get_device_record E udid = do {
     r \<leftarrow> config_create_config_dir E;
     if r < 0 then ret (-1, None)
     else do {
       file \<leftarrow> record_path E udid;
       record_data \<leftarrow> gets_fs (\<lambda>f. Option.bind (fs_files f file) (buffer_read E));
       ret (if record_data = None then - ENOENT else 0, record_data)
     }
   }"

definition config_remove_device_record :: "'p ext \<Rightarrow> string \<Rightarrow> ('p, int) mux" where
  "config_remove_device_record E udid = do {
     file \<leftarrow> record_path E udid;
     err \<leftarrow> fs_remove E file;
     ret (- err)
   }"

definition config_device_record_get_host_id :: "'p ext \<Rightarrow> string \<Rightarrow> ('p, string option) mux" where
  "config_device_record_get_host_id E udid = do {
     file \<leftarrow> record_path E udid;
     value \<leftarrow> internal_get_value E file ''HostID'';
     ret (string_value E value)
   }"

end
