(* ===== verification/Client_Cmd.thy ===== *)
theory Client_Cmd
  imports Device Conf
begin

text \<open>
  The commands of a client (\<^verbatim>\<open>client.c\<close>): the replies, the dispatch of a message, the
  input and output buffers, and the life cycle of a client.
\<close>

section \<open>Replies\<close>

fun digits :: "nat \<Rightarrow> string" where
  "digits n = (if n < 10 then [char_of (48 + n)] else digits (n div 10) @ [char_of (48 + n mod 10)])"

definition plist_append_all :: "'p ext \<Rightarrow> 'p list \<Rightarrow> 'p" where
  "plist_append_all E = foldl (plist_array_append_item E) (plist_new_array E)"

fun attached_plists :: "'p ext \<Rightarrow> device_info list \<Rightarrow> ('p, 'p list) mux" where
  "attached_plists E [] = ret []"
| "attached_plists E (i # is) = do {
     p \<leftarrow> create_device_attached_plist E i;
     ps \<leftarrow> attached_plists E is;
     ret (p # ps)
   }"

definition send_device_list :: "'p ext \<Rightarrow> ptr \<Rightarrow> u32 \<Rightarrow> ('p, int) mux" where
  "send_device_list E c tag = do {
     infos \<leftarrow> device_get_list False;
     ps \<leftarrow> attached_plists E infos;
     send_plist E c tag (plist_dict_set_item E (plist_new_dict E) ''DeviceList'' (plist_append_all E ps))
   }"

text \<open>
  The entry of a listener \<open>lc\<close>. Its identifier starts with the number of the client that
  asks (\<open>number\<close>), not of the listener.
\<close>

definition info_item :: "'p ext \<Rightarrow> 'p mux_client \<Rightarrow> string \<Rightarrow> 'p option" where
  "info_item E lc key = (case cl_info lc of None \<Rightarrow> None | Some i \<Rightarrow> plist_dict_get_item E i key)"

definition listener_entry :: "'p ext \<Rightarrow> u32 \<Rightarrow> 'p mux_client \<Rightarrow> 'p" where
  "listener_entry E number lc =
     (let l = plist_dict_set_item E (plist_new_dict E) ''Blacklisted'' (plist_new_bool E False);
          l = (case cl_info lc of None \<Rightarrow> l | Some i \<Rightarrow> plist_dict_copy_item E l i ''BundleID'');
          progname = (case Option.bind (info_item E lc ''ProgName'') (plist_get_string_val E) of
                        None \<Rightarrow> ''unknown'' | Some p \<Rightarrow> p);
          version = (case Option.bind (info_item E lc ''kLibUSBMuxVersion'') (plist_get_uint_val E) of
                        None \<Rightarrow> 0 | Some v \<Rightarrow> v)
      in plist_set_all E l
           [(''ConnType'', plist_new_uint E 0),
            (''ID String'', plist_new_string E (digits (unat number) @ ''-'' @ progname)),
            (''ProgName'', plist_new_string E progname),
            (''kLibUSBMuxVersion'', plist_new_uint E version)])"

definition send_listener_list :: "'p ext \<Rightarrow> ptr \<Rightarrow> u32 \<Rightarrow> ('p, int) mux" where
  "send_listener_list E c tag = do {
     lock_clients;
     l \<leftarrow> gets client_list;
     cl \<leftarrow> rd_client c;
     ps \<leftarrow> fold_m (\<lambda>ps p. do {
       lc \<leftarrow> rd_client p;
       ret (if cl_state lc = CLIENT_LISTEN then ps @ [listener_entry E (cl_number cl) lc] else ps)
     }) [] l;
     unlock_clients;
     send_plist E c tag (plist_dict_set_item E (plist_new_dict E) ''ListenerList'' (plist_append_all E ps))
   }"

definition send_system_buid :: "'p ext \<Rightarrow> ptr \<Rightarrow> u32 \<Rightarrow> ('p, int) mux" where
  "send_system_buid E c tag = do {
     buid \<leftarrow> config_get_system_buid E;
     send_plist E c tag (plist_dict_set_item E (plist_new_dict E) ''BUID'' (plist_new_string E buid))
   }"

definition send_pair_record :: "'p ext \<Rightarrow> ptr \<Rightarrow> u32 \<Rightarrow> string option \<Rightarrow> ('p, int) mux" where
  "send_pair_record E c tag record_id = (case record_id of
       None \<Rightarrow> send_result E c tag (word_of_int EINVAL)
     | Some udid \<Rightarrow> do {
         r \<leftarrow> config_get_device_record E udid;
         case snd r of
           Some data \<Rightarrow> send_plist E c tag
             (plist_dict_set_item E (plist_new_dict E) ''PairRecordData'' (plist_new_data E data))
         | None \<Rightarrow> send_result E c tag (word_of_int ENOENT)
       })"

fun send_adds :: "'p ext \<Rightarrow> ptr \<Rightarrow> device_info list \<Rightarrow> ('p, bool) mux" where
  "send_adds E c [] = ret True"
| "send_adds E c (i # is) = do {
     r \<leftarrow> send_device_add E c i;
     if r < 0 then ret False else send_adds E c is
   }"

definition start_listen :: "'p ext \<Rightarrow> ptr \<Rightarrow> ('p, int) mux" where
  "start_listen E c = do {
     up_client c (\<lambda>cl. cl\<lparr>cl_state := CLIENT_LISTEN\<rparr>);
     infos \<leftarrow> device_get_list False;
     ok \<leftarrow> send_adds E c infos;
     ret (if ok then int (length infos) else -1)
   }"

section \<open>Commands\<close>

definition plist_dict_get_string_val :: "'p ext \<Rightarrow> 'p \<Rightarrow> string \<Rightarrow> string option" where
  "plist_dict_get_string_val E dict key =
     (if plist_get_node_type E dict \<noteq> PLIST_DICT then None
      else case plist_dict_get_item E dict key of
        None \<Rightarrow> None
      | Some item \<Rightarrow> if plist_get_node_type E item \<noteq> PLIST_STRING then None else plist_get_string_val E item)"

definition update_client_info :: "'p ext \<Rightarrow> ptr \<Rightarrow> 'p \<Rightarrow> ('p, unit) mux" where
  "update_client_info E c dict =
     up_client c (\<lambda>cl. cl\<lparr>cl_info := Some (foldl (\<lambda>i key. plist_dict_copy_item E i dict key) (plist_new_dict E)
       [''BundleID'', ''ClientVersionString'', ''ProgName'', ''kLibUSBMuxVersion''])\<rparr>)"

text \<open>A reply whose only failure is that it could not be queued.\<close>

definition done_unless :: "('p, int) mux \<Rightarrow> ('p, int) mux" where
  "done_unless m = do { r \<leftarrow> m; ret (if r < 0 then -1 else 0) }"

definition ntohs :: "u16 \<Rightarrow> u16" where
  "ntohs w = join16 (ucast w) (ucast (drop_bit 8 w))"

definition uint_or_zero :: "'p ext \<Rightarrow> 'p \<Rightarrow> u64" where
  "uint_or_zero E n = (case plist_get_uint_val E n of None \<Rightarrow> 0 | Some v \<Rightarrow> v)"

definition begin_connect :: "'p ext \<Rightarrow> ptr \<Rightarrow> u32 \<Rightarrow> u32 \<Rightarrow> u16 \<Rightarrow> ('p, int) mux" where
  "begin_connect E c tag device_id port = do {
     res \<leftarrow> device_start_connect E device_id (ntohs port) c;
     if res < 0 then done_unless (send_result E c tag (word_of_int (- res)))
     else do {
       up_client c (\<lambda>cl. cl\<lparr>cl_connect_tag := tag, cl_connect_device := device_id,
         cl_state := CLIENT_CONNECTING1\<rparr>);
       ret 0
     }
   }"

definition connect_command :: "'p ext \<Rightarrow> ptr \<Rightarrow> u32 \<Rightarrow> 'p \<Rightarrow> ('p, int) mux" where
  "connect_command E c tag dict = (case plist_dict_get_item E dict ''DeviceID'' of
       None \<Rightarrow> done_unless (send_result E c tag (result_num RESULT_BADDEV))
     | Some n \<Rightarrow> (case plist_dict_get_item E dict ''PortNumber'' of
           None \<Rightarrow> done_unless (send_result E c tag (result_num RESULT_BADCOMMAND))
         | Some m \<Rightarrow> begin_connect E c tag (ucast (uint_or_zero E n)) (ucast (uint_or_zero E m))))"

definition notify_paired :: "'p ext \<Rightarrow> 'p \<Rightarrow> string \<Rightarrow> ('p, unit) mux" where
  "notify_paired E dict record_id =
     (let dev_id = (case plist_dict_get_item E dict ''DeviceID'' of
            None \<Rightarrow> 0
          | Some n \<Rightarrow> if plist_get_node_type E n = PLIST_UINT then ucast (uint_or_zero E n) else 0) :: u32
      in whenM (0 < dev_id) (do {
        infos \<leftarrow> device_get_list True;
        assert_m NullDeref (list_all (\<lambda>i. di_id i = dev_id \<longrightarrow> di_serial i \<noteq> None) infos);
        whenM (list_ex (\<lambda>i. di_id i = dev_id \<and> di_serial i = Some record_id) infos)
          (client_device_paired E dev_id)
      }))"

definition save_pair_record :: "'p ext \<Rightarrow> ptr \<Rightarrow> u32 \<Rightarrow> 'p \<Rightarrow> ('p, int) mux" where
  "save_pair_record E c tag dict = do {
     let record_id = plist_dict_get_string_val E dict ''PairRecordID'';
     let record_data = (case plist_dict_get_item E dict ''PairRecordData'' of
            None \<Rightarrow> None
          | Some n \<Rightarrow> if plist_get_node_type E n = PLIST_DATA then plist_get_data_val E n else None);
     rval \<leftarrow> (case (record_id, record_data) of
         (Some udid, Some data) \<Rightarrow> do {
           res \<leftarrow> config_set_device_record E udid data;
           if res < 0 then ret (- res) else do { notify_paired E dict udid; ret 0 }
         }
       | _ \<Rightarrow> ret EINVAL);
     done_unless (send_result E c tag (word_of_int rval))
   }"

definition delete_pair_record :: "'p ext \<Rightarrow> ptr \<Rightarrow> u32 \<Rightarrow> 'p \<Rightarrow> ('p, int) mux" where
  "delete_pair_record E c tag dict = do {
     rval \<leftarrow> (case plist_dict_get_string_val E dict ''PairRecordID'' of
         Some udid \<Rightarrow> do { res \<leftarrow> config_remove_device_record E udid; ret (if res < 0 then - res else 0) }
       | None \<Rightarrow> ret EINVAL);
     done_unless (send_result E c tag (word_of_int rval))
   }"

definition plist_command :: "'p ext \<Rightarrow> ptr \<Rightarrow> u32 \<Rightarrow> 'p \<Rightarrow> string \<Rightarrow> ('p, int) mux" where
  "plist_command E c tag dict message =
     (if message = ''Listen'' then do {
        r \<leftarrow> send_result E c tag 0;
        if r < 0 then ret (-1) else start_listen E c
      }
      else if message = ''Connect'' then connect_command E c tag dict
      else if message = ''ListDevices'' then done_unless (send_device_list E c tag)
      else if message = ''ListListeners'' then done_unless (send_listener_list E c tag)
      else if message = ''ReadBUID'' then done_unless (send_system_buid E c tag)
      else if message = ''ReadPairRecord'' then
        done_unless (send_pair_record E c tag (plist_dict_get_string_val E dict ''PairRecordID''))
      else if message = ''SavePairRecord'' then save_pair_record E c tag dict
      else if message = ''DeletePairRecord'' then delete_pair_record E c tag dict
      else done_unless (send_result E c tag (result_num RESULT_BADCOMMAND)))"

text \<open>\<open>buf\<close> are the bytes of the input buffer that have been written, the message in front.\<close>

definition handle_plist :: "'p ext \<Rightarrow> ptr \<Rightarrow> usbmuxd_header \<Rightarrow> bytes \<Rightarrow> ('p, int) mux" where
  "handle_plist E c hdr buf = do {
     up_client c (\<lambda>cl. cl\<lparr>cl_proto_version := 1\<rparr>);
     case plist_from_xml E (take (unat (hdr_length hdr) - 16) (drop 16 buf)) of
       None \<Rightarrow> ret (-1)
     | Some dict \<Rightarrow> (case plist_dict_get_item E dict ''MessageType'' of
           None \<Rightarrow> ret (-1)
         | Some node \<Rightarrow>
             if plist_get_node_type E node \<noteq> PLIST_STRING then ret (-1)
             else (case plist_get_string_val E node of
                 None \<Rightarrow> ret (-1)
               | Some message \<Rightarrow> do {
                   update_client_info E c dict;
                   plist_command E c (hdr_tag hdr) dict message
                 }))
   }"

definition handle_command :: "'p ext \<Rightarrow> ptr \<Rightarrow> usbmuxd_header \<Rightarrow> bytes \<Rightarrow> ('p, int) mux" where
  "handle_command E c hdr buf = do {
     cl \<leftarrow> rd_client c;
     if cl_state cl \<noteq> CLIENT_COMMAND then do {
       r \<leftarrow> send_result E c (hdr_tag hdr) (result_num RESULT_BADCOMMAND);
       if r < 0 then ret (-1)
       else do { client_close E c; ret (-1) }
     }
     else if hdr_version hdr \<noteq> 0 \<and> hdr_version hdr \<noteq> 1 then do {
       send_result E c (hdr_tag hdr) (result_num RESULT_BADVERSION);
       ret 0
     }
     else if hdr_message hdr = msgtype_num MESSAGE_PLIST then handle_plist E c hdr buf
     else if hdr_message hdr = msgtype_num MESSAGE_LISTEN then do {
       r \<leftarrow> send_result E c (hdr_tag hdr) 0;
       if r < 0 then ret (-1) else start_listen E c
     }
     else if hdr_message hdr = msgtype_num MESSAGE_CONNECT then do {
       ch \<leftarrow> expect Uninitialised \<lparr>ch_header = hdr, ch_device_id = 0, ch_port = 0, ch_reserved = 0\<rparr>
         (dec_connect_request buf 0);
       begin_connect E c (hdr_tag hdr) (ch_device_id ch) (ch_port ch)
     }
     else done_unless (send_result E c (hdr_tag hdr) (result_num RESULT_BADCOMMAND))
   }"

section \<open>Buffers\<close>

definition output_buffer_process :: "'p ext \<Rightarrow> ptr \<Rightarrow> ('p, unit) mux" where
  "output_buffer_process E c = do {
     cl \<leftarrow> rd_client c;
     if cl_ob_size cl = 0 then up_client c (\<lambda>cl. cl\<lparr>cl_events := cl_events cl AND NOT POLLOUT\<rparr>)
     else do {
       assert_m NullDeref (cl_ob_buf cl \<noteq> None);
       r \<leftarrow> sys_send E (cl_fd cl) (cl_pending cl);
       case r of
         Inl e \<Rightarrow> client_close E c
       | Inr n \<Rightarrow>
           if n = 0 then client_close E c
           else if of_nat n = cl_ob_size cl then do {
             up_client c (\<lambda>cl. cl\<lparr>cl_ob_size := 0, cl_events := cl_events cl AND NOT POLLOUT\<rparr>);
             whenM (cl_state cl = CLIENT_CONNECTING2)
               (up_client c (\<lambda>cl. cl\<lparr>cl_state := CLIENT_CONNECTED, cl_events := cl_devents cl, cl_ob_buf := None\<rparr>))
           }
           else up_client c (cl_ob_drop n)
     }
   }"

text \<open>
  Reading into the input buffer behind what is there: the bytes are stored and counted,
  or the connection is at its end or broken, and the client is closed.
\<close>

definition ib_fill :: "bytes \<Rightarrow> 'p mux_client \<Rightarrow> 'p mux_client" where
  "ib_fill bs cl = cl\<lparr>cl_ib_buf := map_option (\<lambda>b. memcpy_at b (unat (cl_ib_size cl)) bs) (cl_ib_buf cl),
     cl_ib_size := cl_ib_size cl + of_nat (length bs)\<rparr>"

definition ib_recv :: "'p ext \<Rightarrow> ptr \<Rightarrow> nat \<Rightarrow> ('p, bool) mux" where
  "ib_recv E c want = do {
     cl \<leftarrow> rd_client c;
     assert_m NullDeref (cl_ib_buf cl \<noteq> None);
     assert_m OutOfBounds (unat (cl_ib_size cl) + want \<le> unat (cl_ib_capacity cl));
     r \<leftarrow> sys_recv E (cl_fd cl) want;
     case r of
       Inl e \<Rightarrow> do { client_close E c; ret False }
     | Inr bs \<Rightarrow>
         if bs = [] then do { client_close E c; ret False }
         else do { up_client c (ib_fill bs); ret True }
   }"

definition run_command :: "'p ext \<Rightarrow> ptr \<Rightarrow> usbmuxd_header \<Rightarrow> ('p, unit) mux" where
  "run_command E c hdr = do {
     cl \<leftarrow> rd_client c;
     handle_command E c hdr (case cl_ib_buf cl of None \<Rightarrow> [] | Some b \<Rightarrow> b);
     up_client c (\<lambda>cl. cl\<lparr>cl_ib_size := 0\<rparr>)
   }"

definition have_header :: "'p ext \<Rightarrow> ptr \<Rightarrow> bool \<Rightarrow> ('p, unit) mux" where
  "have_header E c did_read = do {
     cl \<leftarrow> rd_client c;
     buf \<leftarrow> expect NullDeref [] (cl_ib_buf cl);
     hdr \<leftarrow> expect Uninitialised \<lparr>hdr_length = 0, hdr_version = 0, hdr_message = 0, hdr_tag = 0\<rparr>
       (dec_usbmuxd_header buf 0);
     if hdr_length hdr > cl_ib_capacity cl then client_close E c
     else if hdr_length hdr < 16 then client_close E c
     else if cl_ib_size cl < hdr_length hdr then
       if did_read then skip
       else do {
         ok \<leftarrow> ib_recv E c (unat (hdr_length hdr - cl_ib_size cl));
         if \<not> ok then skip
         else do {
           cl \<leftarrow> rd_client c;
           if cl_ib_size cl < hdr_length hdr then skip else run_command E c hdr
         }
       }
     else run_command E c hdr
   }"

definition input_buffer_process :: "'p ext \<Rightarrow> ptr \<Rightarrow> ('p, unit) mux" where
  "input_buffer_process E c = do {
     cl \<leftarrow> rd_client c;
     if cl_ib_size cl < 16 then do {
       ok \<leftarrow> ib_recv E c (16 - unat (cl_ib_size cl));
       if \<not> ok then skip
       else do {
         cl \<leftarrow> rd_client c;
         if cl_ib_size cl < 16 then skip else have_header E c True
       }
     }
     else have_header E c False
   }"

section \<open>Clients\<close>

definition client_process :: "'p ext \<Rightarrow> int \<Rightarrow> u16 \<Rightarrow> ('p, unit) mux" where
  "client_process E fd events = do {
     lock_clients;
     l \<leftarrow> gets client_list;
     found \<leftarrow> find_m (\<lambda>c. do { cl \<leftarrow> rd_client c; ret (cl_fd cl = fd) }) l;
     unlock_clients;
     case found of
       None \<Rightarrow> skip
     | Some c \<Rightarrow> do {
         cl \<leftarrow> rd_client c;
         if cl_state cl = CLIENT_CONNECTED then device_client_process E (cl_connect_device cl) c events
         else if has_flag events POLLIN then input_buffer_process E c
         else whenM (has_flag events POLLOUT) (output_buffer_process E c)
       }
   }"

definition new_client :: "int \<Rightarrow> u32 \<Rightarrow> 'p mux_client" where
  "new_client fd number =
     client_zero\<lparr>cl_fd := fd, cl_ob_buf := Some [], cl_ob_size := 0, cl_ob_capacity := REPLY_BUF_SIZE,
       cl_ib_buf := Some [], cl_ib_size := 0, cl_ib_capacity := CMD_BUF_SIZE,
       cl_state := CLIENT_COMMAND, cl_events := POLLIN, cl_info := None, cl_number := number\<rparr>"

definition client_accept :: "'p ext \<Rightarrow> int \<Rightarrow> ('p, int) mux" where
  "client_accept E listenfd = do {
     t \<leftarrow> tick E;
     case os_accept E t listenfd of
       Inl e \<Rightarrow> ret (-1)
     | Inr cfd \<Rightarrow> do {
         n \<leftarrow> gets client_number;
         c \<leftarrow> new_heap clients_update (new_client cfd n);
         lock_clients;
         modify (\<lambda>s. s\<lparr>client_number := n + 1, client_list := collection_add E (client_list s) c\<rparr>);
         unlock_clients;
         ret cfd
       }
   }"

definition client_get_fds :: "fdlist option \<Rightarrow> ('p, fdlist option) mux" where
  "client_get_fds list = do {
     lock_clients;
     l \<leftarrow> gets client_list;
     r \<leftarrow> fold_m (\<lambda>list c. do {
       cl \<leftarrow> rd_client c;
       ret (Option.bind list (\<lambda>list. fdlist_add list FD_CLIENT (cl_fd cl) (cl_events cl)))
     }) list l;
     unlock_clients;
     ret r
   }"

definition client_init :: "('p, unit) mux" where
  "client_init = modify (\<lambda>s. s\<lparr>client_list := [], client_list_mutex := False\<rparr>)"

definition client_shutdown :: "'p ext \<Rightarrow> ('p, unit) mux" where
  "client_shutdown E = do {
     l \<leftarrow> gets client_list;
     foreach_m client_list (client_close E) l;
     modify (\<lambda>s. s\<lparr>client_list := []\<rparr>)
   }"

end
