(* ===== verification/Connect.thy ===== *)
theory Connect
  imports Tcp_Input Client_Cmd
begin

text \<open>
  Opening a connection: the device layer allocates it with a source port of its own and
  sends the first packet, and the client then waits for the answer of the device.
\<close>

section \<open>Finding the device\<close>

lemma wp_get_mux_device_for_id:
  assumes wf: "wf s" and free: "\<not> device_list_mutex s" and D: "devs s d = Some D"
  shows "wp (get_mux_device_for_id (dev_id D)) Q s = Q (Some d) s"
proof -
  define sl where "sl = s\<lparr>device_list_mutex := True\<rparr>"
  have run: "run_state (do { D' \<leftarrow> rd_dev d'; ret (dev_id D' = dev_id D) }) sl = (dev_id (the (devs s d')) = dev_id D, sl)"
    if "d' \<in> set (device_list s)" for d'
    using that wfD(3) [OF wf] by (auto simp: rd_heap_def sl_def)
  have "find (\<lambda>d'. dev_id (the (devs s d')) = dev_id D) (device_list s) = Some d"
  proof (rule find_unique)
    show "d \<in> set (device_list s)" using D wfD(3) [OF wf] by blast
    show "dev_id (the (devs s d)) = dev_id D" using D by simp
    show "d' = d" if "d' \<in> set (device_list s)" "dev_id (the (devs s d')) = dev_id D" for d'
      using that wfD(3) [OF wf] tablesD_id [OF wfD(5) [OF wf] _ D] by auto
  qed
  then show ?thesis
    using free by (simp add: get_mux_device_for_id_def wp_rules wp_find_m_pure [OF run, unfolded sl_def])
qed

lemma wp_get_mux_device_none:
  assumes wf: "wf s" and free: "\<not> device_list_mutex s" and none: "\<And>d D. devs s d = Some D \<Longrightarrow> dev_id D \<noteq> i"
  shows "wp (get_mux_device_for_id i) Q s = Q None s"
proof -
  define sl where "sl = s\<lparr>device_list_mutex := True\<rparr>"
  have run: "run_state (do { D' \<leftarrow> rd_dev d'; ret (dev_id D' = i) }) sl = (dev_id (the (devs s d')) = i, sl)"
    if "d' \<in> set (device_list s)" for d'
    using that wfD(3) [OF wf] by (auto simp: rd_heap_def sl_def)
  have "find (\<lambda>d'. dev_id (the (devs s d')) = i) (device_list s) = None"
    unfolding find_None_iff using none wfD(3) [OF wf] by fastforce
  then show ?thesis
    using free by (simp add: get_mux_device_for_id_def wp_rules wp_find_m_pure [OF run, unfolded sl_def])
qed

section \<open>Starting\<close>

text \<open>
  The state behind a successful start: one more connection, of a fresh address and with a
  source port that no other connection of the device has.
\<close>

definition started :: "'p ext \<Rightarrow> ptr \<Rightarrow> mux_device \<Rightarrow> ptr list \<Rightarrow> ptr \<Rightarrow> u16 \<Rightarrow> 'p daemon \<Rightarrow> 'p daemon \<Rightarrow> bool" where
  "started E d D ks c dport s s' \<longleftrightarrow> (\<exists>sport now D1. sport \<noteq> 0 \<and> sport \<notin> ports_used s ks \<and>
     conns s' = (conns s)(next_ptr s \<mapsto> conn_acked now (new_connection d c sport dport)) \<and>
     devs s' = (devs s)(d \<mapsto> D1) \<and> dev_ok s D1 \<and> dev_id D1 = dev_id D \<and>
     dev_connections D1 = Some (collection_add E ks (next_ptr s)) \<and>
     clients s' = clients s \<and> io_rest s s' \<and> next_ptr s < next_ptr s')"

lemma new_connection_ok:
  "sport \<noteq> 0 \<Longrightarrow> conn_ok (new_connection d c sport dport)"
  "conn_dev (new_connection d c sport dport) = d" "conn_client (new_connection d c sport dport) = Some c"
  "conn_sport (new_connection d c sport dport) = sport" "conn_state (new_connection d c sport dport) = CONN_CONNECTING"
  "conn_pending (new_connection d c sport dport) = []"
  by (simp_all add: new_connection_def conn_zero_def conn_ok_def conn_ib_ok_def conn_pending_def MAX_PAYLOAD_def)

text \<open>The part behind the choice of the port.\<close>

definition connect_from :: "'p ext \<Rightarrow> ptr \<Rightarrow> ptr \<Rightarrow> u16 \<Rightarrow> u16 \<Rightarrow> ('p, int) mux" where
  "connect_from E d c sport dport = do {
     k \<leftarrow> new_heap conns_update (new_connection d c sport dport);
     res \<leftarrow> send_tcp E k TH_SYN [];
     if res < 0 then do {
       free_heap conns conns_update k;
       ret (- uint (result_num RESULT_CONNREFUSED))
     } else do {
       D \<leftarrow> rd_dev d;
       ks \<leftarrow> expect Uninitialised [] (dev_connections D);
       up_dev d (\<lambda>D. D\<lparr>dev_connections := Some (collection_add E ks k)\<rparr>);
       ret 0
     }
   }"

lemma wp_connect_from:
  assumes fresh: "conns s (next_ptr s) = None" and D: "devs s d = Some D" "dev_connections D = Some ks" "dev_ok s D"
    and sport: "sport \<noteq> 0"
  shows "wp (connect_from E d c sport dport) (\<lambda>res s'.
     (res = 0 \<and> (\<exists>now D1. conns s' = (conns s)(next_ptr s \<mapsto> conn_acked now (new_connection d c sport dport)) \<and>
        devs s' = (devs s)(d \<mapsto> D1) \<and> dev_ok s D1 \<and> dev_id D1 = dev_id D \<and>
        dev_connections D1 = Some (collection_add E ks (next_ptr s)) \<and>
        clients s' = clients s \<and> io_rest s s' \<and> next_ptr s < next_ptr s')) \<or>
     (res = - uint (result_num RESULT_CONNREFUSED) \<and> conns s' = conns s \<and> (\<exists>D1. devs s' = (devs s)(d \<mapsto> D1) \<and>
        dev_ok s D1 \<and> dev_id D1 = dev_id D \<and> dev_connections D1 = dev_connections D) \<and>
        clients s' = clients s \<and> io_rest s s')) s" (is "wp _ ?Q s")
proof -
  define C where "C = new_connection d c sport dport"
  define s1 where "s1 = s\<lparr>next_ptr := Suc (next_ptr s), conns := (conns s)(next_ptr s \<mapsto> C)\<rparr>"
  have C: "conns s1 (next_ptr s) = Some C" "devs s1 (conn_dev C) = Some D" "conn_dev C = d" "dev_sendable s1 D"
    using D by (simp_all add: s1_def C_def new_connection_ok dev_ok_def dev_sendable_def)
  have gone: "(conns s)(next_ptr s := None) = conns s" using fresh by auto
  have ok: "dev_ok s (seq_next D)" by (rule dev_ok_io(2) [OF D(3) refl])
  have "wp (send_tcp E (next_ptr s) TH_SYN []) (\<lambda>res. wp (if res < 0 then do {
       free_heap conns conns_update (next_ptr s);
       ret (- uint (result_num RESULT_CONNREFUSED))
     } else do {
       D \<leftarrow> rd_dev d;
       ks \<leftarrow> expect Uninitialised [] (dev_connections D);
       up_dev d (\<lambda>D. D\<lparr>dev_connections := Some (collection_add E ks (next_ptr s))\<rparr>);
       ret 0
     }) ?Q) s1"
  proof (rule wp_mono [OF wp_send_tcp_on [OF C(1,2,4)]], goal_cases)
    case 1
    show ?case by simp
  next
    case (2 res t)
    then have on: "sent_on (next_ptr s) C D s1 t" by blast
    obtain D1 where t: "io_rest s1 t" "clients t = clients s" "devs t = (devs s)(d \<mapsto> D1)" "D1 = D \<or> D1 = seq_next D"
      by (rule sent_onE [OF on]) (simp add: s1_def C(3))
    have D1: "dev_ok s D1" "dev_id D1 = dev_id D" "dev_connections D1 = Some ks" using t(4) D ok by auto
    have r: "io_rest s t" "next_ptr s < next_ptr t" using t(1) by (auto simp: io_rest_def s1_def)
    show ?case
    proof (cases "res < 0")
      case True
      then have "conns t = (conns s)(next_ptr s \<mapsto> C)" using 2 by (simp add: s1_def)
      then show ?thesis using True t r D1 D(2) gone by (auto simp: wp_rules)
    next
      case False
      with 2 obtain now where "conns t = (conns s)(next_ptr s \<mapsto> conn_acked now C)" by (auto simp: s1_def)
      moreover have "dev_ok s (D1\<lparr>dev_connections := Some (collection_add E ks (next_ptr s))\<rparr>)"
        using D1 by (auto simp: dev_ok_def dev_sendable_def)
      ultimately show ?thesis using False t r D1 by (auto simp: wp_rules C_def)
    qed
  qed
  then show ?thesis by (simp add: connect_from_def wp_rules s1_def C_def)
qed

lemma device_start_connect_from:
  "device_start_connect E device_id dport c = do {
     dev \<leftarrow> get_mux_device_for_id device_id;
     case dev of
       None \<Rightarrow> ret (- uint (result_num RESULT_BADDEV))
     | Some d \<Rightarrow> do {
         sport \<leftarrow> find_sport d;
         if sport = 0 then ret (- uint (result_num RESULT_BADDEV)) else connect_from E d c sport dport
       }
   }"
  unfolding device_start_connect_def connect_from_def ..

lemma wp_device_start_connect:
  assumes wf: "wf s" and free: "\<not> device_list_mutex s"
    and D: "devs s d = Some D" "dev_connections D = Some ks"
  shows "wp (device_start_connect E (dev_id D) dport c) (\<lambda>res s'.
     (res = 0 \<and> started E d D ks c dport s s') \<or>
     (res \<in> {- uint (result_num RESULT_BADDEV), - uint (result_num RESULT_CONNREFUSED)} \<and>
        wf s' \<and> io_rest s s' \<and> conns s' = conns s \<and> clients s' = clients s)) s" (is "wp _ ?Q s")
proof -
  have live: "\<exists>C. conns s k = Some C" if "k \<in> set ks" for k
    using tablesD_dev(2) [OF wfD(5) [OF wf] D that] by blast
  have ok: "dev_ok s D" by (rule wfD(6) [OF wf D(1)])
  have fresh: "conns s (next_ptr s) = None" using wfD(8) [OF wf, of "next_ptr s"] by simp
  have refused: "wf t" if "devs t = (devs s)(d \<mapsto> D1)" "dev_ok s D1" "dev_id D1 = dev_id D"
      "dev_connections D1 = dev_connections D" "conns t = conns s" "clients t = clients s" "io_rest s t" for t D1
    by (rule wf_upd_dev [OF wf D(1) that(2-4)]) (use that in simp_all)
  have "wp (find_sport d) (\<lambda>sport. wp (if sport = 0 then ret (- uint (result_num RESULT_BADDEV))
      else connect_from E d c sport dport) ?Q) s"
  proof (rule wp_mono [OF wp_find_sport [OF D live]], goal_cases)
    case (2 sport t)
    show ?case
    proof (cases "sport = 0")
      case True
      then show ?thesis
        using 2 wf refused [of t "D\<lparr>dev_next_sport := sport + 1\<rparr>"] ok D
        by (auto simp: wp_rules dev_ok_def dev_sendable_def)
    next
      case False
      define D1 where "D1 = D\<lparr>dev_next_sport := sport + 1\<rparr>"
      have t: "t = s\<lparr>devs := (devs s)(d \<mapsto> D1)\<rparr>" and sport: "sport \<notin> ports_used s ks" "sport \<noteq> 0"
        using 2 False by (auto simp: D1_def)
      have D1: "devs t d = Some D1" "dev_connections D1 = Some ks" "dev_ok t D1" "conns t (next_ptr t) = None" "dev_id D1 = dev_id D"
        using ok D fresh by (auto simp: t D1_def dev_ok_def dev_sendable_def)
      have same: "dev_ok t x = dev_ok s x" for x by (simp add: t dev_ok_def dev_sendable_def)
      have "wp (connect_from E d c sport dport) ?Q t"
      proof (rule wp_mono [OF wp_connect_from [OF D1(4,1,2,3) sport(2)]], goal_cases)
        case (1 res s')
        then show ?case
          using refused [of s'] D1(2,5) D(2) sport unfolding started_def same by (auto simp: t)
      qed
      then show ?thesis using sport(2) by simp
    qed
  qed
  then show ?thesis
    by (simp add: device_start_connect_from wp_rules wp_get_mux_device_for_id [OF wf free D(1)])
qed

text \<open>With the client waiting, the invariant holds again.\<close>

lemma started_wf:
  assumes wf: "wf s" and E: "world_ok E" and D: "devs s d = Some D" "dev_connections D = Some ks"
    and cl: "clients s c = Some cl" "\<not> busy (cl_state cl)" and st: "started E d D ks c dport s t"
    and cl': "client_ok cl'" "cl_state cl' = CLIENT_CONNECTING1" "cl_connect_device cl' = dev_id D"
  shows "wf (t\<lparr>clients := (clients t)(c \<mapsto> cl')\<rparr>)"
proof -
  from E have col: "collections_ok E" by (simp add: world_ok_def)
  obtain sport now D1 where n: "sport \<noteq> 0" "sport \<notin> ports_used s ks"
    "conns t = (conns s)(next_ptr s \<mapsto> conn_acked now (new_connection d c sport dport))"
    "devs t = (devs s)(d \<mapsto> D1)" "dev_ok s D1" "dev_id D1 = dev_id D"
    "dev_connections D1 = Some (collection_add E ks (next_ptr s))" "clients t = clients s" "io_rest s t" "next_ptr s < next_ptr t"
    using st unfolding started_def by blast
  note r = io_restD [OF n(9)]
  define C where "C = conn_acked now (new_connection d c sport dport)"
  have C: "conn_ok C" "conn_dev C = d" "conn_client C = Some c" "conn_sport C = sport" "conn_state C = CONN_CONNECTING"
    using n(1) by (simp_all add: C_def new_connection_ok)
  have old: "next_ptr s \<notin> set ks"
    using tablesD_dev(2) [OF wfD(5) [OF wf] D, of "next_ptr s"] wfD(8) [OF wf, of "next_ptr s"] by auto
  have "tables_ok ((conns s)(next_ptr s \<mapsto> C)) ((devs s)(conn_dev C \<mapsto> D1)) ((clients s)(c \<mapsto> cl'))"
  proof (rule tables_new_session [OF wfD(5) [OF wf] _ cl _ D(2) n(6,7)])
    show "conn_sport (the (conns s k1)) \<noteq> conn_sport C" if "k1 \<in> set ks" for k1
      using n(2) that unfolding C(4) ports_used_def by force
    show "distinct (collection_add E ks (next_ptr s))"
      using tablesD_dev(1) [OF wfD(5) [OF wf] D] old col by (simp add: collection_add_distinct)
  qed (use C D cl' col wfD(8) [OF wf, of "next_ptr s"] in simp_all)
  then have tab: "tables_ok (conns t) (devs t) ((clients t)(c \<mapsto> cl'))"
    unfolding n(3,4,8) C_def [symmetric] C(2) .
  have "conns t p = None \<and> devs t p = None \<and> ((clients t)(c \<mapsto> cl')) p = None" if p: "next_ptr t \<le> p" for p
  proof -
    have "next_ptr s < p" using p n(10) by simp
    then show ?thesis
      using wfD(8) [OF wf, of p] wfD(8) [OF wf, of d] wfD(8) [OF wf, of c] D(1) cl(1) n(3,4,8) by auto
  qed
  moreover have "dev_ok t D2" if "devs t d2 = Some D2" for d2 D2
    by (rule dev_ok_io(1) [OF _ r(8)]) (use that n(4,5) wfD(6) [OF wf] in \<open>auto split: if_splits\<close>)
  ultimately show ?thesis
    using tab wfD [OF wf] r n(4,8) D(1) cl(1) cl'(1)
    unfolding wf_def by (auto simp: dev_ok_def dev_sendable_def split: if_splits)
qed

section \<open>The command\<close>

text \<open>
  A connect request of a client in the command state is answered with an error or makes
  the client wait; it is never both.
\<close>

lemma answered_client_ok:
  assumes rep: "replies_ok E" and cl: "client_ok cl" "unat (cl_ob_capacity cl) < 2 ^ 31" "cl_state cl \<noteq> CLIENT_CONNECTED"
    "cl_state cl \<noteq> CLIENT_CONNECTING2"
  shows "client_ok (answered E tag r cl)"
proof -
  have "ob_calm cl" using cl by (simp add: ob_calm_def client_ok_def)
  from answered_ok(1) [OF rep this, of tag r] cl show ?thesis by (auto simp: client_ok_def)
qed

lemma wp_refuse_request:
  assumes wf: "wf s" and E: "world_ok E" and cl: "clients s c = Some cl" "cl_state cl = CLIENT_COMMAND"
    "unat (cl_ob_capacity cl) < 2 ^ 31"
  shows "wp (done_unless (send_result E c tag r)) (\<lambda>res s'. res = 0 \<and> safe s s' \<and> conns s' = conns s \<and>
     clients s' = (clients s)(c \<mapsto> answered E tag r cl)) s"
proof -
  from E have rep: "replies_ok E" by (simp add: world_ok_def)
  note ok = wfD(7) [OF wf cl(1)]
  have ob: "ob_calm cl" using ok cl by (simp add: ob_calm_def client_ok_def)
  have ans: "client_ok (answered E tag r cl)" using answered_client_ok [OF rep ok cl(3)] cl(2) by simp
  have "wp (send_result E c tag r) (\<lambda>res s'. 0 < res \<and> safe s s' \<and> conns s' = conns s \<and>
      clients s' = (clients s)(c \<mapsto> answered E tag r cl)) s"
  proof (rule wp_mono [OF wp_send_result [OF rep cl(1) ob]], goal_cases)
    case (1 res t)
    then have q: "clients t = (clients s)(c \<mapsto> answered E tag r cl)" "conns t = conns s" "devs t = devs s" "io_rest s t"
      using after_queueD [of E c "answered E tag r cl" s t] by blast+
    have "wf t" by (rule wf_upd_client [OF wf cl(1) ans]) (use q in simp_all)
    then have "safe s t" using q(4) by (rule safe_io)
    then show ?case using 1 q by simp
  qed
  then show ?thesis by (auto simp: done_unless_def wp_rules elim!: wp_mono)
qed

lemma wp_begin_connect:
  assumes wf: "wf s" and E: "world_ok E" and free: "\<not> device_list_mutex s"
    and cl: "clients s c = Some cl" "cl_state cl = CLIENT_COMMAND" "unat (cl_ob_capacity cl) < 2 ^ 31"
    and D: "\<And>d D. devs s d = Some D \<Longrightarrow> dev_id D = device_id \<Longrightarrow> dev_state D \<noteq> MUXDEV_INIT"
  shows "wp (begin_connect E c tag device_id port) (\<lambda>res s'. res = 0 \<and> safe s s' \<and>
     ((\<exists>r. conns s' = conns s \<and> clients s' c = Some (answered E tag r cl)) \<or>
      (\<exists>k C. conns s k = None \<and> conns s' = (conns s)(k \<mapsto> C) \<and> conn_client C = Some c \<and> conn_state C = CONN_CONNECTING \<and>
         clients s' c = Some (cl\<lparr>cl_connect_tag := tag, cl_connect_device := device_id, cl_state := CLIENT_CONNECTING1\<rparr>)))) s"
    (is "wp _ ?Q s")
proof -
  have refuse: "wp (done_unless (send_result E c tag r)) ?Q t"
    if t: "wf t" "io_rest s t" "conns t = conns s" "clients t = clients s" for t r
    by (rule wp_mono [OF wp_refuse_request [OF t(1) E]])
      (use cl t safe_trans [OF safe_io [OF t(1,2)]] in auto)
  show ?thesis
  proof (cases "\<exists>d D. devs s d = Some D \<and> dev_id D = device_id")
    case False
    then have "wp (device_start_connect E device_id (ntohs port) c) Q s = Q (- uint (result_num RESULT_BADDEV)) s" for Q
      by (subst device_start_connect_from) (auto simp: wp_rules wp_get_mux_device_none [OF wf free])
    then show ?thesis using refuse [of s 2] wf by (simp add: begin_connect_def wp_rules)
  next
    case True
    then obtain d D0 where d: "devs s d = Some D0" "dev_id D0 = device_id" by blast
    then obtain ks where ks: "dev_connections D0 = Some ks"
      using wfD(6) [OF wf d(1)] D [OF d] by (auto simp: dev_ok_def)
    define cl' where "cl' = cl\<lparr>cl_connect_tag := tag, cl_connect_device := device_id, cl_state := CLIENT_CONNECTING1\<rparr>"
    have cl': "client_ok cl'" "cl_state cl' = CLIENT_CONNECTING1" "cl_connect_device cl' = dev_id D0"
      using wfD(7) [OF wf cl(1)] cl(2) d(2) by (auto simp: cl'_def client_ok_def cl_ob_ok_def)
    have "wp (device_start_connect E device_id (ntohs port) c) (\<lambda>res. wp (if res < 0
        then done_unless (send_result E c tag (word_of_int (- res)))
        else do { up_client c (\<lambda>cl. cl\<lparr>cl_connect_tag := tag, cl_connect_device := device_id,
               cl_state := CLIENT_CONNECTING1\<rparr>); ret 0 }) ?Q) s"
    proof (rule wp_mono [OF wp_device_start_connect [OF wf free d(1) ks, unfolded d(2)]], goal_cases)
      case (1 res t)
      then show ?case
      proof
        assume st: "res = 0 \<and> started E d D0 ks c (ntohs port) s t"
        have "\<not> busy (cl_state cl)" using cl(2) by simp
        note wf' = started_wf [OF wf E d(1) ks cl(1) this conjunct2 [OF st] cl']
        from st obtain sport now where n: "conns t = (conns s)(next_ptr s \<mapsto> conn_acked now (new_connection d c sport (ntohs port)))"
          "clients t = clients s" "io_rest s t"
          unfolding started_def by blast
        have "safe s (t\<lparr>clients := (clients t)(c \<mapsto> cl')\<rparr>)" using wf' by (rule safe_io) (use n in simp)
        moreover have "conns s (next_ptr s) = None" using wfD(8) [OF wf, of "next_ptr s"] by simp
        ultimately have "?Q 0 (t\<lparr>clients := (clients t)(c \<mapsto> cl')\<rparr>)"
          using n(1) by (intro conjI disjI2 exI [of _ "next_ptr s"]
              exI [of _ "conn_acked now (new_connection d c sport (ntohs port))"]) (simp_all add: cl'_def new_connection_ok)
        then show ?thesis
          using st n cl(1) by (simp add: wp_rules cl'_def)
      next
        assume "res \<in> {- uint (result_num RESULT_BADDEV), - uint (result_num RESULT_CONNREFUSED)} \<and>
          wf t \<and> io_rest s t \<and> conns t = conns s \<and> clients t = clients s"
        then show ?thesis using refuse [of t] by auto
      qed
    qed
    then show ?thesis by (simp add: begin_connect_def wp_rules)
  qed
qed

end
