(* ===== verification/Faults.thy ===== *)
theory Faults
  imports Connect
begin

text \<open>
  Where the code goes wrong. A fault, once recorded, stays: so it is enough to follow a
  handler up to its first bad access. Each result below gives a state that the rest of
  the development considers sound and an input that makes the handler touch memory it
  has freed or never written.
\<close>

section \<open>Faults stay\<close>

definition faulted :: "fault \<Rightarrow> 'p daemon \<Rightarrow> bool" where
  "faulted f s \<longleftrightarrow> fault s = Some f"

lemma faulted_primitives [frame_rules]:
  "stable (faulted f) (rd_heap h dflt p)"
  "stable (faulted f) (up_heap conns conns_update p g1)" "stable (faulted f) (up_heap devs devs_update p g2)"
  "stable (faulted f) (up_heap clients clients_update p g3)" "stable (faulted f) (up_heap udevs udevs_update p g4)"
  "stable (faulted f) (up_heap xfers xfers_update p g5)"
  "stable (faulted f) (free_heap conns conns_update p)" "stable (faulted f) (free_heap clients clients_update p)"
  "stable (faulted f) (free_heap mem mem_update p)" "stable (faulted f) (free_heap xfers xfers_update p)"
  "stable (faulted f) (new_heap mem_update x1)" "stable (faulted f) (new_heap xfers_update x2)"
  "stable (faulted f) (new_heap conns_update x3)"
  "stable (faulted f) (expect g y z)" "stable (faulted f) (deref q)" "stable (faulted f) (assert_m g b)"
  "stable (faulted f) (raise_fault g)" "stable (faulted f) (emit e)"
  "stable (faulted f) (tick E)" "stable (faulted f) lock_clients" "stable (faulted f) unlock_clients"
  "stable (faulted f) lock_devices" "stable (faulted f) unlock_devices"
  "stable (faulted f) (modify (\<lambda>s. s\<lparr>client_list := l s\<rparr>))" "stable (faulted f) (modify (\<lambda>s. s\<lparr>clock := n s\<rparr>))"
  by (auto simp: stable_def faulted_def rd_heap_def up_heap_def free_heap_def new_heap_def raise_fault_def expect_def
      deref_def assert_m_def emit_def tick_def lock_clients_def unlock_clients_def lock_devices_def unlock_devices_def
      set_fault_def split: option.splits)

lemma faulted_find_m [frame_rules]: "(\<And>x. stable P (q x)) \<Longrightarrow> stable P (find_m q xs)"
  by (induction xs) (simp_all add: frame_rules)

lemma faulted_case_sum [frame_rules]:
  "(\<And>e. stable P (m e)) \<Longrightarrow> (\<And>y. stable P (n y)) \<Longrightarrow> stable P (case z of Inl e \<Rightarrow> m e | Inr y \<Rightarrow> n y)"
  by (simp split: sum.splits)

lemma faulted_calls [frame_rules]:
  "stable (faulted f) (sys_send E fd buf)" "stable (faulted f) (sys_mstime64 E)" "stable (faulted f) (sys_usleep E us)"
  unfolding sys_send_def sys_mstime64_def sys_usleep_def Let_def by (intro frame_rules)+

lemma faulted_sends [frame_rules]:
  "stable (faulted f) (send_packet E d proto header data)" "stable (faulted f) (send_tcp E k flags data)"
  unfolding send_packet_def send_tcp_def usb_send_def submit_out_def Let_def by (intro frame_rules)+

lemma faulted_client [frame_rules]:
  "stable (faulted f) (client_write E c buf)" "stable (faulted f) (client_set_events c ev)"
  "stable (faulted f) (output_buffer_add_message E c tag msg payload)"
  unfolding client_write_def client_set_events_def output_buffer_add_message_def Let_def by (intro frame_rules)+

lemma faulted_replies [frame_rules]:
  "stable (faulted f) (send_result E c tag r)" "stable (faulted f) (client_notify_connect E c result)"
  unfolding send_result_def send_plist_def client_notify_connect_def Let_def by (intro frame_rules)+

lemma faulted_flush [frame_rules]: "stable (faulted f) (flush_loop n E k c t)"
proof (induction n arbitrary: t)
  case 0
  show ?case by (simp add: frame_rules)
next
  case (Suc n)
  then show ?case unfolding flush_loop.simps by (intro frame_rules)
qed

lemma faulted_teardown [frame_rules]:
  "stable (faulted f) (client_close E c)" "stable (faulted f) (connection_teardown E k)"
  unfolding client_close_def connection_teardown_def device_abort_connect_def connection_teardown_orphan_def
    get_mux_connection_def teardown_rst_def teardown_free_def
  by (intro frame_rules)+

lemma faulted_update [frame_rules]:
  "stable (faulted f) (update_connection k)" "stable (faulted f) (send_tcp_ack E k)"
  unfolding update_connection_def send_tcp_ack_def by (intro frame_rules)+

lemma wp_faulted: "stable (faulted f) m \<Longrightarrow> faulted f s \<Longrightarrow> wp m (\<lambda>_. faulted f) s"
  by (simp add: stable_def wp_snd)

text \<open>The first bad access decides.\<close>

lemma wp_rd_freed:
  assumes "h s p = None" and "fault s = None" and "\<And>x. stable (faulted UseAfterFree) (m x)"
  shows "wp (do { x \<leftarrow> rd_heap h dflt p; m x }) (\<lambda>_. faulted UseAfterFree) s"
proof -
  have "faulted UseAfterFree (set_fault UseAfterFree s)" using assms(2) by (simp add: faulted_def set_fault_first)
  from wp_faulted [OF assms(3) this] show ?thesis
    using assms(1) by (simp add: rd_heap_def wp_rules)
qed

section \<open>Overflow of an in-buffer\<close>

text \<open>
  A packet that does not fit takes the connection down inside \<open>connection_device_input\<close>;
  the caller then acknowledges on the freed connection.
\<close>

lemma wp_overflow:
  assumes wf: "wf s" and E: "world_ok E" and calm: "calm s" and free: "\<not> client_list_mutex s" and ok: "fault s = None"
    and C: "conns s k = Some C" and len: "length payload \<le> unat DEV_MRU" and full: "\<not> conn_ib_room C payload"
    and th: "th_flags th = TH_ACK"
  shows "wp (tcp_connected E k th payload) (\<lambda>_. faulted UseAfterFree) s"
proof -
  have ok': "conn_ok C" by (rule conn_client_wf [OF wf C])
  have "wp (connection_teardown E k) (\<lambda>_. wp (send_tcp_ack E k) (\<lambda>_. faulted UseAfterFree)) s"
  proof (rule wp_mono [OF wp_teardown_sound [OF wf E calm C free]], goal_cases)
    case (1 _ s1)
    then have "conns s1 k = None" "fault s1 = None" using soundD(3) ok by fastforce+
    then have "wp (send_tcp E k TH_ACK []) (\<lambda>_. faulted UseAfterFree) s1"
      unfolding send_tcp_def by (rule wp_rd_freed) (intro frame_rules)
    then show ?case
      unfolding send_tcp_ack_def wp_bind
      by (rule wp_mono) (rule wp_faulted, intro frame_rules)
  qed
  then show ?thesis
    using C th ib_check [OF ok' len] full by (simp add: tcp_connected_def connection_device_input_def wp_rules wp_eta)
qed

section \<open>A command in the wrong state\<close>

text \<open>
  A client that listens is closed when it sends a command; \<open>run_command\<close> then resets the
  fill count of its freed buffer.
\<close>

lemma wp_run_command_listener:
  assumes wf: "wf s" and E: "world_ok E" and cl: "clients s c = Some cl" "cl_state cl = CLIENT_LISTEN"
    "unat (cl_ob_capacity cl) < 2 ^ 31" and free: "\<not> client_list_mutex s" and none: "fault s = None"
  shows "wp (run_command E c hdr) (\<lambda>_. faulted UseAfterFree) s"
proof -
  from E have rep: "replies_ok E" by (simp add: world_ok_def)
  have ok: "client_ok cl" by (rule wfD(7) [OF wf cl(1)])
  then have ob: "ob_calm cl" using cl by (simp add: ob_calm_def client_ok_def)
  let ?r = "result_num RESULT_BADCOMMAND" and ?tag = "hdr_tag hdr"
  have ans: "client_ok (answered E ?tag ?r cl)"
    using ok answered_ok(1) [OF rep ob, of ?tag ?r] cl by (auto simp: client_ok_def)
  have "wp (send_result E c ?tag ?r) (\<lambda>r. wp (if r < 0 then ret (-1) else do { client_close E c; ret (-1) })
      (\<lambda>_. wp (up_client c (\<lambda>cl. cl\<lparr>cl_ib_size := 0\<rparr>)) (\<lambda>_. faulted UseAfterFree))) s"
  proof (rule wp_mono [OF wp_send_result [OF rep cl(1) ob]], goal_cases)
    case (1 r s1)
    then have r: "\<not> r < 0" and "after_queue E c (answered E ?tag ?r cl) s s1" by simp_all
    note q = after_queueD [OF this(2)]
    have wf1: "wf s1"
      by (rule wf_upd_client [OF wf cl(1) ans]) (use q in simp_all)
    have c1: "clients s1 c = Some (answered E ?tag ?r cl)" "\<not> busy (cl_state (answered E ?tag ?r cl))" "\<not> client_list_mutex s1"
      using q cl free io_restD(6) [OF q(4)] by simp_all
    have "wp (client_close E c) (\<lambda>_. wp (up_client c (\<lambda>cl. cl\<lparr>cl_ib_size := 0\<rparr>)) (\<lambda>_. faulted UseAfterFree)) s1"
    proof (rule wp_mono [OF wp_client_close_idle [OF wf1 c1(3,1,2)]], goal_cases)
      case (1 _ s2)
      then have "clients s2 c = None" "fault s2 = fault s1"
        unfolding client_gone_def using io_restD(4) by fastforce+
      then show ?case
        using q(6) none by (simp add: up_heap_def wp_rules faulted_def set_fault_first)
    qed
    with r show ?case by (simp add: wp_rules wp_eta)
  qed
  then show ?thesis
    using cl by (simp add: run_command_def handle_command_def wp_rules wp_eta)
qed

lemma wp_listener_command:
  assumes wf: "wf s" and E: "world_ok E" and cl: "clients s c = Some cl" "cl_state cl = CLIENT_LISTEN"
    "unat (cl_ob_capacity cl) < 2 ^ 31" "cl_ib_size cl = 0" and free: "\<not> client_list_mutex s" and none: "fault s = None"
    and msg: "os_recv E (calls s) (cl_fd cl) 16 = Inr (enc_usbmuxd_header hdr)" "hdr_length hdr = 16"
  shows "wp (input_buffer_process E c) (\<lambda>_. faulted UseAfterFree) s"
proof -
  let ?bs = "enc_usbmuxd_header hdr"
  have ok: "client_ok cl" by (rule wfD(7) [OF wf cl(1)])
  then obtain b where b: "cl_ib_buf cl = Some b" "length b \<le> unat CMD_BUF_SIZE" "cl_ib_capacity cl = CMD_BUF_SIZE"
    using cl by (auto simp: client_ok_def)
  have len: "length ?bs = 16" by (rule client_header.enc_width)
  then have ne: "?bs \<noteq> []" by (metis list.size(3) zero_neq_numeral)
  define cl1 where "cl1 = ib_fill ?bs cl"
  define s1 where "s1 = (ticked E s)\<lparr>trace := trace s @ [SockRead (cl_fd cl) ?bs], clients := (clients s)(c \<mapsto> cl1)\<rparr>"
  have buf: "cl_ib_buf cl1 = Some (memcpy_at b 0 ?bs)" and sz: "cl_ib_size cl1 = 16"
    using b cl(4) len by (simp_all add: cl1_def ib_fill_def)
  have hdr: "dec_usbmuxd_header (memcpy_at b 0 ?bs) 0 = Some hdr"
    using client_header.dec_enc [of "[]" hdr "drop 16 b"] len by (simp add: memcpy_at_def)
  have cap: "unat (16 :: u32) \<le> length (memcpy_at b 0 ?bs)" "length (memcpy_at b 0 ?bs) \<le> unat CMD_BUF_SIZE"
    using b(2) len by (simp_all add: length_memcpy_at size_consts)
  have "client_ok cl1"
    using ok cl b(3) buf sz cap by (auto simp: client_ok_def cl1_def ib_fill_def cl_ob_ok_def)
  then have wf1: "wf s1"
    by (rule wf_upd_client [OF wf cl(1)]) (use cl in \<open>simp_all add: s1_def cl1_def ib_fill_def\<close>)
  have "wp (run_command E c hdr) (\<lambda>_. faulted UseAfterFree) s1"
    by (rule wp_run_command_listener [OF wf1 E, where cl = cl1])
      (use cl free none in \<open>simp_all add: s1_def cl1_def ib_fill_def\<close>)
  moreover have c1: "clients s1 c = Some cl1" "cl_ib_capacity cl1 = CMD_BUF_SIZE"
    using b(3) by (simp_all add: s1_def cl1_def ib_fill_def)
  ultimately have "wp (have_header E c True) (\<lambda>_. faulted UseAfterFree) s1"
    using c1 buf sz hdr msg(2) by (simp add: have_header_def wp_rules size_consts)
  then show ?thesis
    using cl msg(1) b ne len c1 sz
    by (simp add: input_buffer_process_def ib_recv_def wp_rules s1_def size_consts flip: cl1_def)
qed

section \<open>A device that has not answered yet\<close>

text \<open>
  The list of connections is set up when the device has answered with its version. A
  client may name the device before that, since its identifier is already in the list.
\<close>

lemma faulted_sport [frame_rules]: "stable (faulted f) (sport_loop n d)"
proof (induction n)
  case 0
  show ?case by (simp add: frame_rules)
next
  case (Suc n)
  then show ?case unfolding sport_loop.simps by (intro frame_rules)
qed

lemma wp_start_connect_early:
  assumes wf: "wf s" and free: "\<not> device_list_mutex s" and none: "fault s = None"
    and D: "devs s d = Some D" "dev_state D = MUXDEV_INIT"
  shows "wp (device_start_connect E (dev_id D) dport c) (\<lambda>_. faulted Uninitialised) s"
proof -
  have "dev_connections D = None" using wfD(6) [OF wf D(1)] D(2) by (simp add: dev_ok_def)
  then have "wp (find_sport d) (\<lambda>_. faulted Uninitialised) s"
    using D(1) none by (simp add: find_sport_def expect_def wp_rules faulted_def set_fault_def)
  then have "wp (find_sport d) (\<lambda>sport. wp (if sport = 0 then ret (- uint (result_num RESULT_BADDEV))
      else do {
        k \<leftarrow> new_heap conns_update (new_connection d c sport dport);
        res \<leftarrow> send_tcp E k TH_SYN [];
        if res < 0 then do {
          free_heap conns conns_update k;
          ret (- uint (result_num RESULT_CONNREFUSED))
        } else do {
          D \<leftarrow> rd_dev d;
          ks \<leftarrow> expect Uninitialised [] (dev_connections D);
          up_dev d (\<lambda>D. D\<lparr>dev_connections := Some (collection_add E ks k)\<rparr>);
          ret 0
        }
      }) (\<lambda>_. faulted Uninitialised)) s"
    by (rule wp_mono) (rule wp_faulted, intro frame_rules)
  then show ?thesis
    by (simp add: device_start_connect_def wp_rules wp_get_mux_device_for_id [OF wf free D(1)])
qed

end
