(* ===== verification/Sample.thy ===== *)
theory Sample
  imports Client_Cmd
begin

text \<open>
  A concrete world and a concrete state of the daemon, on which the theorems of the
  development are applied: sockets take all they are given, memory is never short,
  libusb accepts every transfer, and property lists are byte strings.
\<close>

definition libusb0 :: libusb where
  "libusb0 = \<lparr>libusb_handle_events = \<lambda>_. (0, []), libusb_patience = 10, libusb_get_device_list = \<lambda>_. Inr [],
     libusb_get_bus_number = \<lambda>_. 1, libusb_get_device_address = \<lambda>d. of_nat d,
     libusb_get_device_descriptor = \<lambda>_ _. Inr \<lparr>idVendor = 0x5ac, idProduct = 0x12a8, iSerialNumber = 3, bNumConfigurations = 1\<rparr>,
     libusb_open = \<lambda>_ d. Inr d,
     libusb_get_config_descriptor_by_value = \<lambda>_ _ j. Inr \<lparr>bConfigurationValue = of_nat j, interfaces =
       [\<lparr>bInterfaceNumber = 1, bInterfaceClass = 255, bInterfaceSubClass = 254, bInterfaceProtocol = 2, endpoints = [4, 0x85]\<rparr>]\<rparr>,
     libusb_get_configuration = \<lambda>_ _. Inr 0, libusb_kernel_driver_active = \<lambda>_ _ _. 0,
     libusb_detach_kernel_driver = \<lambda>_ _ _. 0, libusb_set_configuration = \<lambda>_ _ _. 0,
     libusb_claim_interface = \<lambda>_ _ _. 0, libusb_alloc_fails = \<lambda>_. False,
     libusb_get_max_packet_size = \<lambda>_ _. 512, libusb_get_device_speed = \<lambda>_. SPEED_HIGH,
     libusb_get_next_timeout = \<lambda>_. (0, 0, 0), libusb_get_pollfds = \<lambda>_. Some [(20, 1)],
     libusb_init = \<lambda>_. 0, libusb_has_hotplug = True, libusb_hotplug_register_callback = \<lambda>_. (0, [])\<rparr>"

definition lockdown0 :: "bytes lockdown" where
  "lockdown0 = \<lparr>lockdownd_client_new = \<lambda>_ _. LOCKDOWN_E_SUCCESS, lockdownd_query_type = \<lambda>_. Some ''com.apple.mobile.lockdown'',
     lockdownd_start_session = \<lambda>_ _. LOCKDOWN_E_SUCCESS, lockdownd_get_value = \<lambda>_ _. (LOCKDOWN_E_SUCCESS, Some []),
     lockdownd_set_value = \<lambda>_ _ _. LOCKDOWN_E_SUCCESS, lockdownd_pair = \<lambda>_. LOCKDOWN_E_SUCCESS, lockdownd_validate_pair = \<lambda>_. LOCKDOWN_E_SUCCESS,
     lockdownd_start_service = \<lambda>_ _. LOCKDOWN_E_SUCCESS, np_client_new = \<lambda>_. True\<rparr>"

definition os0 :: os where
  "os0 = \<lparr>os_ppoll = \<lambda>_ fds _. Inr (map (\<lambda>_. 0) fds), os_signals = \<lambda>_. [],
     os_call = \<lambda>_ _. 0, os_errno = \<lambda>_. 2, os_getenv = \<lambda>_. None, os_getaddrinfo = \<lambda>_ _ _. Inr [AF_INET],
     os_is_socket = \<lambda>_ _. None, os_lock = \<lambda>_ _. None, os_stat = \<lambda>_ _. Some (1533, 0, 0),
     os_getpwnam = \<lambda>_ _. Some (1000, 1000), os_getuid = \<lambda>_. 0, os_geteuid = \<lambda>_. 0, os_getgid = \<lambda>_. 0,
     os_getpid = 77, os_getppid = 2, os_child_status = \<lambda>_. None, os_malloc_fails = \<lambda>_. False\<rparr>"

definition ext0 :: "bytes ext" where
  "ext0 = \<lparr>libusb = libusb0, lockdown = lockdown0, os = os0, os_elapse = \<lambda>_. 1000000, os_clock_fails = \<lambda>_. False, os_gettimeofday = \<lambda>_. (0, 0),
     os_send = \<lambda>_ _ buf. Inr (length buf), os_recv = \<lambda>_ _ n. Inr (take n [1, 2, 3]),
     os_accept = \<lambda>_ _. Inr 9, os_realloc = \<lambda>_ _. True, string_concat = concat, buffer_read = Some,
     os_denied = \<lambda>_. False, os_rand = \<lambda>t. t, os_thread_fails = \<lambda>_. False,
     libusb_submit_transfer = \<lambda>_ _. 0, collection_add = \<lambda>xs x. xs @ [x],
     collection_remove = \<lambda>xs x. remove1 x xs, plist_to_xml = Some, plist_from_xml = Some,
     plist_from_memory = Some, plist_new_dict = [], plist_new_array = [],
     plist_new_string = map of_char, plist_new_uint = \<lambda>w. [ucast w], plist_new_bool = \<lambda>_. [],
     plist_new_data = \<lambda>d. d, plist_dict_set_item = \<lambda>d k v. v, plist_dict_remove_item = \<lambda>d k. [],
     plist_dict_get_item = \<lambda>d k. Some d, plist_dict_copy_item = \<lambda>d e k. d,
     plist_array_append_item = \<lambda>a x. a @ x, plist_get_node_type = \<lambda>_. PLIST_STRING,
     plist_get_string_val = \<lambda>p. Some (map (\<lambda>w. char_of (unat w)) p), plist_get_uint_val = \<lambda>_. Some 0,
     plist_get_data_val = Some\<rparr>"

lemma ext0_ok:
  "collections_ok ext0" "sockets_ok ext0" "replies_ok ext0" "clock_ok ext0"
  by (simp_all add: collections_ok_def sockets_ok_def replies_ok_def clock_ok_def result_plist_def ext0_def)

definition devdesc1 :: usb_devdesc where
  "devdesc1 = \<lparr>idVendor = 0x5ac, idProduct = 0x1290, iSerialNumber = 3, bNumConfigurations = 4\<rparr>"

definition udev1 :: usb_device where
  "udev1 = udev_zero\<lparr>ud_handle := Some 1, ud_bus := 1, ud_address := 4, ud_serial := ''abc'', ud_alive := True,
     ud_ep_in := 0x85, ud_ep_out := 4, ud_wMaxPacketSize := 512, ud_speed := 480000000, 
     ud_devdesc := devdesc1\<rparr>"

definition dev1 :: mux_device where
  "dev1 = dev_zero\<lparr>dev_usbdev := 1, dev_id := 1, dev_state := MUXDEV_ACTIVE, dev_visible := True,
     dev_connections := Some [4], dev_next_sport := 2, dev_version := 2,
     dev_tx_seq := Some 5, dev_rx_seq := Some 9\<rparr>"

definition client1 :: "bytes mux_client" where
  "client1 = client_zero\<lparr>cl_fd := 7, cl_ob_buf := None, cl_ob_capacity := REPLY_BUF_SIZE,
     cl_ib_capacity := CMD_BUF_SIZE, cl_events := POLLIN, cl_devents := POLLIN, cl_connect_tag := 3,
     cl_connect_device := 1, cl_state := CLIENT_CONNECTED, cl_proto_version := 1\<rparr>"

definition client2 :: "bytes mux_client" where
  "client2 = client_zero\<lparr>cl_fd := 8, cl_ob_buf := Some [], cl_ob_capacity := REPLY_BUF_SIZE,
     cl_ib_buf := Some [], cl_ib_capacity := CMD_BUF_SIZE, cl_events := POLLIN,
     cl_state := CLIENT_COMMAND, cl_number := 1\<rparr>"

definition conn1 :: mux_connection where
  "conn1 = conn_zero\<lparr>conn_dev := 2, conn_client := Some 3, conn_state := CONN_CONNECTED,
     conn_sport := 1, conn_dport := 62078, conn_tx_seq := 1, conn_tx_ack := 1, conn_tx_acked := 1,
     conn_tx_win := 131072, conn_rx_ack := 1, conn_rx_win := 131072, conn_max_payload := MAX_PAYLOAD,
     conn_sendable := MAX_PAYLOAD, conn_ib_buf := [10, 11, 12], conn_ib_size := 3,
     conn_ib_capacity := CONN_INBUF_SIZE, conn_ob_capacity := CONN_OUTBUF_SIZE,
     conn_events := POLLIN OR POLLOUT\<rparr>"

definition fsys0 :: fsys where
  "fsys0 = \<lparr>fs_config_dir = Some ''/c'', fs_dirs = {''/'', ''.'', ''/c''}, fs_files = Map.empty\<rparr>"

definition misc0 :: misc where
  "misc0 = \<lparr>fsys = fsys0, no_preflight = True, workers = [], cbdata = Map.empty,
     next_dev_poll_time = (0, 0), devlist_failures = 0, device_polling = False, device_hotplug = True,
     should_exit = False, should_discover = False, opt_enable_exit = False, use_logfile = False,
     report_to_parent = False, log_level = 2, log_syslog = False\<rparr>"

definition state0 :: "bytes daemon" where
  "state0 = \<lparr>conns = Map.empty, devs = Map.empty, clients = Map.empty, udevs = [1 \<mapsto> udev1],
     xfers = Map.empty, contexts = Map.empty, mem = Map.empty, device_list = [], client_list = [], usb_device_list = [1],
     next_device_id = 1, client_number = 0, device_list_mutex = False, client_list_mutex = False,
     misc = misc0, next_ptr = 100, calls = 0, clock = 0, trace = [], fault = None\<rparr>"

text \<open>One device with one connection to a client, and a second client without one.\<close>

definition state1 :: "bytes daemon" where
  "state1 = state0\<lparr>conns := [4 \<mapsto> conn1], devs := [2 \<mapsto> dev1],
     clients := [3 \<mapsto> client1, 5 \<mapsto> client2], device_list := [2], client_list := [3, 5],
     next_device_id := 2, client_number := 2\<rparr>"

lemmas sample_defs = devdesc1_def udev1_def dev1_def client1_def client2_def conn1_def fsys0_def misc0_def state0_def
  udev_zero_def dev_zero_def client_zero_def conn_zero_def

end
