(* ===== verification/Listeners.thy ===== *)
theory Listeners
  imports Device_Inv
begin

text \<open>
  Notifications: every client that listens gets exactly one message, behind what is
  already pending for it, and no other client notices anything.
\<close>

section \<open>A change of every client\<close>

lemma tables_map_client:
  assumes ok: "tables_ok ct dt lt"
    and f: "\<And>cl. cl_state (f cl) = cl_state cl" "\<And>cl. cl_connect_device (f cl) = cl_connect_device cl"
  shows "tables_ok ct dt (\<lambda>c. map_option f (lt c))"
proof (rule tablesI, goal_cases)
  case (1 k C)
  obtain D ks c cl where "conn_ok C" "dt (conn_dev C) = Some D" "dev_connections D = Some ks" "k \<in> set ks"
      "conn_client C = Some c" "lt c = Some cl" "linked (conn_state C) (cl_state cl)" "cl_connect_device cl = dev_id D"
    using session [OF ok 1] by blast
  then show ?case using f by auto
next
  case (2 d D ks)
  then show ?case using tablesD_dev [OF ok] by blast
next
  case (3 k1 k2 C1 C2)
  then show ?case using tablesD_client [OF ok] tablesD_sport [OF ok] by blast
next
  case (4 d1 d2 D1 D2)
  then show ?case using tablesD_id [OF ok] by blast
next
  case (5 c cl)
  then obtain cl0 where "lt c = Some cl0" "busy (cl_state cl0)" using f by auto
  then show ?case using tablesD_busy [OF ok] by blast
qed

section \<open>Telling the listeners\<close>

text \<open>What a notice does to a client, given the message for it.\<close>

definition told :: "('p mux_client \<Rightarrow> usbmuxd_msgtype \<times> bytes) \<Rightarrow> 'p mux_client \<Rightarrow> 'p mux_client" where
  "told notice cl = (if cl_state cl = CLIENT_LISTEN then queued 0 (fst (notice cl)) (snd (notice cl)) cl else cl)"

lemma told_simps [simp]:
  "cl_state (told notice cl) = cl_state cl" "cl_connect_device (told notice cl) = cl_connect_device cl"
  "cl_fd (told notice cl) = cl_fd cl" "cl_proto_version (told notice cl) = cl_proto_version cl"
  by (simp_all add: told_def)

text \<open>A function that queues the notice for a client that listens.\<close>

definition sends :: "'p ext \<Rightarrow> ('p mux_client \<Rightarrow> usbmuxd_msgtype \<times> bytes) \<Rightarrow> (ptr \<Rightarrow> ('p, int) mux) \<Rightarrow> bool" where
  "sends E notice send \<longleftrightarrow> (\<forall>cl. length (snd (notice cl)) \<le> 4096) \<and>
     (\<forall>s c cl. clients s c = Some cl \<longrightarrow> ob_calm cl \<longrightarrow>
        wp (send c) (\<lambda>_ s'. after_queue E c (queued 0 (fst (notice cl)) (snd (notice cl)) cl) s s') s)"

lemma told_ok:
  assumes "client_ok cl" and "cl_state cl = CLIENT_LISTEN \<Longrightarrow> unat (cl_ob_capacity cl) < 2 ^ 31"
    and "length (snd (notice cl)) \<le> 4096"
  shows "client_ok (told notice cl)"
proof (cases "cl_state cl = CLIENT_LISTEN")
  case True
  have "cl_ob_ok cl" "ob_small cl (length (snd (notice cl)))"
    using assms True by (auto simp: client_ok_def ob_small_def)
  note q = queued_ok(1) [OF this, of 0 "fst (notice cl)"]
  have "cl_ob_ok (told notice cl)" "cl_events (told notice cl) = cl_events cl OR POLLOUT"
    "cl_ib_buf (told notice cl) = cl_ib_buf cl" "cl_ib_size (told notice cl) = cl_ib_size cl"
    "cl_ib_capacity (told notice cl) = cl_ib_capacity cl"
    using True q by (simp_all add: told_def)
  then show ?thesis using assms(1) True by (auto simp: client_ok_def)
next
  case False
  then show ?thesis using assms(1) by (simp add: told_def)
qed

lemma wp_tell_loop:
  assumes send: "sends E notice send" and "distinct l" and "\<And>c. c \<in> set l \<Longrightarrow> clients t c = clients s c"
    and "\<And>c. c \<in> set l \<Longrightarrow> c \<in> set (client_list t)" and "\<And>c. c \<in> set l \<Longrightarrow> \<exists>cl. clients t c = Some cl"
    and calm: "\<And>c cl. clients s c = Some cl \<Longrightarrow> cl_state cl = CLIENT_LISTEN \<Longrightarrow> ob_calm cl"
  shows "wp (foreach_m client_list (\<lambda>c. do {
       cl \<leftarrow> rd_client c;
       whenM (cl_state cl = CLIENT_LISTEN) (do { send c; skip }) }) l)
     (\<lambda>_ s'. conns s' = conns t \<and> devs s' = devs t \<and> io_rest t s' \<and> trace s' = trace t \<and>
       clients s' = (\<lambda>c. if c \<in> set l then map_option (told notice) (clients s c) else clients t c)) t"
  using assms(2-5)
proof (induction l arbitrary: t)
  case Nil
  then show ?case by (simp add: wp_rules)
next
  case (Cons c l)
  obtain cl where cl: "clients t c = Some cl" "clients s c = Some cl" using Cons.prems(2,4) by fastforce
  have rest: "wp (foreach_m client_list (\<lambda>c. do {
       cl \<leftarrow> rd_client c;
       whenM (cl_state cl = CLIENT_LISTEN) (do { send c; skip }) }) l)
     (\<lambda>_ s'. conns s' = conns t \<and> devs s' = devs t \<and> io_rest t s' \<and> trace s' = trace t \<and>
       clients s' = (\<lambda>x. if x \<in> set (c # l) then map_option (told notice) (clients s x) else clients t x)) u"
    if u: "conns u = conns t" "devs u = devs t" "io_rest t u" "trace u = trace t" "clients u = (clients t)(c \<mapsto> told notice cl)" for u
  proof (rule wp_mono [OF Cons.IH], goal_cases)
    case (5 _ s')
    then show ?case using u cl io_rest_trans [OF u(3), of s'] by auto
  qed (use Cons.prems u io_restD(2) [OF u(3)] in auto)
  show ?case
  proof (cases "cl_state cl = CLIENT_LISTEN")
    case True
    have "wp (send c) (\<lambda>_ u. after_queue E c (told notice cl) t u) t"
      using send True cl calm [OF cl(2)] unfolding sends_def told_def by auto
    then have "wp (send c) (\<lambda>_. wp (foreach_m client_list (\<lambda>c. do {
         cl \<leftarrow> rd_client c;
         whenM (cl_state cl = CLIENT_LISTEN) (do { send c; skip }) }) l)
       (\<lambda>_ s'. conns s' = conns t \<and> devs s' = devs t \<and> io_rest t s' \<and> trace s' = trace t \<and>
         clients s' = (\<lambda>x. if x \<in> set (c # l) then map_option (told notice) (clients s x) else clients t x))) t"
      by (rule wp_mono) (rule rest; simp add: after_queueD)
    then show ?thesis using True cl Cons.prems(3) by (simp add: wp_rules wp_eta)
  next
    case False
    have "(clients t)(c \<mapsto> told notice cl) = clients t" using cl False by (auto simp: told_def)
    with rest [of t] False cl Cons.prems(3) show ?thesis by (simp add: wp_rules)
  qed
qed

lemma wp_tell_listeners:
  assumes wf: "wf s" and calm: "calm s" and send: "sends E notice send"
  shows "wp (tell_listeners send) (\<lambda>_ s'. conns s' = conns s \<and> devs s' = devs s \<and> io_rest s s' \<and> trace s' = trace s \<and>
     clients s' = (\<lambda>c. map_option (told notice) (clients s c)) \<and> wf s') s"
proof -
  have ob: "ob_calm cl" if "clients s c = Some cl" "cl_state cl = CLIENT_LISTEN" for c cl
    using calm that wfD(7) [OF wf that(1)] by (simp add: calm_def ob_calm_def client_ok_def)
  have all: "(\<lambda>c. if c \<in> set (client_list s) then map_option f (clients s c) else clients s c) =
      (\<lambda>c. map_option f (clients s c))" for f
    using wfD(4) [OF wf] by fastforce
  have ok: "wf t" if t: "conns t = conns s" "devs t = devs s" "io_rest s t" "clients t = (\<lambda>c. map_option (told notice) (clients s c))" for t
  proof -
    note r = io_restD [OF t(3)]
    have "client_ok (told notice cl)" if "clients s c = Some cl" for c cl
      using told_ok [OF wfD(7) [OF wf that], of notice] send calm that unfolding sends_def calm_def by simp
    moreover have "tables_ok (conns t) (devs t) (clients t)"
      unfolding t(1,2,4) by (rule tables_map_client [OF wfD(5) [OF wf]]) simp_all
    moreover have "dom (clients t) = dom (clients s)" unfolding t(4) by auto
    ultimately show ?thesis
      by (intro wf_step [OF wf r(8,11) _ r(1)]) (use wfD [OF wf] t r in auto)
  qed
  show ?thesis
    unfolding tell_listeners_def wp_bind wp_gets
    by (rule wp_mono [OF wp_tell_loop [OF send wfD(2) [OF wf] refl _ _ ob]])
      (use wfD(4) [OF wf] all ok in auto)
qed

section \<open>The notices\<close>

text \<open>The property list library prints the notices, in at most a page.\<close>

definition notices_ok :: "'p ext \<Rightarrow> bool" where
  "notices_ok E \<longleftrightarrow> (\<forall>kind i. \<exists>xml. plist_to_xml E (device_msg_plist E kind i) = Some xml \<and> length xml \<le> 4096)"

definition device_notice :: "'p ext \<Rightarrow> usbmuxd_msgtype \<Rightarrow> string \<Rightarrow> u32 \<Rightarrow> 'p mux_client \<Rightarrow> usbmuxd_msgtype \<times> bytes" where
  "device_notice E msg kind device_id cl =
     (if cl_proto_version cl = 1 then (MESSAGE_PLIST, the (plist_to_xml E (device_msg_plist E kind device_id)))
      else (msg, le32 device_id))"

lemma sends_device_notice:
  fixes E :: "'p ext"
  assumes "world_ok E" and "notices_ok E"
  shows "sends E (device_notice E MESSAGE_DEVICE_REMOVE ''Detached'' i) (\<lambda>c. send_device_remove E c i)"
    "sends E (device_notice E MESSAGE_DEVICE_PAIRED ''Paired'' i) (\<lambda>c. send_device_paired E c i)"
proof -
  have re: "os_realloc E t n" for t n using assms(1) by (simp add: world_ok_def replies_ok_def)
  have small: "length (snd (device_notice E msg kind i cl)) \<le> 4096" for msg kind cl
  proof -
    obtain xml where "plist_to_xml E (device_msg_plist E kind i) = Some xml" "length xml \<le> 4096"
      using assms(2) unfolding notices_ok_def by blast
    then show ?thesis by (simp add: device_notice_def)
  qed
  have queue: "wp (output_buffer_add_message E c 0 (fst (device_notice E msg kind i cl)) (snd (device_notice E msg kind i cl)))
      (\<lambda>_ s'. after_queue E c (queued 0 (fst (device_notice E msg kind i cl)) (snd (device_notice E msg kind i cl)) cl) s s') s"
    if "clients s c = Some cl" "ob_calm cl" for s c cl msg kind
    by (rule wp_mono [OF wp_output_buffer_add_message [OF that(1) _ _ re]])
      (use that small [of msg kind cl] in \<open>auto simp: ob_calm_def ob_small_def\<close>)
  have xml: "\<exists>xml. plist_to_xml E (device_msg_plist E kind i) = Some xml" for kind
    using assms(2) unfolding notices_ok_def by blast
  show "sends E (device_notice E MESSAGE_DEVICE_REMOVE ''Detached'' i) (\<lambda>c. send_device_remove E c i)"
    unfolding sends_def
  proof (intro conjI allI impI small)
    fix s :: "'p daemon" and c cl
    assume "clients s c = Some cl" "ob_calm cl"
    with queue [OF this, of MESSAGE_DEVICE_REMOVE "''Detached''"] xml [of "''Detached''"]
    show "wp (send_device_remove E c i) (\<lambda>_ s'. after_queue E c
        (queued 0 (fst (device_notice E MESSAGE_DEVICE_REMOVE ''Detached'' i cl))
          (snd (device_notice E MESSAGE_DEVICE_REMOVE ''Detached'' i cl)) cl) s s') s"
      by (cases "cl_proto_version cl = 1") (auto simp: send_device_remove_def send_plist_def device_notice_def wp_rules)
  qed
  show "sends E (device_notice E MESSAGE_DEVICE_PAIRED ''Paired'' i) (\<lambda>c. send_device_paired E c i)"
    unfolding sends_def
  proof (intro conjI allI impI small)
    fix s :: "'p daemon" and c cl
    assume "clients s c = Some cl" "ob_calm cl"
    with queue [OF this, of MESSAGE_DEVICE_PAIRED "''Paired''"] xml [of "''Paired''"]
    show "wp (send_device_paired E c i) (\<lambda>_ s'. after_queue E c
        (queued 0 (fst (device_notice E MESSAGE_DEVICE_PAIRED ''Paired'' i cl))
          (snd (device_notice E MESSAGE_DEVICE_PAIRED ''Paired'' i cl)) cl) s s') s"
      by (cases "cl_proto_version cl = 1") (auto simp: send_device_paired_def send_plist_def device_notice_def wp_rules)
  qed
qed

text \<open>The two handlers that tell that a device has gone or was paired.\<close>

lemma wp_locked_tell:
  assumes wf: "wf s" and calm: "calm s" and free: "\<not> client_list_mutex s" and send: "sends E notice send"
  shows "wp (do { lock_clients; tell_listeners send; unlock_clients }) (\<lambda>_ s'. safe s s' \<and> conns s' = conns s \<and>
     devs s' = devs s \<and> io_rest s s' \<and> trace s' = trace s \<and> clients s' = (\<lambda>c. map_option (told notice) (clients s c))) s"
proof -
  define s1 where "s1 = s\<lparr>client_list_mutex := True\<rparr>"
  have s1: "wf s1" "calm s1" using wf calm by (simp_all add: s1_def wf_def calm_def dev_ok_def dev_sendable_def)
  have "wp (tell_listeners send) (\<lambda>_. wp unlock_clients (\<lambda>_ s'. safe s s' \<and> conns s' = conns s \<and>
     devs s' = devs s \<and> io_rest s s' \<and> trace s' = trace s \<and> clients s' = (\<lambda>c. map_option (told notice) (clients s c)))) s1"
  proof (rule wp_mono [OF wp_tell_listeners [OF s1 send]], goal_cases)
    case (1 _ t)
    then have t: "conns t = conns s" "devs t = devs s" "io_rest s1 t" "trace t = trace s" "wf t"
      "clients t = (\<lambda>c. map_option (told notice) (clients s c))" by (simp_all add: s1_def)
    have r: "io_rest s (t\<lparr>client_list_mutex := False\<rparr>)" using t(3) free by (simp add: io_rest_def s1_def)
    moreover have "wf (t\<lparr>client_list_mutex := False\<rparr>)" using t(5) by (simp add: wf_def dev_ok_def dev_sendable_def)
    ultimately have "safe s (t\<lparr>client_list_mutex := False\<rparr>)" by (intro safe_io)
    with r t show ?case by (simp add: wp_rules)
  qed
  then show ?thesis using free by (simp add: wp_rules s1_def)
qed

end
