(* ===== verification/Sample_Inv.thy ===== *)
theory Sample_Inv
  imports Sample Listeners
begin

text \<open>
  The sample states satisfy the invariant, so the theorems that assume it apply to them:
  one connection that is up, one that waits for the device beside a client that listens,
  and a device that has not answered yet.
\<close>

definition client3 :: "bytes mux_client" where
  "client3 = client2\<lparr>cl_fd := 7, cl_state := CLIENT_CONNECTING1, cl_connect_device := 1, cl_connect_tag := 3\<rparr>"

definition client4 :: "bytes mux_client" where
  "client4 = client2\<lparr>cl_state := CLIENT_LISTEN\<rparr>"

definition conn2 :: mux_connection where
  "conn2 = conn1\<lparr>conn_state := CONN_CONNECTING, conn_ib_buf := [], conn_ib_size := 0, conn_sendable := 0, conn_events := 0\<rparr>"

definition state2 :: "bytes daemon" where
  "state2 = state1\<lparr>conns := [4 \<mapsto> conn2], clients := [3 \<mapsto> client3, 5 \<mapsto> client4]\<rparr>"

definition dev3 :: mux_device where
  "dev3 = dev_zero\<lparr>dev_usbdev := 1, dev_id := 1, dev_next_sport := 1\<rparr>"

definition state3 :: "bytes daemon" where
  "state3 = state0\<lparr>devs := [2 \<mapsto> dev3], clients := [5 \<mapsto> client2], device_list := [2], client_list := [5]\<rparr>"

lemmas sample_more = client3_def client4_def conn2_def state2_def dev3_def state3_def state1_def sample_defs

lemma sample_world: "world_ok ext0" "notices_ok ext0"
  using ext0_ok by (simp_all add: world_ok_def notices_ok_def device_msg_plist_def plist_set_all_def ext0_def)

text \<open>One session between the device at 2 and the client at 3, by the connection at 4.\<close>

lemma one_session:
  assumes "conn_ok C" and "conn_dev C = 2" and "conn_client C = Some 3" and "linked (conn_state C) (cl_state cl)"
    and "cl_connect_device cl = dev_id D" and "dev_connections D = Some [4]" and "\<not> busy (cl_state cl')"
  shows "tables_ok [4 \<mapsto> C] [2 \<mapsto> D] [3 \<mapsto> cl, 5 \<mapsto> cl']"
  by (rule tablesI) (use assms in \<open>auto split: if_splits\<close>)

lemma no_session:
  assumes "dev_connections D = None" and "\<not> busy (cl_state cl)"
  shows "tables_ok Map.empty [2 \<mapsto> D] [5 \<mapsto> cl]"
  by (rule tablesI) (use assms in \<open>auto split: if_splits\<close>)

lemma sample_parts:
  "conn_ok conn1" "conn_ok conn2" "client_ok client1" "client_ok client2" "client_ok client3" "client_ok client4"
  by (simp_all add: sample_more conn_ok_def conn_ib_ok_def client_ok_def cl_ob_ok_def size_consts MAX_PAYLOAD_def)

lemma wf_samples: "wf state1" "wf state2" "wf state3"
proof -
  have "tables_ok (conns state1) (devs state1) (clients state1)"
    unfolding state1_def by simp (rule one_session, simp_all add: sample_parts, simp_all add: sample_defs)
  then show "wf state1"
    using sample_parts by (auto simp: wf_def state1_def dev_ok_def dev_sendable_def split: if_splits)
      (auto simp: sample_defs size_consts)
  have "tables_ok (conns state2) (devs state2) (clients state2)"
    unfolding state2_def state1_def by simp (rule one_session, simp_all add: sample_parts, simp_all add: sample_more)
  then show "wf state2"
    using sample_parts by (auto simp: wf_def state2_def state1_def dev_ok_def dev_sendable_def split: if_splits)
      (auto simp: sample_defs size_consts)
  have "tables_ok (conns state3) (devs state3) (clients state3)"
    unfolding state3_def state0_def by simp (rule no_session, simp_all add: sample_more)
  then show "wf state3"
    using sample_parts by (auto simp: wf_def state3_def dev_ok_def dev_sendable_def split: if_splits)
      (auto simp: sample_defs dev3_def size_consts)
qed

lemma calm_samples: "calm state1" "calm state2" "calm state3"
  by (auto simp: calm_def sample_more size_consts split: if_splits)

lemma sample_states:
  "\<not> client_list_mutex state1" "\<not> client_list_mutex state2" "\<not> client_list_mutex state3"
  "\<not> device_list_mutex state1" "\<not> device_list_mutex state2" "\<not> device_list_mutex state3"
  "fault state1 = None" "fault state2 = None" "fault state3 = None"
  "conns state1 4 = Some conn1" "conns state2 4 = Some conn2" "clients state1 3 = Some client1"
  "clients state1 5 = Some client2" "clients state2 3 = Some client3" "clients state2 5 = Some client4"
  "devs state1 2 = Some dev1" "devs state2 2 = Some dev1" "devs state3 2 = Some dev3" "udevs state1 (Suc 0) = Some udev1"
  "conn_client conn1 = Some 3" "conn_client conn2 = Some 3" "conn_dev conn1 = 2" "dev_usbdev dev1 = Suc 0"
  "dev_connections dev1 = Some [4]" "dev_id dev1 = 1" "dev_id dev3 = 1" "dev_state dev3 = MUXDEV_INIT"
  "cl_state client1 = CLIENT_CONNECTED" "cl_state client2 = CLIENT_COMMAND" "cl_state client3 = CLIENT_CONNECTING1"
  "cl_state client4 = CLIENT_LISTEN" "conn_state conn1 = CONN_CONNECTED" "conn_state conn2 = CONN_CONNECTING"
  by (simp_all add: sample_more)

end
