(* ===== verification/Usb_Desc.thy ===== *)
theory Usb_Desc
  imports Notify "HOL-Library.Signed_Division"
begin

text \<open>
  The computations of \<^verbatim>\<open>usb.c\<close> on descriptors, strings and times: which devices are
  served, in which mode a device is, which interface and endpoints carry the traffic,
  how the serial number is read from a string descriptor, and when the next poll is due.
\<close>

section \<open>Which devices\<close>

definition VID_APPLE :: u16 where "VID_APPLE = 0x5ac"
definition PID_RANGE_LOW :: u16 where "PID_RANGE_LOW = 0x1290"
definition PID_RANGE_MAX :: u16 where "PID_RANGE_MAX = 0x12af"
definition PID_APPLE_SILICON_RESTORE_LOW :: u16 where "PID_APPLE_SILICON_RESTORE_LOW = 0x1901"
definition PID_APPLE_SILICON_RESTORE_MAX :: u16 where "PID_APPLE_SILICON_RESTORE_MAX = 0x1905"
definition INTERFACE_CLASS :: u8 where "INTERFACE_CLASS = 255"
definition INTERFACE_SUBCLASS :: u8 where "INTERFACE_SUBCLASS = 254"
definition INTERFACE_PROTOCOL :: u8 where "INTERFACE_PROTOCOL = 2"
definition APPLE_VEND_SPECIFIC_GET_MODE :: u8 where "APPLE_VEND_SPECIFIC_GET_MODE = 0x45"
definition APPLE_VEND_SPECIFIC_SET_MODE :: u8 where "APPLE_VEND_SPECIFIC_SET_MODE = 0x52"
definition DEVICE_POLL_TIME :: int where "DEVICE_POLL_TIME = 1000"
definition NUM_RX_LOOPS :: nat where "NUM_RX_LOOPS = 3"

lemmas usb_ids = VID_APPLE_def PID_RANGE_LOW_def PID_RANGE_MAX_def PID_APPLE_T2_COPROCESSOR_def
  PID_APPLE_SILICON_RESTORE_LOW_def PID_APPLE_SILICON_RESTORE_MAX_def

lemmas interface_ids = INTERFACE_CLASS_def INTERFACE_SUBCLASS_def INTERFACE_PROTOCOL_def

definition unsupported :: "usb_devdesc \<Rightarrow> bool" where
  "unsupported dd \<longleftrightarrow>
     idVendor dd \<noteq> VID_APPLE \<or>
     (idProduct dd \<noteq> PID_APPLE_T2_COPROCESSOR \<and>
      (idProduct dd < PID_APPLE_SILICON_RESTORE_LOW \<or> idProduct dd > PID_APPLE_SILICON_RESTORE_MAX) \<and>
      (idProduct dd < PID_RANGE_LOW \<or> idProduct dd > PID_RANGE_MAX))"

section \<open>Modes\<close>

definition is_valeria :: "usb_interface \<Rightarrow> bool" where
  "is_valeria i \<longleftrightarrow> bInterfaceClass i = INTERFACE_CLASS \<and> bInterfaceSubClass i = 42 \<and> bInterfaceProtocol i = 255"

definition is_cdc_ncm :: "usb_interface \<Rightarrow> bool" where
  "is_cdc_ncm i \<longleftrightarrow> bInterfaceClass i = 2 \<and> bInterfaceSubClass i = 0xd"

definition is_usbmux :: "usb_interface \<Rightarrow> bool" where
  "is_usbmux i \<longleftrightarrow> bInterfaceClass i = INTERFACE_CLASS \<and> bInterfaceSubClass i = INTERFACE_SUBCLASS \<and>
     bInterfaceProtocol i = INTERFACE_PROTOCOL"

text \<open>The mode that the number of configurations gives away; \<open>None\<close> if configuration 5 decides.\<close>

definition mode_by_count :: "u8 \<Rightarrow> int option" where
  "mode_by_count n =
     (if n = 1 then Some 5 else if n \<le> 4 then Some 1 else if n = 6 then Some 4
      else if n \<noteq> 5 then Some 0 else None)"

definition mode_by_config :: "usb_interface list \<Rightarrow> int" where
  "mode_by_config is =
     (let has_valeria = list_ex is_valeria is;
          has_cdc_ncm = list_ex is_cdc_ncm is;
          has_usbmux = list_ex is_usbmux is
      in if has_valeria \<and> has_usbmux then 2
         else if has_cdc_ncm \<and> has_usbmux then 3
         else 0)"

section \<open>Interface and endpoints\<close>

text \<open>
  The test that \<^verbatim>\<open>set_valid_configuration\<close> makes, with \<^verbatim>\<open>||\<close> between the three conditions.
\<close>

definition looks_usbmux :: "usb_interface \<Rightarrow> bool" where
  "looks_usbmux i \<longleftrightarrow> bInterfaceClass i = INTERFACE_CLASS \<or> bInterfaceSubClass i = INTERFACE_SUBCLASS \<or>
     bInterfaceProtocol i = INTERFACE_PROTOCOL"

definition ep_is_out :: "u8 \<Rightarrow> bool" where "ep_is_out a \<longleftrightarrow> a AND 0x80 = 0"
definition ep_is_in :: "u8 \<Rightarrow> bool" where "ep_is_in a \<longleftrightarrow> a AND 0x80 = 0x80"

text \<open>The addresses of the OUT and the IN endpoint of an interface that has one of each.\<close>

fun endpoint_pair :: "u8 list \<Rightarrow> (u8 \<times> u8) option" where
  "endpoint_pair [a, b] =
     (if ep_is_out a \<and> ep_is_in b then Some (a, b)
      else if ep_is_out b \<and> ep_is_in a then Some (b, a)
      else None)"
| "endpoint_pair _ = None"

text \<open>The first interface of a configuration that passes: its number, OUT and IN endpoint.\<close>

fun find_interface :: "usb_interface list \<Rightarrow> (u8 \<times> u8 \<times> u8) option" where
  "find_interface [] = None"
| "find_interface (i # is) =
     (if looks_usbmux i then
        case endpoint_pair (endpoints i) of
          Some (ep_out, ep_in) \<Rightarrow> Some (bInterfaceNumber i, ep_out, ep_in)
        | None \<Rightarrow> find_interface is
      else find_interface is)"

lemma endpoint_pair_SomeD:
  assumes "endpoint_pair es = Some (ep_out, ep_in)"
  shows "set es = {ep_out, ep_in}" "ep_is_out ep_out" "ep_is_in ep_in" "ep_out \<noteq> ep_in"
  using assms by (cases es rule: endpoint_pair.cases; auto simp: ep_is_out_def ep_is_in_def split: if_splits)+

lemma find_interface_SomeD:
  "find_interface is = Some (n, ep_out, ep_in) \<Longrightarrow>
   \<exists>i\<in>set is. looks_usbmux i \<and> bInterfaceNumber i = n \<and> endpoint_pair (endpoints i) = Some (ep_out, ep_in)"
  by (induction "is" rule: find_interface.induct) (auto split: if_splits option.splits)

lemma find_interface_NoneD:
  "find_interface is = None \<Longrightarrow> i \<in> set is \<Longrightarrow> looks_usbmux i \<Longrightarrow> endpoint_pair (endpoints i) = None"
  by (induction "is" rule: find_interface.induct) (auto split: if_splits option.splits)

section \<open>The serial number\<close>

definition rd8 :: "bytes \<Rightarrow> nat \<Rightarrow> u8 option" where
  "rd8 buf i = (if i < length buf then Some (buf ! i) else None)"

text \<open>
  A string descriptor holds its length in the first byte, and from the third one on
  UTF-16 code units. \<open>di\<close> counts the characters stored so far; the array has 256 bytes.
\<close>

function serial_chars :: "bytes \<Rightarrow> nat \<Rightarrow> nat \<Rightarrow> nat \<Rightarrow> string option" where
  "serial_chars data len di si =
     (if si < len \<and> di < 255 then
        case rd8 data si of
          None \<Rightarrow> None
        | Some c \<Rightarrow>
            if c AND 0x80 \<noteq> 0 then map_option (Cons (CHR ''?'')) (serial_chars data len (di + 1) (si + 2))
            else (case rd8 data (si + 1) of
                None \<Rightarrow> None
              | Some h \<Rightarrow>
                  if h \<noteq> 0 then map_option (Cons (CHR ''?'')) (serial_chars data len (di + 1) (si + 2))
                  else if c = 0 then Some []
                  else map_option (Cons (char_of (unat c))) (serial_chars data len (di + 1) (si + 2)))
      else Some [])"
  by pat_completeness auto
termination by (relation "measure (\<lambda>(data, len, di, si). 255 - di)") auto

declare serial_chars.simps [simp del]

text \<open>A UDID of 24 digits gets a hyphen behind the first 8.\<close>

definition hyphenate :: "string \<Rightarrow> string" where
  "hyphenate s = (if length s = 24 then take 8 s @ ''-'' @ take 16 (drop 8 s) else s)"

lemma serial_chars_length:
  "serial_chars data len di si = Some s \<Longrightarrow> di \<le> 255 \<Longrightarrow> di + length s \<le> 255"
proof (induction data len di si arbitrary: s rule: serial_chars.induct)
  case (1 data len di si)
  show ?case
    using 1 by (subst (asm) serial_chars.simps) (auto split: if_splits option.splits)
qed

lemma serial_chars_Some:
  "len < length data \<Longrightarrow> \<exists>s. serial_chars data len di si = Some s"
proof (induction data len di si rule: serial_chars.induct)
  case (1 data len di si)
  show ?case
    using 1 by (subst serial_chars.simps) (auto simp: rd8_def split: if_splits)
qed

text \<open>The descriptor that holds an ASCII string, and a character that survives.\<close>

definition utf16 :: "string \<Rightarrow> bytes" where
  "utf16 s = concat (map (\<lambda>c. [of_nat (of_char c), 0]) s)"

definition string_descriptor :: "string \<Rightarrow> bytes" where
  "string_descriptor s = [of_nat (2 + 2 * length s), 3] @ utf16 s"

definition ascii :: "char \<Rightarrow> bool" where
  "ascii c \<longleftrightarrow> (of_char c :: nat) < 128 \<and> (of_char c :: nat) \<noteq> 0"

lemma length_utf16 [simp]: "length (utf16 s) = 2 * length s"
  by (induction s) (simp_all add: utf16_def)

lemma ascii_byte:
  assumes "ascii c"
  shows "(of_nat (of_char c) :: u8) AND 0x80 = 0" "(of_nat (of_char c) :: u8) \<noteq> 0"
    "char_of (unat (of_nat (of_char c) :: u8)) = c"
proof -
  have n: "(of_char c :: nat) < 128" "(of_char c :: nat) \<noteq> 0" using assms by (simp_all add: ascii_def)
  have u: "unat (of_nat (of_char c) :: u8) = of_char c" using n by (simp add: unat_of_nat)
  show "char_of (unat (of_nat (of_char c) :: u8)) = c" by (simp add: u)
  show "(of_nat (of_char c) :: u8) \<noteq> 0" using n u by (metis unat_0)
  have "\<not> bit (unat (of_nat (of_char c) :: u8)) 7" using n unfolding u by (simp add: bit_iff_odd)
  then have "\<not> bit (of_nat (of_char c) :: u8) 7" by (simp add: bit_unsigned_iff)
  then have "(of_nat (of_char c) :: u8) AND 2 ^ 7 = 0" using and_exp_eq_0_iff_not_bit by blast
  then show "(of_nat (of_char c) :: u8) AND 0x80 = 0" by simp
qed

lemma serial_chars_ascii:
  assumes "list_all ascii s" and "data = pre @ utf16 s @ post" and "si = length pre" and "len = si + 2 * length s"
    and "di + length s \<le> 255"
  shows "serial_chars data len di si = Some s"
  using assms
proof (induction s arbitrary: pre di si)
  case Nil
  then show ?case by (subst serial_chars.simps) simp
next
  case (Cons c s)
  have c: "rd8 data si = Some (of_nat (of_char c))" "rd8 data (si + 1) = Some 0"
    using Cons.prems by (simp_all add: rd8_def utf16_def nth_append)
  have "serial_chars data len (di + 1) (si + 2) = Some s"
    by (rule Cons.IH [where pre = "pre @ [of_nat (of_char c), 0]"]) (use Cons.prems in \<open>simp_all add: utf16_def\<close>)
  then show ?case
    using Cons.prems c ascii_byte [of c] by (subst serial_chars.simps) simp
qed

section \<open>Requests\<close>

text \<open>\<^verbatim>\<open>libusb_fill_control_setup\<close>: the eight bytes of a setup packet.\<close>

definition control_setup :: "u8 \<Rightarrow> u8 \<Rightarrow> u16 \<Rightarrow> u16 \<Rightarrow> u16 \<Rightarrow> bytes" where
  "control_setup bmRequestType bRequest wValue wIndex wLength =
     [bmRequestType, bRequest] @ le16 wValue @ le16 wIndex @ le16 wLength"

lemma length_control_setup [simp]: "length (control_setup t r v i l) = 8"
  by (simp add: control_setup_def)

text \<open>\<^verbatim>\<open>atoi\<close>: blanks, a sign, then digits.\<close>

definition digit_val :: "char \<Rightarrow> int" where
  "digit_val c = int (of_char c) - 48"

definition is_digit :: "char \<Rightarrow> bool" where
  "is_digit c \<longleftrightarrow> 48 \<le> (of_char c :: nat) \<and> (of_char c :: nat) \<le> 57"

definition is_blank :: "char \<Rightarrow> bool" where
  "is_blank c \<longleftrightarrow> c = CHR '' '' \<or> 9 \<le> (of_char c :: nat) \<and> (of_char c :: nat) \<le> 13"

definition digits_val :: "string \<Rightarrow> int" where
  "digits_val s = foldl (\<lambda>n c. 10 * n + digit_val c) 0 (takeWhile is_digit s)"

definition atoi :: "string \<Rightarrow> int" where
  "atoi s = (case dropWhile is_blank s of
       [] \<Rightarrow> 0
     | c # cs \<Rightarrow> if c = CHR ''-'' then - digits_val cs
                 else if c = CHR ''+'' then digits_val cs else digits_val (c # cs))"

section \<open>Times\<close>

text \<open>
  A time is a pair of seconds and microseconds; a value stored in an \<^verbatim>\<open>int\<close> keeps its low
  32 bits.
\<close>

definition to_int :: "int \<Rightarrow> int" where
  "to_int x = sint (word_of_int x :: 32 word)"

definition poll_after :: "int \<times> int \<Rightarrow> int \<times> int" where
  "poll_after tv =
     (let usec = snd tv + DEVICE_POLL_TIME * 1000
      in (fst tv + usec sdiv 1000000, usec smod 1000000))"

definition remain_ms :: "int \<times> int \<Rightarrow> int \<times> int \<Rightarrow> int" where
  "remain_ms next_poll tv =
     (let msecs = to_int ((fst next_poll - fst tv) * 1000);
          msecs = to_int (msecs + (snd next_poll - snd tv) sdiv 1000)
      in if msecs < 0 then 0 else msecs)"

definition deadline :: "int \<times> int \<Rightarrow> int \<Rightarrow> int \<times> int" where
  "deadline tcur msec =
     (let usec = snd tcur + (msec smod 1000) * 1000
      in (fst tcur + msec sdiv 1000 + usec sdiv 1000000, usec smod 1000000))"

definition before :: "int \<times> int \<Rightarrow> int \<times> int \<Rightarrow> bool" where
  "before tcur tfin \<longleftrightarrow> fst tfin > fst tcur \<or> fst tfin = fst tcur \<and> snd tfin > snd tcur"

text \<open>Times in microseconds.\<close>

definition usecs :: "int \<times> int \<Rightarrow> int" where
  "usecs tv = fst tv * 1000000 + snd tv"

definition time_ok :: "int \<times> int \<Rightarrow> bool" where
  "time_ok tv \<longleftrightarrow> 0 \<le> fst tv \<and> 0 \<le> snd tv \<and> snd tv < 1000000"

lemma to_int_id: "- (2 ^ 31) \<le> x \<Longrightarrow> x < 2 ^ 31 \<Longrightarrow> to_int x = x"
  by (simp add: to_int_def sint_sbintrunc' signed_take_bit_int_eq_self)

end
