(* ===== verification/Usb.thy ===== *)
theory Usb
  imports Device Usb_Desc
begin

text \<open>
  The rest of \<^verbatim>\<open>usb.c\<close>: discovery of devices, the requests that bring a new one up, the
  receive loops, and taking a device away. libusb calls the callbacks of finished
  transfers while it handles events; \<open>handle_event\<close> is one such call. A transfer that is
  not in flight cannot finish, so such a report has no effect. Waiting for events inside
  a callback is refused by libusb with \<open>LIBUSB_ERROR_BUSY\<close>; \<open>usb_disconnect\<close> therefore takes
  the wait that its caller has as an argument.
\<close>

section \<open>Transfers\<close>

definition LIBUSB_ERROR_BUSY :: int where "LIBUSB_ERROR_BUSY = -6"

definition busy_events :: "'p ext \<Rightarrow> ('p, int) mux" where
  "busy_events E = do { t \<leftarrow> tick E; ret LIBUSB_ERROR_BUSY }"

abbreviation rd_xfer :: "ptr \<Rightarrow> ('p, xfer) mux" where
  "rd_xfer \<equiv> rd_heap xfers xfer_zero"

abbreviation up_xfer :: "ptr \<Rightarrow> (xfer \<Rightarrow> xfer) \<Rightarrow> ('p, unit) mux" where
  "up_xfer \<equiv> up_heap xfers xfers_update"

abbreviation rd_context :: "ptr \<Rightarrow> ('p, mode_context) mux" where
  "rd_context \<equiv> rd_heap contexts context_zero"

definition free_transfer :: "ptr \<Rightarrow> ('p, unit) mux" where
  "free_transfer x = do {
     xf \<leftarrow> rd_xfer x;
     whenM (xf_free_buffer xf) (free_heap mem mem_update (xf_buffer xf));
     free_heap xfers xfers_update x
   }"

definition submit_in :: "'p ext \<Rightarrow> ptr \<Rightarrow> ('p, int) mux" where
  "submit_in E x = do {
     xf \<leftarrow> rd_xfer x;
     t \<leftarrow> tick E;
     let res = libusb_submit_transfer E t xf;
     whenM (0 \<le> res) (up_xfer x (\<lambda>xf. xf\<lparr>xf_in_flight := True\<rparr>));
     ret res
   }"

definition submit_control :: "'p ext \<Rightarrow> ptr \<Rightarrow> ('p, int) mux" where
  "submit_control E x = do {
     xf \<leftarrow> rd_xfer x;
     buf \<leftarrow> rd_heap mem [] (xf_buffer xf);
     res \<leftarrow> submit_in E x;
     whenM (0 \<le> res) (emit (UsbControl (xf_user_data xf) (take 8 buf)));
     ret res
   }"

section \<open>Taking a device away\<close>

definition rx_of :: "ptr \<Rightarrow> 'p daemon \<Rightarrow> ptr list" where
  "rx_of d s = (case udevs s d of None \<Rightarrow> [] | Some u \<Rightarrow> ud_rx_xfers u)"

definition tx_of :: "ptr \<Rightarrow> 'p daemon \<Rightarrow> ptr list" where
  "tx_of d s = (case udevs s d of None \<Rightarrow> [] | Some u \<Rightarrow> ud_tx_xfers u)"

definition cancel_transfer :: "'p ext \<Rightarrow> ptr \<Rightarrow> ('p, unit) mux" where
  "cancel_transfer E x = do { xf \<leftarrow> rd_xfer x; t \<leftarrow> tick E; skip }"

fun wait_xfers :: "nat \<Rightarrow> ('p, int) mux \<Rightarrow> ptr \<Rightarrow> ('p, unit) mux" where
  "wait_xfers n events d = do {
     u \<leftarrow> rd_udev d;
     if ud_rx_xfers u \<noteq> [] \<or> ud_tx_xfers u \<noteq> [] then
       case n of
         0 \<Rightarrow> raise_fault Diverges
       | Suc m \<Rightarrow> do {
           res \<leftarrow> events;
           if res < 0 then skip else wait_xfers m events d
         }
     else skip
   }"

declare wait_xfers.simps [simp del]

definition usb_disconnect :: "'p ext \<Rightarrow> ('p, int) mux \<Rightarrow> ptr \<Rightarrow> ('p, unit) mux" where
  "usb_disconnect E events d = do {
     u \<leftarrow> rd_udev d;
     if ud_handle u = None then skip
     else do {
       foreach_m (rx_of d) (cancel_transfer E) (ud_rx_xfers u);
       foreach_m (tx_of d) (cancel_transfer E) (ud_tx_xfers u);
       wait_xfers (libusb_patience (libusb E)) events d;
       t \<leftarrow> tick E;
       up_udev d (\<lambda>u. u\<lparr>ud_handle := None\<rparr>);
       modify (\<lambda>s. s\<lparr>usb_device_list := collection_remove E (usb_device_list s) d\<rparr>);
       free_heap udevs udevs_update d
     }
   }"

definition reap_dead_devices :: "'p ext \<Rightarrow> ('p, int) mux \<Rightarrow> ('p, unit) mux" where
  "reap_dead_devices E events = do {
     l \<leftarrow> gets usb_device_list;
     foreach_m usb_device_list (\<lambda>d. do {
       u \<leftarrow> rd_udev d;
       whenM (\<not> ud_alive u) (do {
         device_remove E d;
         usb_disconnect E events d
       })
     }) l
   }"

section \<open>Callbacks of the data transfers\<close>

definition tx_callback :: "'p ext \<Rightarrow> ptr \<Rightarrow> xfer_status \<Rightarrow> ('p, unit) mux" where
  "tx_callback E x status = do {
     xf \<leftarrow> rd_xfer x;
     let d = xf_user_data xf;
     u \<leftarrow> rd_udev d;
     whenM (status \<noteq> TRANSFER_COMPLETED) (up_udev d (\<lambda>u. u\<lparr>ud_alive := False\<rparr>));
     free_heap mem mem_update (xf_buffer xf);
     up_udev d (\<lambda>u. u\<lparr>ud_tx_xfers := collection_remove E (ud_tx_xfers u) x\<rparr>);
     free_transfer x
   }"

definition rx_callback :: "'p ext \<Rightarrow> ptr \<Rightarrow> xfer_status \<Rightarrow> nat \<Rightarrow> ('p, unit) mux" where
  "rx_callback E x status actual_length = do {
     xf \<leftarrow> rd_xfer x;
     let d = xf_user_data xf;
     u \<leftarrow> rd_udev d;
     if status = TRANSFER_COMPLETED then do {
       buf \<leftarrow> rd_heap mem [] (xf_buffer xf);
       device_data_input E d (take actual_length buf);
       submit_in E x;
       skip
     } else do {
       free_heap mem mem_update (xf_buffer xf);
       up_udev d (\<lambda>u. u\<lparr>ud_rx_xfers := collection_remove E (ud_rx_xfers u) x\<rparr>);
       free_transfer x;
       up_udev d (\<lambda>u. u\<lparr>ud_alive := False\<rparr>)
     }
   }"

definition start_rx_loop :: "'p ext \<Rightarrow> ptr \<Rightarrow> ('p, int) mux" where
  "start_rx_loop E d = do {
     u \<leftarrow> rd_udev d;
     buf \<leftarrow> new_heap mem_update [];
     x \<leftarrow> new_heap xfers_update (bulk_transfer u d (ud_ep_in u) buf (unat USB_MRU) RX_CALLBACK);
     res \<leftarrow> submit_in E x;
     if res \<noteq> 0 then do { free_transfer x; ret res }
     else do {
       up_udev d (\<lambda>u. u\<lparr>ud_rx_xfers := collection_add E (ud_rx_xfers u) x\<rparr>);
       ret 0
     }
   }"

text \<open>The loops that are still to be started when one could not be.\<close>

fun start_rx_loops :: "'p ext \<Rightarrow> ptr \<Rightarrow> nat \<Rightarrow> ('p, nat) mux" where
  "start_rx_loops E d 0 = ret 0"
| "start_rx_loops E d (Suc n) = do {
     res \<leftarrow> start_rx_loop E d;
     if res < 0 then ret (Suc n) else start_rx_loops E d n
   }"

section \<open>Bringing a device up\<close>

definition get_serial_callback :: "'p ext \<Rightarrow> ptr \<Rightarrow> xfer_status \<Rightarrow> ('p, unit) mux" where
  "get_serial_callback E x status = do {
     xf \<leftarrow> rd_xfer x;
     let d = xf_user_data xf;
     if status \<noteq> TRANSFER_COMPLETED then do { u \<leftarrow> rd_udev d; free_transfer x }
     else do {
       buf \<leftarrow> rd_heap mem [] (xf_buffer xf);
       let data = drop 8 buf;
       len \<leftarrow> expect OutOfBounds 0 (rd8 data 0);
       serial \<leftarrow> expect OutOfBounds [] (serial_chars data (unat len) 0 2);
       up_udev d (\<lambda>u. u\<lparr>ud_serial := hyphenate serial\<rparr>);
       free_transfer x;
       res \<leftarrow> device_add E d;
       if res < 0 then usb_disconnect E (busy_events E) d
       else do {
         rx_loops \<leftarrow> start_rx_loops E d NUM_RX_LOOPS;
         if rx_loops = NUM_RX_LOOPS then do {
           device_remove E d;
           usb_disconnect E (busy_events E) d
         } else skip
       }
     }
   }"

text \<open>\<^verbatim>\<open>libusb_fill_control_setup\<close> and \<^verbatim>\<open>libusb_fill_control_transfer\<close> on a transfer that has a buffer.\<close>

definition fill_control :: "ptr \<Rightarrow> bytes \<Rightarrow> nat \<Rightarrow> ptr option \<Rightarrow> ptr \<Rightarrow> xfer_callback \<Rightarrow> ('p, unit) mux" where
  "fill_control x setup wLength handle user_data cb = do {
     xf \<leftarrow> rd_xfer x;
     up_heap mem mem_update (xf_buffer xf) (\<lambda>buf. memcpy_at buf 0 setup);
     up_xfer x (\<lambda>xf. xf\<lparr>xf_endpoint := 0, xf_handle := handle, xf_length := 8 + wLength,
       xf_user_data := user_data, xf_callback := cb\<rparr>)
   }"

definition DESCRIPTOR_LENGTH :: nat where "DESCRIPTOR_LENGTH = 1024 + 8"

definition get_langid_callback :: "'p ext \<Rightarrow> ptr \<Rightarrow> xfer_status \<Rightarrow> ('p, unit) mux" where
  "get_langid_callback E x status = do {
     xf \<leftarrow> rd_xfer x;
     let d = xf_user_data xf;
     up_xfer x (\<lambda>xf. xf\<lparr>xf_free_buffer := True\<rparr>);
     u \<leftarrow> rd_udev d;
     if status \<noteq> TRANSFER_COMPLETED then free_transfer x
     else do {
       buf \<leftarrow> rd_heap mem [] (xf_buffer xf);
       langid \<leftarrow> expect OutOfBounds 0 (rd_le16 (drop 8 buf) 2);
       fill_control x (control_setup 0x80 6 (push_bit 8 3 OR ucast (iSerialNumber (ud_devdesc u))) langid
           (of_nat DESCRIPTOR_LENGTH)) DESCRIPTOR_LENGTH (ud_handle u) d GET_SERIAL_CALLBACK;
       res \<leftarrow> submit_control E x;
       whenM (res < 0) (free_transfer x)
     }
   }"

definition submit_vendor_specific :: "'p ext \<Rightarrow> ptr option \<Rightarrow> ptr \<Rightarrow> xfer_callback \<Rightarrow> ('p, int) mux" where
  "submit_vendor_specific E handle ctx cb = do {
     mc \<leftarrow> rd_context ctx;
     buffer \<leftarrow> new_heap mem_update (replicate (8 + unat (mc_wLength mc)) 0);
     x \<leftarrow> new_heap xfers_update (xfer_zero\<lparr>xf_buffer := buffer, xf_free_transfer := True\<rparr>);
     fill_control x (control_setup 0xC0 (mc_bRequest mc) (mc_wValue mc) (mc_wIndex mc) (mc_wLength mc))
       (unat (mc_wLength mc)) handle ctx cb;
     submit_control E x
   }"

definition find_device :: "u8 \<Rightarrow> u8 \<Rightarrow> ('p, ptr option) mux" where
  "find_device bus address = do {
     l \<leftarrow> gets usb_device_list;
     find_m (\<lambda>d. do { u \<leftarrow> rd_udev d; ret (ud_bus u = bus \<and> ud_address u = address) }) l
   }"

definition guess_mode :: "'p ext \<Rightarrow> ptr \<Rightarrow> ptr \<Rightarrow> ('p, int) mux" where
  "guess_mode E dev d = do {
     u \<leftarrow> rd_udev d;
     case mode_by_count (bNumConfigurations (ud_devdesc u)) of
       Some m \<Rightarrow> ret m
     | None \<Rightarrow> do {
         t \<leftarrow> tick E;
         case libusb_get_config_descriptor_by_value (libusb E) t dev 5 of
           Inl e \<Rightarrow> ret 0
         | Inr config \<Rightarrow> ret (mode_by_config (interfaces config))
       }
   }"

fun detach_drivers :: "'p ext \<Rightarrow> ptr \<Rightarrow> usb_interface list \<Rightarrow> ('p, unit) mux" where
  "detach_drivers E handle [] = skip"
| "detach_drivers E handle (i # is) = do {
     t \<leftarrow> tick E;
     let res = libusb_kernel_driver_active (libusb E) t handle (bInterfaceNumber i);
     whenM (res = 1) (do {
       t \<leftarrow> tick E;
       let r = libusb_detach_kernel_driver (libusb E) t handle (bInterfaceNumber i);
       skip
     });
     detach_drivers E handle is
   }"

text \<open>
  The configurations from the last to the first. \<open>found\<close> is not reset between them, as in
  the source.
\<close>

fun config_loop :: "'p ext \<Rightarrow> ptr \<Rightarrow> ptr \<Rightarrow> ptr \<Rightarrow> int \<Rightarrow> bool \<Rightarrow> nat \<Rightarrow> ('p, bool) mux" where
  "config_loop E dev d handle current found 0 = ret found"
| "config_loop E dev d handle current found (Suc j) = do {
     t \<leftarrow> tick E;
     case libusb_get_config_descriptor_by_value (libusb E) t dev (Suc j) of
       Inl e \<Rightarrow> config_loop E dev d handle current found j
     | Inr config \<Rightarrow> do {
         found \<leftarrow> (case find_interface (interfaces config) of
            None \<Rightarrow> ret found
          | Some (n, ep_out, ep_in) \<Rightarrow> do {
              up_udev d (\<lambda>u. u\<lparr>ud_interface := n, ud_ep_out := ep_out, ud_ep_in := ep_in\<rparr>);
              ret True
            });
         if \<not> found then config_loop E dev d handle current found j
         else if current = 0 \<or> uint (bConfigurationValue config) \<noteq> current then do {
           detach_drivers E handle (interfaces config);
           t \<leftarrow> tick E;
           if libusb_set_configuration (libusb E) t handle (Suc j) \<noteq> 0
           then config_loop E dev d handle current found j
           else ret found
         }
         else ret found
       }
   }"

definition set_valid_configuration :: "'p ext \<Rightarrow> ptr \<Rightarrow> ptr \<Rightarrow> ptr \<Rightarrow> ('p, int) mux" where
  "set_valid_configuration E dev d handle = do {
     u \<leftarrow> rd_udev d;
     t \<leftarrow> tick E;
     case libusb_get_configuration (libusb E) t handle of
       Inl e \<Rightarrow> ret (-1)
     | Inr current_config \<Rightarrow> do {
         found \<leftarrow> config_loop E dev d handle current_config False (unat (bNumConfigurations (ud_devdesc u)));
         ret (if found then 0 else -1)
       }
   }"

fun speed_of :: "usb_speed \<Rightarrow> u64" where
  "speed_of SPEED_LOW = 1500000"
| "speed_of SPEED_FULL = 12000000"
| "speed_of SPEED_SUPER = 5000000000"
| "speed_of SPEED_SUPER_PLUS = 10000000000"
| "speed_of SPEED_HIGH = 480000000"
| "speed_of SPEED_UNKNOWN = 480000000"

definition initialized :: "'p ext \<Rightarrow> ptr \<Rightarrow> u8 \<Rightarrow> u8 \<Rightarrow> ptr \<Rightarrow> usb_device \<Rightarrow> usb_device" where
  "initialized E dev bus address handle u =
     (let w = libusb_get_max_packet_size (libusb E) dev (ud_ep_out u) in
      u\<lparr>ud_serial := [], ud_bus := bus, ud_address := address,
        ud_speed := speed_of (libusb_get_device_speed (libusb E) dev), ud_handle := Some handle, ud_alive := True,
        ud_wMaxPacketSize := (if w \<le> 0 then 64 else w)\<rparr>)"

definition mark_dead :: "ptr \<Rightarrow> ('p, unit) mux" where
  "mark_dead d = up_udev d (\<lambda>u. u\<lparr>ud_alive := False\<rparr>)"

definition device_complete_initialization :: "'p ext \<Rightarrow> ptr \<Rightarrow> ptr \<Rightarrow> ('p, unit) mux" where
  "device_complete_initialization E ctx handle = do {
     mc \<leftarrow> rd_context ctx;
     usbdev \<leftarrow> find_device (mc_bus mc) (mc_address mc);
     case usbdev of
       None \<Rightarrow> skip
     | Some d \<Rightarrow> do {
         res \<leftarrow> set_valid_configuration E (mc_dev mc) d handle;
         if res \<noteq> 0 then mark_dead d
         else do {
           u \<leftarrow> rd_udev d;
           t \<leftarrow> tick E;
           if libusb_claim_interface (libusb E) t handle (ud_interface u) \<noteq> 0 then mark_dead d
           else do {
             t \<leftarrow> tick E;
             if libusb_alloc_fails (libusb E) t then mark_dead d
             else do {
               t \<leftarrow> tick E;
               if os_malloc_fails (os E) t then mark_dead d
               else do {
                 transfer_buffer \<leftarrow> new_heap mem_update (replicate (DESCRIPTOR_LENGTH + 8) 0);
                 transfer \<leftarrow> new_heap xfers_update (xfer_zero\<lparr>xf_buffer := transfer_buffer\<rparr>);
                 up_udev d (initialized E (mc_dev mc) (mc_bus mc) (mc_address mc) handle);
                 fill_control transfer (control_setup 0x80 6 (push_bit 8 3) 0 (of_nat DESCRIPTOR_LENGTH))
                   DESCRIPTOR_LENGTH (Some handle) d GET_LANGID_CALLBACK;
                 res \<leftarrow> submit_control E transfer;
                 whenM (res < 0) (do {
                   free_transfer transfer;
                   free_heap mem mem_update transfer_buffer;
                   mark_dead d
                 })
               }
             }
           }
         }
       }
   }"

definition switch_mode_cb :: "'p ext \<Rightarrow> ptr \<Rightarrow> xfer_status \<Rightarrow> ('p, unit) mux" where
  "switch_mode_cb E x status = do {
     xf \<leftarrow> rd_xfer x;
     let ctx = xf_user_data xf;
     mc \<leftarrow> rd_context ctx;
     dev \<leftarrow> find_device (mc_bus mc) (mc_address mc);
     handle \<leftarrow> deref (xf_handle xf);
     (if status \<noteq> TRANSFER_COMPLETED then device_complete_initialization E ctx handle
      else do {
        buf \<leftarrow> rd_heap mem [] (xf_buffer xf);
        r \<leftarrow> expect OutOfBounds 0 (rd8 (drop 8 buf) 0);
        whenM (r \<noteq> 0) (device_complete_initialization E ctx handle)
      });
     free_heap contexts contexts_update ctx;
     free_heap mem mem_update (xf_buffer xf)
   }"

definition desired_mode :: "'p ext \<Rightarrow> int" where
  "desired_mode E = (case os_getenv (os E) ''USBMUXD_DEFAULT_DEVICE_MODE'' of Some m \<Rightarrow> atoi m | None \<Rightarrow> 1)"

definition get_mode_cb :: "'p ext \<Rightarrow> ptr \<Rightarrow> xfer_status \<Rightarrow> ('p, unit) mux" where
  "get_mode_cb E x status = do {
     xf \<leftarrow> rd_xfer x;
     let ctx = xf_user_data xf;
     mc \<leftarrow> rd_context ctx;
     dev \<leftarrow> find_device (mc_bus mc) (mc_address mc);
     case dev of
       None \<Rightarrow> free_heap contexts contexts_update ctx
     | Some d \<Rightarrow> do {
         handle \<leftarrow> deref (xf_handle xf);
         if status \<noteq> TRANSFER_COMPLETED then do {
           device_complete_initialization E ctx handle;
           free_heap contexts contexts_update ctx
         } else do {
           guessed_mode \<leftarrow> guess_mode E (mc_dev mc) d;
           buf \<leftarrow> rd_heap mem [] (xf_buffer xf);
           assert_m OutOfBounds (12 \<le> length buf);
           (if 1 \<le> desired_mode E \<and> desired_mode E \<le> 5 \<and> 0 < guessed_mode \<and> guessed_mode \<noteq> desired_mode E then do {
              up_heap contexts contexts_update ctx (\<lambda>mc. mc\<lparr>mc_bRequest := APPLE_VEND_SPECIFIC_SET_MODE,
                mc_wValue := 0, mc_wIndex := word_of_int (desired_mode E), mc_wLength := 1\<rparr>);
              res \<leftarrow> submit_vendor_specific E (Some handle) ctx SWITCH_MODE_CB;
              whenM (res \<noteq> 0) (do { mark_dead d; free_heap contexts contexts_update ctx })
            } else do {
              device_complete_initialization E ctx handle;
              free_heap contexts contexts_update ctx
            });
           free_heap mem mem_update (xf_buffer xf)
         }
       }
   }"

section \<open>Discovery\<close>

definition new_usb_device :: "u8 \<Rightarrow> u8 \<Rightarrow> usb_devdesc \<Rightarrow> ptr \<Rightarrow> usb_device" where
  "new_usb_device bus address devdesc handle =
     udev_zero\<lparr>ud_bus := bus, ud_address := address, ud_devdesc := devdesc, ud_speed := 0,
       ud_handle := Some handle, ud_alive := True\<rparr>"

definition get_mode_context :: "ptr \<Rightarrow> u8 \<Rightarrow> u8 \<Rightarrow> mode_context" where
  "get_mode_context dev bus address =
     \<lparr>mc_dev = dev, mc_bus = bus, mc_address = address, mc_bRequest = APPLE_VEND_SPECIFIC_GET_MODE,
      mc_wValue = 0, mc_wIndex = 0, mc_wLength = 4, mc_timeout = 1000\<rparr>"

definition usb_device_add :: "'p ext \<Rightarrow> ptr \<Rightarrow> ('p, int) mux" where
  "usb_device_add E dev = do {
     let bus = libusb_get_bus_number (libusb E) dev;
     let address = libusb_get_device_address (libusb E) dev;
     usbdev \<leftarrow> find_device bus address;
     case usbdev of
       Some d \<Rightarrow> do { up_udev d (\<lambda>u. u\<lparr>ud_alive := True\<rparr>); ret 0 }
     | None \<Rightarrow> do {
         t \<leftarrow> tick E;
         case libusb_get_device_descriptor (libusb E) t dev of
           Inl e \<Rightarrow> ret (-1)
         | Inr devdesc \<Rightarrow>
             if unsupported devdesc then ret (-1)
             else do {
               t \<leftarrow> tick E;
               case libusb_open (libusb E) t dev of
                 Inl e \<Rightarrow> ret (-1)
               | Inr handle \<Rightarrow> do {
                   d \<leftarrow> new_heap udevs_update (new_usb_device bus address devdesc handle);
                   modify (\<lambda>s. s\<lparr>usb_device_list := collection_add E (usb_device_list s) d\<rparr>);
                   ctx \<leftarrow> new_heap contexts_update (get_mode_context dev bus address);
                   res \<leftarrow> submit_vendor_specific E (Some handle) ctx GET_MODE_CB;
                   if res \<noteq> 0 then do { mark_dead d; ret (-1) } else ret 0
                 }
             }
       }
   }"

definition usb_hotplug_cb :: "'p ext \<Rightarrow> usb_event \<Rightarrow> ('p, unit) mux" where
  "usb_hotplug_cb E event = (case event of
       DeviceArrived dev \<Rightarrow> do {
         m \<leftarrow> gets misc;
         whenM (device_hotplug m) (do { usb_device_add E dev; skip })
       }
     | DeviceLeft dev \<Rightarrow> do {
         usbdev \<leftarrow> find_device (libusb_get_bus_number (libusb E) dev) (libusb_get_device_address (libusb E) dev);
         case usbdev of
           None \<Rightarrow> skip
         | Some d \<Rightarrow> do { mark_dead d; device_remove E d }
       }
     | XferDone x status data \<Rightarrow> skip)"

section \<open>Events\<close>

text \<open>Where libusb stores what was received: behind the setup packet of a control transfer.\<close>

definition received :: "xfer \<Rightarrow> bytes \<Rightarrow> bytes \<Rightarrow> bytes" where
  "received xf data buf = (case xf_callback xf of
       TX_CALLBACK \<Rightarrow> buf
     | RX_CALLBACK \<Rightarrow> memcpy_at buf 0 (take (xf_length xf) data)
     | _ \<Rightarrow> memcpy_at buf 8 (take (xf_length xf - 8) data))"

definition run_callback :: "'p ext \<Rightarrow> ptr \<Rightarrow> xfer \<Rightarrow> xfer_status \<Rightarrow> nat \<Rightarrow> ('p, unit) mux" where
  "run_callback E x xf status actual_length = (case xf_callback xf of
       TX_CALLBACK \<Rightarrow> tx_callback E x status
     | RX_CALLBACK \<Rightarrow> rx_callback E x status actual_length
     | GET_SERIAL_CALLBACK \<Rightarrow> get_serial_callback E x status
     | GET_LANGID_CALLBACK \<Rightarrow> get_langid_callback E x status
     | GET_MODE_CB \<Rightarrow> get_mode_cb E x status
     | SWITCH_MODE_CB \<Rightarrow> switch_mode_cb E x status)"

definition transfer_done :: "'p ext \<Rightarrow> ptr \<Rightarrow> xfer_status \<Rightarrow> bytes \<Rightarrow> ('p, unit) mux" where
  "transfer_done E x status data = do {
     h \<leftarrow> gets xfers;
     case h x of
       None \<Rightarrow> skip
     | Some xf \<Rightarrow> whenM (xf_in_flight xf) (do {
         up_xfer x (\<lambda>xf. xf\<lparr>xf_in_flight := False\<rparr>);
         up_heap mem mem_update (xf_buffer xf) (received xf data);
         run_callback E x xf status (min (xf_length xf) (length data));
         whenM (xf_free_transfer xf) (free_transfer x)
       })
   }"

definition handle_event :: "'p ext \<Rightarrow> usb_event \<Rightarrow> ('p, unit) mux" where
  "handle_event E event = (case event of
       XferDone x status data \<Rightarrow> transfer_done E x status data
     | _ \<Rightarrow> usb_hotplug_cb E event)"

fun run_events :: "'p ext \<Rightarrow> usb_event list \<Rightarrow> ('p, unit) mux" where
  "run_events E [] = skip"
| "run_events E (e # es) = do { handle_event E e; run_events E es }"

definition handle_events :: "'p ext \<Rightarrow> ('p, int) mux" where
  "handle_events E = do {
     t \<leftarrow> tick E;
     let (res, events) = libusb_handle_events (libusb E) t;
     run_events E events;
     ret res
   }"

section \<open>The interface to the main loop\<close>

definition sys_tick_count :: "'p ext \<Rightarrow> ('p, int \<times> int) mux" where
  "sys_tick_count E = do {
     t \<leftarrow> tick E;
     ns \<leftarrow> gets clock;
     ret (get_tick_count (if os_clock_fails E t then None else Some (timespec_of ns)) (os_gettimeofday E t))
   }"

definition mod_misc :: "(misc \<Rightarrow> misc) \<Rightarrow> ('p, unit) mux" where
  "mod_misc f = modify (\<lambda>s. s\<lparr>misc := f (misc s)\<rparr>)"

definition schedule_poll :: "'p ext \<Rightarrow> ('p, unit) mux" where
  "schedule_poll E = do {
     tv \<leftarrow> sys_tick_count E;
     mod_misc (\<lambda>m. m\<lparr>next_dev_poll_time := poll_after tv\<rparr>)
   }"

fun add_devices :: "'p ext \<Rightarrow> ptr list \<Rightarrow> int \<Rightarrow> ('p, int) mux" where
  "add_devices E [] valid_count = ret valid_count"
| "add_devices E (dev # ds) valid_count = do {
     r \<leftarrow> usb_device_add E dev;
     add_devices E ds (if r < 0 then valid_count else valid_count + 1)
   }"

definition usb_discover :: "'p ext \<Rightarrow> ('p, int) mux" where
  "usb_discover E = do {
     t \<leftarrow> tick E;
     case libusb_get_device_list (libusb E) t of
       Inl cnt \<Rightarrow> do {
         mod_misc (\<lambda>m. m\<lparr>devlist_failures := devlist_failures m + 1\<rparr>);
         m \<leftarrow> gets misc;
         if devlist_failures m > 5 then ret cnt
         else do { schedule_poll E; ret 0 }
       }
     | Inr ds \<Rightarrow> do {
         mod_misc (\<lambda>m. m\<lparr>devlist_failures := 0\<rparr>);
         l \<leftarrow> gets usb_device_list;
         foreach_m usb_device_list mark_dead l;
         valid_count \<leftarrow> add_devices E ds 0;
         reap_dead_devices E (handle_events E);
         schedule_poll E;
         ret valid_count
       }
   }"

definition usb_get_fds :: "'p ext \<Rightarrow> fdlist option \<Rightarrow> ('p, fdlist option) mux" where
  "usb_get_fds E list = do {
     t \<leftarrow> tick E;
     case libusb_get_pollfds (libusb E) t of
       None \<Rightarrow> ret list
     | Some fds \<Rightarrow> ret (Option.bind list (add_each fdlist_add FD_USB fds))
   }"

definition usb_autodiscover :: "bool \<Rightarrow> ('p, unit) mux" where
  "usb_autodiscover enable = mod_misc (\<lambda>m. m\<lparr>device_polling := enable, device_hotplug := enable\<rparr>)"

definition dev_poll_remain_ms :: "'p ext \<Rightarrow> ('p, int) mux" where
  "dev_poll_remain_ms E = do {
     m \<leftarrow> gets misc;
     if \<not> device_polling m then ret 100000
     else do {
       tv \<leftarrow> sys_tick_count E;
       ret (remain_ms (next_dev_poll_time m) tv)
     }
   }"

definition usb_get_timeout :: "'p ext \<Rightarrow> ('p, int) mux" where
  "usb_get_timeout E = do {
     pollrem \<leftarrow> dev_poll_remain_ms E;
     t \<leftarrow> tick E;
     let (res, sec, usec) = libusb_get_next_timeout (libusb E) t;
     if res = 0 then ret pollrem
     else if res < 0 then ret pollrem
     else do {
       let msec = to_int (to_int (sec * 1000) + usec sdiv 1000);
       ret (if msec > pollrem then pollrem else msec)
     }
   }"

definition usb_process :: "'p ext \<Rightarrow> ('p, int) mux" where
  "usb_process E = do {
     res \<leftarrow> handle_events E;
     if res < 0 then ret res
     else do {
       reap_dead_devices E (handle_events E);
       remain \<leftarrow> dev_poll_remain_ms E;
       if remain \<le> 0 then do {
         res \<leftarrow> usb_discover E;
         ret (if res < 0 then res else 0)
       } else ret 0
     }
   }"

fun process_until :: "nat \<Rightarrow> 'p ext \<Rightarrow> int \<times> int \<Rightarrow> int \<times> int \<Rightarrow> ('p, int) mux" where
  "process_until n E tcur tfin =
     (if before tcur tfin then
        case n of
          0 \<Rightarrow> do { raise_fault Diverges; ret 0 }
        | Suc m \<Rightarrow> do {
            res \<leftarrow> handle_events E;
            if res < 0 then ret res
            else do {
              reap_dead_devices E (handle_events E);
              tcur \<leftarrow> sys_tick_count E;
              process_until m E tcur tfin
            }
          }
      else ret 0)"

declare process_until.simps [simp del]

definition usb_process_timeout :: "'p ext \<Rightarrow> int \<Rightarrow> ('p, int) mux" where
  "usb_process_timeout E msec = do {
     tcur \<leftarrow> sys_tick_count E;
     process_until (libusb_patience (libusb E)) E tcur (deadline tcur msec)
   }"

definition usb_init :: "'p ext \<Rightarrow> ('p, int) mux" where
  "usb_init E = do {
     mod_misc (\<lambda>m. m\<lparr>devlist_failures := 0, device_polling := True\<rparr>);
     t \<leftarrow> tick E;
     if libusb_init (libusb E) t \<noteq> 0 then ret (-1)
     else do {
       modify (\<lambda>s. s\<lparr>usb_device_list := []\<rparr>);
       whenM (libusb_has_hotplug (libusb E)) (do {
         t \<leftarrow> tick E;
         let (res, events) = libusb_hotplug_register_callback (libusb E) t;
         run_events E events;
         whenM (res = 0) (mod_misc (\<lambda>m. m\<lparr>device_polling := False\<rparr>))
       });
       m \<leftarrow> gets misc;
       if device_polling m then usb_discover E
       else do { l \<leftarrow> gets usb_device_list; ret (int (length l)) }
     }
   }"

definition usb_shutdown :: "'p ext \<Rightarrow> ('p, unit) mux" where
  "usb_shutdown E = do {
     l \<leftarrow> gets usb_device_list;
     foreach_m usb_device_list (\<lambda>d. do { device_remove E d; usb_disconnect E (handle_events E) d }) l;
     modify (\<lambda>s. s\<lparr>usb_device_list := []\<rparr>);
     t \<leftarrow> tick E;
     skip
   }"

end
