(* ===== verification/Main_Loop.thy ===== *)
theory Main_Loop
  imports Usb Client_Cmd
begin

text \<open>
  The event loop of \<^verbatim>\<open>main.c\<close>: signals, the poll set, and what is called for each
  descriptor that is ready. Signals are blocked except in \<^verbatim>\<open>ppoll\<close>, so their handlers run
  there. The loop may run forever; a run that does not end has no result.
\<close>

section \<open>Signals\<close>

definition SIGUSR1 :: int where "SIGUSR1 = 10"
definition SIGUSR2 :: int where "SIGUSR2 = 12"
definition SIGTERM :: int where "SIGTERM = 15"
definition EINTR :: int where "EINTR = 4"

definition handle_signal :: "int \<Rightarrow> ('p, unit) mux" where
  "handle_signal sig =
     (if sig \<noteq> SIGUSR1 \<and> sig \<noteq> SIGUSR2 then mod_misc (\<lambda>m. m\<lparr>should_exit := True\<rparr>)
      else do {
        m \<leftarrow> gets misc;
        if opt_enable_exit m then
          if sig = SIGUSR1 then do {
            n \<leftarrow> device_get_count True;
            if 0 < n then skip else mod_misc (\<lambda>m. m\<lparr>should_exit := True\<rparr>)
          }
          else if sig = SIGUSR2 then mod_misc (\<lambda>m. m\<lparr>should_discover := True\<rparr>)
          else skip
        else skip
      })"

fun handle_signals :: "int list \<Rightarrow> ('p, unit) mux" where
  "handle_signals [] = skip"
| "handle_signals (sig # sigs) = do { handle_signal sig; handle_signals sigs }"

section \<open>One iteration\<close>

datatype loop_result = Continue | Leave int

definition poll_descriptors :: "'p ext \<Rightarrow> int \<Rightarrow> fdlist \<Rightarrow> ('p, fdlist option) mux" where
  "poll_descriptors E listenfd pollfds = do {
     l \<leftarrow> usb_get_fds E (fdlist_add (fdlist_reset pollfds) FD_LISTEN listenfd POLLIN);
     client_get_fds l
   }"

text \<open>The descriptors with the events that \<^verbatim>\<open>ppoll\<close> returned for them.\<close>

fun serve_fds :: "'p ext \<Rightarrow> int \<Rightarrow> bool \<Rightarrow> ((fdowner \<times> int) \<times> u16) list \<Rightarrow> ('p, loop_result) mux" where
  "serve_fds E listenfd done_usb [] = ret Continue"
| "serve_fds E listenfd done_usb (((owner, fd), revents) # rest) =
     (if revents = 0 then serve_fds E listenfd done_usb rest
      else do {
        r \<leftarrow> (if \<not> done_usb \<and> owner = FD_USB then usb_process E else ret 0);
        if r < 0 then ret (Leave (-1))
        else do {
          a \<leftarrow> (if owner = FD_LISTEN then client_accept E listenfd else ret 0);
          if a < 0 then ret (Leave (-1))
          else do {
            whenM (owner = FD_CLIENT) (client_process E fd revents);
            serve_fds E listenfd (done_usb \<or> owner = FD_USB) rest
          }
        }
      })"

definition serve_poll :: "'p ext \<Rightarrow> int \<Rightarrow> fdlist \<Rightarrow> u16 list \<Rightarrow> ('p, loop_result) mux" where
  "serve_poll E listenfd pollfds revents =
     (if list_all (\<lambda>e. e = 0) revents then do {
        r \<leftarrow> usb_process E;
        if r < 0 then ret (Leave (-1))
        else do { device_check_timeouts E; ret Continue }
      }
      else serve_fds E listenfd False
             (zip (map (\<lambda>(owner, pfd). (owner, pfd_fd pfd)) (fdlist_view pollfds)) revents))"

definition interrupted :: "'p ext \<Rightarrow> int \<Rightarrow> ('p, loop_result) mux" where
  "interrupted E errno =
     (if errno = EINTR then do {
        m \<leftarrow> gets misc;
        if should_exit m then ret (Leave 0)
        else do {
          whenM (should_discover m) (do {
            mod_misc (\<lambda>m. m\<lparr>should_discover := False\<rparr>);
            usb_discover E;
            skip
          });
          ret Continue
        }
      }
      else ret Continue)"

definition main_iteration :: "'p ext \<Rightarrow> int \<Rightarrow> fdlist \<Rightarrow> ('p, loop_result \<times> fdlist) mux" where
  "main_iteration E listenfd pollfds = do {
     to \<leftarrow> usb_get_timeout E;
     dto \<leftarrow> device_get_timeout E;
     let to = (if dto < to then dto else to);
     l \<leftarrow> poll_descriptors E listenfd pollfds;
     pollfds \<leftarrow> expect OutOfBounds pollfds l;
     t \<leftarrow> tick E;
     handle_signals (os_signals (os E) t);
     r \<leftarrow> (case os_ppoll (os E) t (map (\<lambda>(owner, pfd). (pfd_fd pfd, pfd_events pfd)) (fdlist_view pollfds)) to of
          Inl errno \<Rightarrow> interrupted E errno
        | Inr revents \<Rightarrow> serve_poll E listenfd pollfds revents);
     ret (r, pollfds)
   }"

section \<open>The loop\<close>

partial_function (option) loop_from :: "'p ext \<Rightarrow> int \<Rightarrow> fdlist \<Rightarrow> 'p daemon \<Rightarrow> (int \<times> 'p daemon) option" where
  "loop_from E listenfd pollfds s =
     (if should_exit (misc s) then Some (0, s)
      else case run_state (main_iteration E listenfd pollfds) s of
        ((Leave res, l), s') \<Rightarrow> Some (res, s')
      | ((Continue, l), s') \<Rightarrow> loop_from E listenfd l s')"

definition main_loop :: "'p ext \<Rightarrow> int \<Rightarrow> 'p daemon \<Rightarrow> (int \<times> 'p daemon) option" where
  "main_loop E listenfd s = loop_from E listenfd fdlist_create s"

end
