(* ===== verification/Preflight.thy ===== *)
theory Preflight
  imports Device Conf Usb_Desc
begin

text \<open>
  The worker of \<^verbatim>\<open>preflight.c\<close>, for the build with libimobiledevice. It is a thread: the
  part up to the wait for the user is one step, each notification and the end of the
  wait are further ones. The data it shares with its callbacks is on its stack, so the
  address is valid until the worker ends.
\<close>

section \<open>Talking to lockdownd\<close>

definition lockdownd_set_untrusted_host_buid :: "'p ext \<Rightarrow> ('p, unit) mux" where
  "lockdownd_set_untrusted_host_buid E = do {
     system_buid \<leftarrow> config_get_system_buid E;
     t \<leftarrow> tick E;
     let r = lockdownd_set_value (lockdown E) t ''UntrustedHostBUID'' (plist_new_string E system_buid);
     skip
   }"

text \<open>The devices that ask the user themselves: from iOS 7, watchOS 2 and tvOS 9 on.\<close>

definition asks_user :: "string \<Rightarrow> int \<Rightarrow> bool" where
  "asks_user device_class version_major \<longleftrightarrow>
     (device_class = ''iPhone'' \<or> device_class = ''iPad'') \<and> version_major \<ge> 7 \<or>
     device_class = ''Watch'' \<and> version_major \<ge> 2 \<or>
     device_class = ''AppleTV'' \<and> version_major \<ge> 9"

section \<open>The worker\<close>

text \<open>Waiting for the user: the address of the shared data is the result.\<close>

definition new_cbdata :: "device_info \<Rightarrow> bool \<Rightarrow> ('p, ptr) mux" where
  "new_cbdata info np = do {
     p \<leftarrow> gets next_ptr;
     modify (\<lambda>s. s\<lparr>next_ptr := Suc p, misc := (misc s)\<lparr>cbdata := (cbdata (misc s))(p \<mapsto>
       \<lparr>cb_info = info, cb_np = np, is_device_connected = True, is_finished = False\<rparr>)\<rparr>\<rparr>);
     ret p
   }"

definition wait_for_trust :: "'p ext \<Rightarrow> device_info \<Rightarrow> bool \<Rightarrow> ('p, ptr option) mux" where
  "wait_for_trust E info is_device_paired = do {
     lockdownd_set_untrusted_host_buid E;
     paired \<leftarrow> (if is_device_paired then ret False
               else do { t \<leftarrow> tick E; ret (lockdownd_pair (lockdown E) t = LOCKDOWN_E_SUCCESS) });
     if paired then do { client_device_add E info; ret None }
     else do {
       t \<leftarrow> tick E;
       if lockdownd_start_service (lockdown E) t ''com.apple.mobile.insecure_notification_proxy'' \<noteq> LOCKDOWN_E_SUCCESS
       then do { client_device_add E info; ret None }
       else do {
         t \<leftarrow> tick E;
         p \<leftarrow> new_cbdata info (np_client_new (lockdown E) t);
         device_set_preflight_cb_data (di_id info) (Some p);
         client_device_add E info;
         ret (Some p)
       }
     }
   }"

text \<open>Older devices pair at once.\<close>

definition pair_now :: "'p ext \<Rightarrow> device_info \<Rightarrow> string \<Rightarrow> ('p, ptr option) mux" where
  "pair_now E info udid = do {
     t \<leftarrow> tick E;
     if lockdownd_pair (lockdown E) t \<noteq> LOCKDOWN_E_SUCCESS then do { client_device_add E info; ret None }
     else do {
       host_id \<leftarrow> config_device_record_get_host_id E udid;
       t \<leftarrow> tick E;
       if lockdownd_start_session (lockdown E) t host_id \<noteq> LOCKDOWN_E_SUCCESS then ret None
       else do {
         t \<leftarrow> tick E;
         if lockdownd_validate_pair (lockdown E) t \<noteq> LOCKDOWN_E_SUCCESS then ret None
         else do { client_device_add E info; ret None }
       }
     }
   }"

definition identify :: "'p ext \<Rightarrow> device_info \<Rightarrow> string \<Rightarrow> bool \<Rightarrow> ('p, ptr option) mux" where
  "identify E info udid is_device_paired = do {
     t \<leftarrow> tick E;
     let (lerr, value) = lockdownd_get_value (lockdown E) t ''ProductVersion'';
     case (if lerr \<noteq> LOCKDOWN_E_SUCCESS then Some ''1.0'' else string_value E value) of
       None \<Rightarrow> ret None
     | Some version_str \<Rightarrow> do {
         t \<leftarrow> tick E;
         let (lerr, value) = lockdownd_get_value (lockdown E) t ''DeviceClass'';
         case (if lerr \<noteq> LOCKDOWN_E_SUCCESS then None else string_value E value) of
           None \<Rightarrow> ret None
         | Some deviceclass_str \<Rightarrow>
             if asks_user deviceclass_str (atoi version_str) then wait_for_trust E info is_device_paired
             else pair_now E info udid
       }
   }"

text \<open>
  The worker from the label \<^verbatim>\<open>retry\<close> on; it is entered again only after a pairing record
  has been removed, so two rounds are enough.
\<close>

fun preflight_run :: "nat \<Rightarrow> 'p ext \<Rightarrow> device_info \<Rightarrow> string \<Rightarrow> ('p, ptr option) mux" where
  "preflight_run 0 E info udid = do { raise_fault Diverges; ret None }"
| "preflight_run (Suc n) E info udid = do {
     t \<leftarrow> tick E;
     if lockdownd_client_new (lockdown E) t udid \<noteq> LOCKDOWN_E_SUCCESS then ret None
     else do {
       t \<leftarrow> tick E;
       case lockdownd_query_type (lockdown E) t of
         None \<Rightarrow> ret None
       | Some type \<Rightarrow>
           if type \<noteq> ''com.apple.mobile.lockdown'' then do { client_device_add E info; ret None }
           else do {
             has \<leftarrow> config_has_device_record E (Some udid);
             lerr \<leftarrow> (if has \<noteq> 0 then do {
                        host_id \<leftarrow> config_device_record_get_host_id E udid;
                        t \<leftarrow> tick E;
                        ret (lockdownd_start_session (lockdown E) t host_id)
                      } else ret LOCKDOWN_E_INVALID_HOST_ID);
             case lerr of
               LOCKDOWN_E_SUCCESS \<Rightarrow> do { client_device_add E info; ret None }
             | LOCKDOWN_E_INVALID_HOST_ID \<Rightarrow> identify E info udid False
             | LOCKDOWN_E_SSL_ERROR \<Rightarrow> do {
                 r \<leftarrow> config_remove_device_record E udid;
                 if r = 0 then preflight_run n E info udid else identify E info udid False
               }
             | _ \<Rightarrow> identify E info udid True
           }
     }
   }"

definition preflight_worker_handle_device_add :: "'p ext \<Rightarrow> device_info \<Rightarrow> ('p, ptr option) mux" where
  "preflight_worker_handle_device_add E info = do {
     udid \<leftarrow> expect NullDeref [] (di_serial info);
     preflight_run 2 E info udid
   }"

text \<open>The first part of the worker that was started for \<open>info\<close>.\<close>

definition run_worker :: "'p ext \<Rightarrow> device_info \<Rightarrow> ('p, ptr option) mux" where
  "run_worker E info = do {
     modify (\<lambda>s. s\<lparr>misc := (misc s)\<lparr>workers := remove1 info (workers (misc s))\<rparr>\<rparr>);
     preflight_worker_handle_device_add E info
   }"

section \<open>Notifications and the end of the wait\<close>

definition rd_cbdata :: "ptr \<Rightarrow> ('p, cb_data) mux" where
  "rd_cbdata p = do {
     m \<leftarrow> gets misc;
     expect UseAfterFree \<lparr>cb_info = \<lparr>di_id = 0, di_serial = None, di_location = 0, di_pid = 0, di_speed = 0\<rparr>,
       cb_np = False, is_device_connected = False, is_finished = False\<rparr> (cbdata m p)
   }"

definition np_callback :: "'p ext \<Rightarrow> ptr \<Rightarrow> string \<Rightarrow> ('p, unit) mux" where
  "np_callback E p notification = do {
     cb \<leftarrow> rd_cbdata p;
     udid \<leftarrow> expect NullDeref [] (di_serial (cb_info cb));
     if notification = [] then up_cbdata p (\<lambda>cb. cb\<lparr>cb_np := False\<rparr>)
     else if notification = ''com.apple.mobile.lockdown.request_pair'' then do {
       t \<leftarrow> tick E;
       if lockdownd_client_new (lockdown E) t udid \<noteq> LOCKDOWN_E_SUCCESS
       then up_cbdata p (\<lambda>cb. cb\<lparr>is_finished := True\<rparr>)
       else do {
         t \<leftarrow> tick E;
         let lerr = lockdownd_pair (lockdown E) t;
         up_cbdata p (\<lambda>cb. cb\<lparr>is_finished := True\<rparr>)
       }
     }
     else if notification = ''com.apple.mobile.lockdown.request_host_buid'' then do {
       t \<leftarrow> tick E;
       if lockdownd_client_new (lockdown E) t udid \<noteq> LOCKDOWN_E_SUCCESS then skip
       else lockdownd_set_untrusted_host_buid E
     }
     else skip
   }"

definition waiting :: "cb_data \<Rightarrow> bool" where
  "waiting cb \<longleftrightarrow> cb_np cb \<and> is_device_connected cb \<and> \<not> is_finished cb"

text \<open>One look of the worker at its flags: whether it still waits.\<close>

definition worker_poll :: "ptr \<Rightarrow> ('p, bool) mux" where
  "worker_poll p = do {
     cb \<leftarrow> rd_cbdata p;
     if waiting cb then ret True
     else do {
       device_set_preflight_cb_data (di_id (cb_info cb)) None;
       modify (\<lambda>s. s\<lparr>misc := (misc s)\<lparr>cbdata := (cbdata (misc s))(p := None)\<rparr>\<rparr>);
       ret False
     }
   }"

end
