(* ===== verification/Log.thy ===== *)
theory Log
  imports Calculus
begin

text \<open>
  \<^verbatim>\<open>log.c\<close>: the levels, the switch between syslog and standard error, and the buffer in
  which the format of a message is put together. The arguments of a message and its
  final text are not modelled.
\<close>

datatype loglevel = LL_FATAL | LL_ERROR | LL_WARNING | LL_NOTICE | LL_INFO | LL_DEBUG | LL_SPEW | LL_FLOOD

fun level_num :: "loglevel \<Rightarrow> nat" where
  "level_num LL_FATAL = 0" | "level_num LL_ERROR = 1" | "level_num LL_WARNING = 2"
| "level_num LL_NOTICE = 3" | "level_num LL_INFO = 4" | "level_num LL_DEBUG = 5"
| "level_num LL_SPEW = 6" | "level_num LL_FLOOD = 7"

definition LOG_CRIT :: nat where "LOG_CRIT = 2"
definition LOG_DEBUG :: nat where "LOG_DEBUG = 7"

definition level_to_syslog_level :: "nat \<Rightarrow> nat" where
  "level_to_syslog_level level =
     (let result = level + LOG_CRIT in if result > LOG_DEBUG then LOG_DEBUG else result)"

definition log_enable_syslog :: "('p, unit) mux" where
  "log_enable_syslog = modify (\<lambda>s. s\<lparr>misc := (misc s)\<lparr>log_syslog := True\<rparr>\<rparr>)"

text \<open>Closing the log leaves the switch as it is.\<close>

definition log_disable_syslog :: "('p, unit) mux" where
  "log_disable_syslog = skip"

section \<open>The format buffer\<close>

text \<open>Decimal numbers as \<^verbatim>\<open>printf\<close> writes them, and padded with zeros to a width.\<close>

fun decimal :: "nat \<Rightarrow> string" where
  "decimal n = (if n < 10 then [char_of (48 + n)] else decimal (n div 10) @ [char_of (48 + n mod 10)])"

declare decimal.simps [simp del]

definition padded :: "nat \<Rightarrow> nat \<Rightarrow> string" where
  "padded w n = replicate (w - length (decimal n)) (CHR ''0'') @ decimal n"

text \<open>
  The bytes written, without the final NUL. The time of day is given in hours, minutes,
  seconds and milliseconds; \<^verbatim>\<open>strftime\<close> writes nothing but the 9 characters that fit in 10.
\<close>

definition syslog_format :: "nat \<Rightarrow> string \<Rightarrow> string" where
  "syslog_format level fmt = ''['' @ decimal level @ ''] '' @ fmt @ [CHR 0x0A]"

definition clock_text :: "nat \<times> nat \<times> nat \<Rightarrow> string" where
  "clock_text hms = (case hms of (h, m, sec) \<Rightarrow> ''['' @ padded 2 h @ '':'' @ padded 2 m @ '':'' @ padded 2 sec)"

definition stderr_format :: "nat \<times> nat \<times> nat \<Rightarrow> nat \<Rightarrow> nat \<Rightarrow> string \<Rightarrow> string" where
  "stderr_format hms ms level fmt =
     take 9 (clock_text hms) @ ''.'' @ padded 3 ms @ '']['' @ decimal level @ ''] '' @ fmt @ [CHR 0x0A]"

text \<open>
  What \<^verbatim>\<open>usbmuxd_log\<close> hands to syslog or to standard error: nothing at a level above the
  current one; an error if the format and its NUL do not fit in the \<open>20 + strlen(fmt)\<close> bytes
  allocated.
\<close>

definition usbmuxd_log :: "misc \<Rightarrow> loglevel \<Rightarrow> string \<Rightarrow> nat \<times> nat \<times> nat \<Rightarrow> nat \<Rightarrow> fault + (nat option \<times> string) option" where
  "usbmuxd_log m level fmt hms ms =
     (if int (level_num level) > log_level m then Inr None
      else
        let fs = (if log_syslog m then syslog_format (level_num level) fmt
                  else stderr_format hms ms (level_num level) fmt)
        in if length fs + 1 > 20 + length fmt then Inl OutOfBounds
           else Inr (Some (if log_syslog m then Some (level_to_syslog_level (level_num level)) else None, fs)))"

lemma decimal_1: "n < 10 \<Longrightarrow> length (decimal n) = 1"
  by (simp add: decimal.simps [of n])

lemma decimal_2: "n < 100 \<Longrightarrow> length (decimal n) \<le> 2"
  by (subst decimal.simps) (simp add: decimal_1)

lemma decimal_3: "n < 1000 \<Longrightarrow> length (decimal n) \<le> 3"
  by (subst decimal.simps) (use decimal_2 [of "n div 10"] in auto)

lemma length_padded:
  "n < 100 \<Longrightarrow> length (padded 2 n) = 2" "n < 1000 \<Longrightarrow> length (padded 3 n) = 3"
  using decimal_2 [of n] decimal_3 [of n] by (simp_all add: padded_def)

lemma level_num_less: "level_num l < 8"
  by (cases l) simp_all

end
