(* ===== verification/Startup.thy ===== *)
theory Startup
  imports Main_Loop Preflight Log
begin

text \<open>
  The rest of \<^verbatim>\<open>main.c\<close>: options, the lock file, the listening socket, becoming a daemon,
  giving up privileges, and the order of start and shutdown. The system calls are
  recorded in the trace with their results. The build has udev and systemd support; the
  option parser \<^verbatim>\<open>getopt_long\<close> is a library function, so the options it returns are given.
\<close>

definition sys :: "'p ext \<Rightarrow> syscall \<Rightarrow> ('p, int) mux" where
  "sys E call = do {
     t \<leftarrow> tick E;
     let res = os_call (os E) t call;
     emit (SysCall call res);
     ret res
   }"

text \<open>
  Either the program goes on, or it exits at once, or it jumps to \<^verbatim>\<open>terminate\<close> with a
  result. \<open>andthen\<close> goes on with the first part's value.
\<close>

datatype halt = Exit_now int | Terminate int

definition andthen :: "('p, halt + 'a) mux \<Rightarrow> ('a \<Rightarrow> ('p, halt + 'b) mux) \<Rightarrow> ('p, halt + 'b) mux" where
  "andthen m f = do {
     r \<leftarrow> m;
     case r of Inl h \<Rightarrow> ret (Inl h) | Inr x \<Rightarrow> f x
   }"

definition require :: "('p, int) mux \<Rightarrow> ('p, halt + int) mux" where
  "require m = do {
     r \<leftarrow> m;
     ret (if r < 0 then Inl (Terminate r) else Inr r)
   }"

section \<open>Options\<close>

record options =
  verbose :: int
  foreground :: bool
  drop_user :: "string option"
  opt_disable_hotplug :: bool
  opt_exit :: bool
  exit_signal :: int
  listen_addr :: "string option"
  lockfile :: "string option"

definition socket_path :: string where "socket_path = ''/var/run/usbmuxd''"

definition options0 :: options where
  "options0 = \<lparr>verbose = 0, foreground = False, drop_user = None, opt_disable_hotplug = False,
     opt_exit = False, exit_signal = 0, listen_addr = None, lockfile = Some ''/var/run/usbmuxd.pid''\<rparr>"

datatype opt = Short char | ShortArg char string | PortArg string | Unknown

text \<open>\<^verbatim>\<open>snprintf\<close> into 32 bytes keeps 31 characters.\<close>

definition port_address :: "string \<Rightarrow> string" where
  "port_address arg = take 31 (''127.0.0.1:'' @ arg)"

definition starts_dash :: "string \<Rightarrow> bool" where
  "starts_dash arg \<longleftrightarrow> (case arg of c # _ \<Rightarrow> c = CHR ''-'' | [] \<Rightarrow> False)"

definition parse_flag :: "char \<Rightarrow> options \<Rightarrow> ('p, halt + options) mux" where
  "parse_flag c opts =
     (if c = CHR ''h'' \<or> c = CHR ''V'' then ret (Inl (Exit_now 0))
      else if c = CHR ''f'' then ret (Inr (opts\<lparr>foreground := True\<rparr>))
      else if c = CHR ''v'' then ret (Inr (opts\<lparr>verbose := verbose opts + 1\<rparr>))
      else if c = CHR ''p'' then do { mod_misc (\<lambda>m. m\<lparr>no_preflight := True\<rparr>); ret (Inr opts) }
      else if c = CHR ''u'' then do {
        mod_misc (\<lambda>m. m\<lparr>opt_enable_exit := True\<rparr>);
        ret (Inr (opts\<lparr>opt_disable_hotplug := True\<rparr>))
      }
      else if c = CHR ''s'' then do {
        mod_misc (\<lambda>m. m\<lparr>opt_enable_exit := True\<rparr>);
        ret (Inr (opts\<lparr>foreground := True\<rparr>))
      }
      else if c = CHR ''n'' then ret (Inr (opts\<lparr>opt_disable_hotplug := True\<rparr>))
      else if c = CHR ''z'' then do { mod_misc (\<lambda>m. m\<lparr>opt_enable_exit := True\<rparr>); ret (Inr opts) }
      else if c = CHR ''x'' then ret (Inr (opts\<lparr>opt_exit := True, exit_signal := SIGUSR1\<rparr>))
      else if c = CHR ''X'' then ret (Inr (opts\<lparr>opt_exit := True, exit_signal := SIGTERM\<rparr>))
      else ret (Inl (Exit_now 2)))"

definition parse_arg :: "'p ext \<Rightarrow> char \<Rightarrow> string \<Rightarrow> options \<Rightarrow> ('p, halt + options) mux" where
  "parse_arg E c arg opts =
     (if c = CHR ''U'' then ret (Inr (opts\<lparr>drop_user := Some arg\<rparr>))
      else if c = CHR ''C'' then
        if arg = [] then ret (Inl (Exit_now 2))
        else do { config_set_config_dir E arg; ret (Inr opts) }
      else if c = CHR ''S'' then
        if arg = [] \<or> starts_dash arg then ret (Inl (Exit_now 2))
        else ret (Inr (opts\<lparr>listen_addr := Some arg\<rparr>))
      else if c = CHR ''P'' then
        if arg = [] \<or> starts_dash arg then ret (Inl (Exit_now 2))
        else ret (Inr (opts\<lparr>lockfile := (if arg = ''NONE'' then None else Some arg)\<rparr>))
      else if c = CHR ''l'' then
        if arg = [] then ret (Inl (Exit_now 2))
        else do {
          m \<leftarrow> gets misc;
          if use_logfile m then ret (Inl (Exit_now 2))
          else do {
            r \<leftarrow> sys E (Sys_freopen arg);
            whenM (0 \<le> r) (mod_misc (\<lambda>m. m\<lparr>use_logfile := True\<rparr>));
            ret (Inr opts)
          }
        }
      else ret (Inl (Exit_now 2)))"

fun parse_opts :: "'p ext \<Rightarrow> opt list \<Rightarrow> options \<Rightarrow> ('p, halt + options) mux" where
  "parse_opts E [] opts = ret (Inr opts)"
| "parse_opts E (a # as) opts = andthen
     (case a of
        Short c \<Rightarrow> parse_flag c opts
      | ShortArg c arg \<Rightarrow> parse_arg E c arg opts
      | PortArg arg \<Rightarrow>
          if arg = [] \<or> starts_dash arg then ret (Inl (Exit_now 2))
          else ret (Inr (opts\<lparr>listen_addr := Some (port_address arg)\<rparr>))
      | Unknown \<Rightarrow> ret (Inl (Exit_now 2)))
     (parse_opts E as)"

section \<open>The listening socket\<close>

text \<open>The part of an address behind its last colon, and the one before it.\<close>

definition split_port :: "string \<Rightarrow> (string \<times> string) option" where
  "split_port addr =
     (if CHR '':'' \<in> set addr then
        let port = rev (takeWhile (\<lambda>c. c \<noteq> CHR '':'') (rev addr))
        in Some (take (length addr - length port - 1) addr, port)
      else None)"

fun bind_first :: "'p ext \<Rightarrow> string \<Rightarrow> address_family list \<Rightarrow> ('p, int) mux" where
  "bind_first E addr [] = ret (-1)"
| "bind_first E addr (af # afs) = do {
     listenfd \<leftarrow> sys E (Sys_socket af);
     if listenfd = -1 then bind_first E addr afs
     else do {
       r \<leftarrow> sys E (Sys_setsockopt listenfd ''SO_REUSEADDR'');
       if r = -1 then do { sys E (Sys_close listenfd); bind_first E addr afs }
       else do {
         whenM (af = AF_INET6) (do { sys E (Sys_setsockopt listenfd ''IPV6_V6ONLY''); skip });
         r \<leftarrow> sys E (Sys_bind listenfd addr);
         if r < 0 then do { sys E (Sys_close listenfd); bind_first E addr afs }
         else ret listenfd
       }
     }
   }"

definition tcp_socket :: "'p ext \<Rightarrow> string \<Rightarrow> string \<times> string \<Rightarrow> ('p, int) mux" where
  "tcp_socket E addr hp = do {
     t \<leftarrow> tick E;
     case os_getaddrinfo (os E) t (fst hp) (snd hp) of
       Inl e \<Rightarrow> ret (-1)
     | Inr afs \<Rightarrow> bind_first E addr afs
   }"

definition unix_socket :: "'p ext \<Rightarrow> string \<Rightarrow> ('p, int) mux" where
  "unix_socket E addr = do {
     t \<leftarrow> tick E;
     if addr \<noteq> socket_path \<and> os_is_socket (os E) t addr = Some False then ret (-1)
     else do {
       t \<leftarrow> gets calls;
       r \<leftarrow> sys E (Sys_unlink addr);
       if r = -1 \<and> os_errno (os E) t \<noteq> ENOENT then ret (-1)
       else do {
         listenfd \<leftarrow> sys E (Sys_socket AF_UNIX);
         if listenfd = -1 then ret (-1)
         else do {
           r \<leftarrow> sys E (Sys_bind listenfd (take 107 addr));
           if r \<noteq> 0 then ret (-1)
           else do { sys E (Sys_chmod addr 438); ret listenfd }
         }
       }
     }
   }"

definition create_socket :: "'p ext \<Rightarrow> options \<Rightarrow> ('p, int) mux" where
  "create_socket E opts = do {
     let addr = (case listen_addr opts of Some a \<Rightarrow> a | None \<Rightarrow> socket_path);
     listenfd \<leftarrow> (case split_port addr of Some hp \<Rightarrow> tcp_socket E addr hp | None \<Rightarrow> unix_socket E addr);
     if listenfd = -1 then ret (-1)
     else do {
       flags \<leftarrow> sys E (Sys_getfl listenfd);
       whenM (0 \<le> flags) (do { sys E (Sys_setfl listenfd); skip });
       r \<leftarrow> sys E (Sys_listen listenfd 256);
       if r \<noteq> 0 then ret (-1) else ret listenfd
     }
   }"

section \<open>Becoming a daemon\<close>

definition daemonize :: "'p ext \<Rightarrow> ('p, halt + unit) mux" where
  "daemonize E =
     (if os_getppid (os E) = 1 then ret (Inr ())
      else andthen (require (sys E Sys_pipe)) (\<lambda>_.
        andthen (require (sys E Sys_fork)) (\<lambda>pid.
          if 0 < pid then do {
            t \<leftarrow> tick E;
            ret (Inl (Exit_now (case os_child_status (os E) t of None \<Rightarrow> 1 | Some status \<Rightarrow> status)))
          }
          else do {
            mod_misc (\<lambda>m. m\<lparr>report_to_parent := True\<rparr>);
            sid \<leftarrow> sys E Sys_setsid;
            if sid < 0 then ret (Inl (Terminate (-1)))
            else andthen (require (sys E Sys_fork)) (\<lambda>pid.
              if 0 < pid then ret (Inl (Exit_now 0))
              else do {
                r \<leftarrow> sys E (Sys_chdir ''/'');
                if r < 0 then ret (Inl (Terminate (-2)))
                else do {
                  r \<leftarrow> sys E (Sys_freopen ''stdin'');
                  if r < 0 then ret (Inl (Terminate (-3)))
                  else do {
                    r \<leftarrow> sys E (Sys_freopen ''stdout'');
                    ret (if r < 0 then Inl (Terminate (-3)) else Inr ())
                  }
                }
              })
          })))"

text \<open>Writing the status takes the four bytes of an \<^verbatim>\<open>int\<close>.\<close>

definition notify_parent :: "'p ext \<Rightarrow> int \<Rightarrow> ('p, int) mux" where
  "notify_parent E status = do {
     mod_misc (\<lambda>m. m\<lparr>report_to_parent := False\<rparr>);
     res \<leftarrow> sys E (Sys_notify status);
     if res \<noteq> 4 then ret (if 0 \<le> res then -2 else res)
     else do {
       r \<leftarrow> sys E (Sys_freopen ''stderr'');
       ret (if r < 0 then -1 else 0)
     }
   }"

section \<open>The lock file\<close>

text \<open>Sending a signal to the instance that holds the lock.\<close>

definition signal_other :: "'p ext \<Rightarrow> int \<Rightarrow> int \<Rightarrow> ('p, int) mux" where
  "signal_other E pid sig =
     (if pid = 0 then ret (-1)
      else do {
        r \<leftarrow> sys E (Sys_kill pid 0);
        if r \<noteq> 0 then ret (-1)
        else do {
          r \<leftarrow> sys E (Sys_kill pid sig);
          ret (if r < 0 then -1 else 0)
        }
      })"

definition check_lock :: "'p ext \<Rightarrow> options \<Rightarrow> ('p, halt + unit) mux" where
  "check_lock E opts = (case lockfile opts of
       None \<Rightarrow> ret (Inr ())
     | Some file \<Rightarrow> do {
         lfd \<leftarrow> sys E (Sys_open file False);
         if lfd = -1 then ret (Inl (Terminate (-1)))
         else do {
           t \<leftarrow> gets calls;
           sys E (Sys_getlk lfd);
           sys E (Sys_close lfd);
           case os_lock (os E) t lfd of
             Some pid \<Rightarrow> do {
               res \<leftarrow> (if opt_exit opts then signal_other E pid (exit_signal opts)
                       else if opt_disable_hotplug opts then signal_other E pid SIGUSR2
                       else ret (-1));
               ret (Inl (Terminate res))
             }
           | None \<Rightarrow> do { sys E (Sys_unlink file); ret (Inr ()) }
         }
       })"

definition take_lock :: "'p ext \<Rightarrow> options \<Rightarrow> ('p, halt + unit) mux" where
  "take_lock E opts = (case lockfile opts of
       None \<Rightarrow> ret (Inr ())
     | Some file \<Rightarrow> andthen (require (sys E (Sys_open file True))) (\<lambda>lfd.
         andthen (require (sys E (Sys_setlk lfd))) (\<lambda>_. do {
           let pids = decimal (nat (os_getpid (os E)));
           assert_m OutOfBounds (length pids < 10);
           res \<leftarrow> sys E (Sys_write lfd pids);
           if res \<noteq> int (length pids) then ret (Inl (Terminate (if 0 \<le> res then -2 else res)))
           else ret (Inr ())
         })))"

section \<open>Configuration directory and privileges\<close>

text \<open>The mode, owner and group of the directory.\<close>

definition check_config_dir :: "'p ext \<Rightarrow> ('p, halt + (string \<times> nat \<times> int \<times> int)) mux" where
  "check_config_dir E = do {
     dir \<leftarrow> config_get_config_dir E;
     t \<leftarrow> tick E;
     st \<leftarrow> (case os_stat (os E) t dir of
        Some st \<Rightarrow> ret (Inr st)
      | None \<Rightarrow> do {
          r \<leftarrow> sys E (Sys_mkdir dir);
          if r < 0 then ret (Inl (Terminate (-1)))
          else do {
            t \<leftarrow> tick E;
            ret (case os_stat (os E) t dir of Some st \<Rightarrow> Inr st | None \<Rightarrow> Inl (Terminate (-1)))
          }
        });
     case st of
       Inl h \<Rightarrow> ret (Inl h)
     | Inr (mode, uid, gid) \<Rightarrow> do {
         whenM (mode \<noteq> 1533) (do { sys E (Sys_chmod dir 1533); skip });
         ret (Inr (dir, mode, uid, gid))
       }
   }"

definition become_user :: "'p ext \<Rightarrow> string \<Rightarrow> string \<times> nat \<times> int \<times> int \<Rightarrow> int \<times> int \<Rightarrow> ('p, halt + unit) mux" where
  "become_user E user st pw = (case (st, pw) of ((dir, mode, fuid, fgid), (uid, gid)) \<Rightarrow>
     do {
       whenM (fuid \<noteq> uid \<or> fgid \<noteq> gid) (do { sys E (Sys_chown dir uid gid); skip });
       andthen (require (sys E (Sys_initgroups user gid))) (\<lambda>_.
         andthen (require (sys E (Sys_setgid gid))) (\<lambda>_.
           andthen (require (sys E (Sys_setuid uid))) (\<lambda>_. do {
             r \<leftarrow> sys E (Sys_setuid 0);
             if r \<noteq> -1 then ret (Inl (Terminate (-1)))
             else do {
               t \<leftarrow> tick E;
               if os_getuid (os E) t \<noteq> uid \<or> os_getgid (os E) t \<noteq> gid then ret (Inl (Terminate (-1)))
               else ret (Inr ())
             }
           })))
     })"

definition drop_privileges :: "'p ext \<Rightarrow> options \<Rightarrow> string \<times> nat \<times> int \<times> int \<Rightarrow> ('p, halt + unit) mux" where
  "drop_privileges E opts st = (case drop_user opts of
       None \<Rightarrow> ret (Inr ())
     | Some user \<Rightarrow> do {
         t \<leftarrow> tick E;
         if os_getuid (os E) t = 0 \<or> os_geteuid (os E) t = 0 then do {
           t \<leftarrow> tick E;
           case os_getpwnam (os E) t user of
             None \<Rightarrow> ret (Inl (Terminate (-1)))
           | Some (uid, gid) \<Rightarrow> if uid = 0 then ret (Inr ()) else become_user E user st (uid, gid)
         } else ret (Inr ())
       })"

section \<open>Start and shutdown\<close>

text \<open>Everything between the options and the main loop; the value is the listening socket.\<close>

definition start :: "'p ext \<Rightarrow> options \<Rightarrow> ('p, halt + int) mux" where
  "start E opts = andthen (check_lock E opts) (\<lambda>_.
     if opt_exit opts then ret (Inl (Terminate 0))
     else andthen (if foreground opts then ret (Inr ()) else daemonize E) (\<lambda>_.
       andthen (take_lock E opts) (\<lambda>_. do {
         sys E Sys_setrlimit;
         andthen (require (create_socket E opts)) (\<lambda>listenfd.
           andthen (check_config_dir E) (\<lambda>st.
             andthen (drop_privileges E opts st) (\<lambda>_. do {
               client_init;
               device_init;
               andthen (require (usb_init E)) (\<lambda>_. do {
                 m \<leftarrow> gets misc;
                 r \<leftarrow> (if report_to_parent m then notify_parent E 0 else ret 0);
                 if r < 0 then ret (Inl (Terminate r))
                 else do {
                   whenM (opt_disable_hotplug opts) (usb_autodiscover False);
                   ret (Inr listenfd)
                 }
               })
             })))
       })))"

definition log_setup :: "options \<Rightarrow> ('p, unit) mux" where
  "log_setup opts = do {
     m \<leftarrow> gets misc;
     (if \<not> foreground opts \<and> \<not> use_logfile m then do {
        log_enable_syslog;
        mod_misc (\<lambda>m. m\<lparr>log_level := verbose opts + 2\<rparr>)
      } else mod_misc (\<lambda>m. m\<lparr>log_level := verbose opts + 3\<rparr>));
     mod_misc (\<lambda>m. m\<lparr>should_exit := False, should_discover := False\<rparr>)
   }"

definition shutdown :: "'p ext \<Rightarrow> ('p, unit) mux" where
  "shutdown E = do {
     device_kill_connections E (usb_process_timeout E);
     usb_shutdown E;
     device_shutdown E;
     client_shutdown E
   }"

text \<open>The label \<^verbatim>\<open>terminate\<close>: the exit code.\<close>

definition exit_code :: "int \<Rightarrow> int" where
  "exit_code res = (if res < 0 then - res else 0)"

definition terminate_main :: "'p ext \<Rightarrow> int \<Rightarrow> ('p, int) mux" where
  "terminate_main E res = do {
     log_disable_syslog;
     m \<leftarrow> gets misc;
     whenM (report_to_parent m) (do { notify_parent E (exit_code res); skip });
     ret (exit_code res)
   }"

definition main :: "'p ext \<Rightarrow> opt list \<Rightarrow> 'p daemon \<Rightarrow> (int \<times> 'p daemon) option" where
  "main E args s = (case run_state (andthen (parse_opts E args options0)
       (\<lambda>opts. do { log_setup opts; start E opts })) s of
     (Inl (Exit_now code), s1) \<Rightarrow> Some (code, s1)
   | (Inl (Terminate res), s1) \<Rightarrow> Some (run_state (terminate_main E res) s1)
   | (Inr listenfd, s1) \<Rightarrow> (case main_loop E listenfd s1 of
       None \<Rightarrow> None
     | Some (res, s2) \<Rightarrow> Some (run_state (do { shutdown E; terminate_main E res }) s2)))"

end
