(* ===== verification/Packets.thy ===== *)
theory Packets
  imports Connect
begin

text \<open>
  The input from the device: reassembly of packets that USB delivers in pieces, and the
  dispatch of a whole packet.
\<close>

section \<open>Reassembly\<close>

lemma DEV_MRU_nat: "unat DEV_MRU = 65536" and USB_MRU_nat: "unat USB_MRU = 16384"
  by (simp_all add: size_consts)

lemma take_take_eq: "take m xs = take m ys \<Longrightarrow> n \<le> m \<Longrightarrow> take n xs = take n ys"
  by (metis min.absorb1 take_take)

lemma rd_be32_take: "take n xs = take n ys \<Longrightarrow> off + 4 \<le> n \<Longrightarrow> rd_be32 xs off = rd_be32 ys off"
proof -
  assume t: "take n xs = take n ys" and o: "off + 4 \<le> n"
  have l: "off + 4 \<le> length xs \<longleftrightarrow> off + 4 \<le> length ys"
    using arg_cong [OF t, of length] o by auto
  have "xs ! i = ys ! i" if "i < off + 4" "off + 4 \<le> length xs" for i
    using arg_cong [OF t, of "\<lambda>l. l ! i"] that o by simp
  with l show ?thesis by (simp add: rd_be32_def)
qed

text \<open>A device in the middle of the packet \<open>pkt\<close>, of which \<open>n\<close> bytes have come.\<close>

definition midway :: "bytes \<Rightarrow> nat \<Rightarrow> mux_device \<Rightarrow> bool" where
  "midway pkt n D \<longleftrightarrow> unat (dev_pktlen D) = n \<and> n \<le> length (dev_pktbuf D) \<and> length (dev_pktbuf D) \<le> unat DEV_MRU \<and>
     take n (dev_pktbuf D) = take n pkt \<and> n < length pkt"

definition mux_sized :: "bytes \<Rightarrow> bool" where
  "mux_sized pkt \<longleftrightarrow> rd_be32 pkt 4 = Some (of_nat (length pkt)) \<and> length pkt \<le> unat DEV_MRU"

text \<open>Only the packet buffer differs.\<close>

definition rebuf :: "mux_device \<Rightarrow> mux_device \<Rightarrow> bool" where
  "rebuf D D' \<longleftrightarrow> (\<exists>b l. D' = D\<lparr>dev_pktbuf := b, dev_pktlen := l\<rparr> \<and> length b \<le> unat DEV_MRU \<and> unat l \<le> length b)"

lemma rebufI: "length b \<le> unat DEV_MRU \<Longrightarrow> unat l \<le> length b \<Longrightarrow> rebuf D (D\<lparr>dev_pktbuf := b, dev_pktlen := l\<rparr>)"
  unfolding rebuf_def by blast

lemma midway_rebuf: "midway pkt n (D\<lparr>dev_pktbuf := b, dev_pktlen := l\<rparr>) \<Longrightarrow> rebuf D (D\<lparr>dev_pktbuf := b, dev_pktlen := l\<rparr>)"
  by (rule rebufI) (simp_all add: midway_def)

text \<open>The first piece, and one more piece: the packet is handed out exactly when it is complete.\<close>

lemma gather_first:
  assumes D: "devs s d = Some D" "dev_pktlen D = 0" "length (dev_pktbuf D) \<le> unat DEV_MRU"
    and pkt: "mux_sized pkt" "buf = take (unat USB_MRU) pkt"
  shows "wp (gather d buf) (\<lambda>r s'. if length pkt \<le> unat USB_MRU then r = Some pkt \<and> s' = s
     else r = None \<and> (\<exists>D'. s' = s\<lparr>devs := (devs s)(d \<mapsto> D')\<rparr> \<and> rebuf D D' \<and> midway pkt (unat USB_MRU) D')) s"
proof (cases "length pkt \<le> unat USB_MRU")
  case True
  then have buf: "buf = pkt" using pkt(2) by simp
  have len: "unat (of_nat (length pkt) :: u32) = length pkt"
    using True by (intro unat_of_nat_small) (simp add: USB_MRU_nat)
  show ?thesis
    using True D pkt(1) unfolding buf
    by (simp add: gather_def wp_rules mux_length_def mux_sized_def word_less_nat_alt len)
next
  case False
  then have blen: "length buf = unat USB_MRU" using pkt(2) by simp
  have w: "of_nat (length buf) = USB_MRU" using blen by simp
  have len: "unat (of_nat (length pkt) :: u32) = length pkt"
    using pkt(1) by (intro unat_of_nat_small) (simp add: mux_sized_def DEV_MRU_nat)
  have rd: "rd_be32 buf 4 = Some (of_nat (length pkt))"
    using pkt rd_be32_take [of "unat USB_MRU" buf pkt 4] by (simp add: mux_sized_def USB_MRU_nat)
  have less: "USB_MRU < of_nat (length pkt)" using False len by (simp add: word_less_nat_alt)
  define D1 where "D1 = D\<lparr>dev_pktbuf := memcpy_at (dev_pktbuf D) 0 buf, dev_pktlen := USB_MRU\<rparr>"
  have "midway pkt (unat USB_MRU) D1"
    using False D(3) blen pkt(2)
    by (simp add: midway_def D1_def length_memcpy_at memcpy_at_def DEV_MRU_nat USB_MRU_nat)
  moreover from this have "rebuf D D1" unfolding D1_def by (rule midway_rebuf)
  moreover have "wp (gather d buf) (\<lambda>r s'. r = None \<and> s' = s\<lparr>devs := (devs s)(d \<mapsto> D1)\<rparr>) s"
    using D w rd less by (simp add: gather_def wp_rules mux_length_def Let_def D1_def)
  ultimately show ?thesis using False by (auto elim!: wp_mono)
qed

lemma gather_next:
  assumes D: "devs s d = Some D" "midway pkt n D" "unat USB_MRU \<le> n" and pkt: "mux_sized pkt"
    and buf: "buf = take (unat USB_MRU) (drop n pkt)"
  shows "wp (gather d buf) (\<lambda>r s'. \<exists>D'. s' = s\<lparr>devs := (devs s)(d \<mapsto> D')\<rparr> \<and> rebuf D D' \<and>
     (if length pkt \<le> n + unat USB_MRU then r = Some pkt \<and> dev_pktlen D' = 0
      else r = None \<and> midway pkt (n + unat USB_MRU) D')) s"
proof -
  note m = D(2) [unfolded midway_def]
  let ?b = "memcpy_at (dev_pktbuf D) n buf" and ?l = "of_nat (length buf) :: u32"
  have plen: "length pkt \<le> 65536" using pkt by (simp add: mux_sized_def DEV_MRU_nat)
  have blen: "length buf = min (unat USB_MRU) (length pkt - n)" using buf by simp
  then have le: "n + length buf \<le> length pkt" using m by linarith
  have u: "unat ?l = length buf" using le plen by (intro unat_of_nat_small) simp
  have sum: "unat (?l + dev_pktlen D) = n + length buf"
    using u m le plen by (simp add: unat_word_ariths)
  have top: "\<not> ?l + dev_pktlen D > DEV_MRU"
    using sum le plen by (simp add: word_less_nat_alt DEV_MRU_nat)
  have pre: "take (n + length buf) ?b = take (n + length buf) pkt"
  proof -
    have "take (length buf) (drop n pkt) = buf"
      unfolding buf by (metis append_eq_conv_conj append_take_drop_id)
    then show ?thesis using m take_memcpy_at [of n "dev_pktbuf D" buf] by (simp only: take_add)
  qed
  have rd: "rd_be32 ?b 4 = Some (of_nat (length pkt))"
    using rd_be32_take [OF pre, of 4] pkt D(3) by (simp add: mux_sized_def USB_MRU_nat)
  have ulen: "unat (of_nat (length pkt) :: u32) = length pkt" using plen by (intro unat_of_nat_small) simp
  have whole: "of_nat (length pkt) = ?l + dev_pktlen D \<longleftrightarrow> length pkt = n + length buf"
    unfolding word_unat_eq_iff [where 'a = 32] sum ulen ..
  have fin: "?l < USB_MRU \<or> of_nat (length pkt) = ?l + dev_pktlen D \<longleftrightarrow> length pkt \<le> n + unat USB_MRU"
  proof -
    have less: "?l < USB_MRU \<longleftrightarrow> length buf < unat USB_MRU" unfolding word_less_nat_alt u ..
    have "n < length pkt" using m by blast
    then show ?thesis unfolding less whole using blen by linarith
  qed
  have pos: "dev_pktlen D \<noteq> 0" using m D(3) USB_MRU_nat by force
  have m1: "unat (dev_pktlen D) = n" using m by blast
  show ?thesis
  proof (cases "length pkt \<le> n + unat USB_MRU")
    case True
    then have "n + length buf = length pkt" using blen m by simp
    then have all: "take (unat (?l + dev_pktlen D)) ?b = pkt" using pre sum by simp
    define D1 where "D1 = D\<lparr>dev_pktbuf := ?b, dev_pktlen := 0\<rparr>"
    have re: "rebuf D D1"
      unfolding D1_def by (rule rebufI) (use m le plen in \<open>simp_all add: length_memcpy_at DEV_MRU_nat\<close>)
    from True fin have "?l < USB_MRU \<or> of_nat (length pkt) = ?l + dev_pktlen D" by blast
    then have "wp (gather d buf) (\<lambda>r s'. r = Some pkt \<and> s' = s\<lparr>devs := (devs s)(d \<mapsto> D1)\<rparr>) s"
      using rd top pos D(1) all m1
      by (simp only: gather_def mux_length_def Let_def wp_bind wp_if wp_rules) (simp add: wp_rules D1_def)
    then show ?thesis by (rule wp_mono) (use True re in \<open>auto simp: D1_def\<close>)
  next
    case False
    then have full: "length buf = unat USB_MRU" using blen by simp
    define D1 where "D1 = D\<lparr>dev_pktbuf := ?b, dev_pktlen := dev_pktlen D + ?l\<rparr>"
    have mid: "midway pkt (n + unat USB_MRU) D1"
      using False m sum pre plen full by (auto simp: D1_def midway_def length_memcpy_at DEV_MRU_nat add.commute)
    then have re: "rebuf D D1" unfolding D1_def by (rule midway_rebuf)
    from False fin have "\<not> ?l < USB_MRU" "of_nat (length pkt) \<noteq> ?l + dev_pktlen D" by blast+
    then have "wp (gather d buf) (\<lambda>r s'. r = None \<and> s' = s\<lparr>devs := (devs s)(d \<mapsto> D1)\<rparr>) s"
      using rd top pos D(1) m1
      by (simp only: gather_def mux_length_def Let_def wp_bind wp_if wp_rules) (simp add: wp_rules D1_def)
    then show ?thesis by (rule wp_mono) (use False mid re in auto)
  qed
qed

end
