(* ===== verification/Reassembly.thy ===== *)
theory Reassembly
  imports Packets Tcp_Input
begin

text \<open>
  A whole packet on its way through USB: cut into pieces by the sender, gathered by the
  device layer, and dispatched once it is complete.
\<close>

section \<open>Pieces\<close>

function pieces :: "bytes \<Rightarrow> bytes list" where
  "pieces xs = (if length xs \<le> unat USB_MRU then [xs] else take (unat USB_MRU) xs # pieces (drop (unat USB_MRU) xs))"
  by auto
termination
  by (relation "measure length") (auto simp: USB_MRU_nat)

declare pieces.simps [simp del]

text \<open>The pieces one after the other; each is gathered, and what becomes complete is passed on.\<close>

fun feed :: "(bytes \<Rightarrow> ('p, unit) mux) \<Rightarrow> bytes list \<Rightarrow> ('p, unit) mux" where
  "feed step [] = skip"
| "feed step (buf # bufs) = do { step buf; feed step bufs }"

abbreviation put_dev :: "ptr \<Rightarrow> mux_device \<Rightarrow> 'p daemon \<Rightarrow> 'p daemon" where
  "put_dev d D s \<equiv> s\<lparr>devs := (devs s)(d \<mapsto> D)\<rparr>"

definition gathers :: "(bytes \<Rightarrow> ('p, unit) mux) \<Rightarrow> (bytes \<Rightarrow> ('p, unit) mux) \<Rightarrow> ptr \<Rightarrow> mux_device \<Rightarrow> 'p daemon \<Rightarrow> bool" where
  "gathers step k d D0 s \<longleftrightarrow> (\<forall>D buf. rebuf D0 D \<longrightarrow> buf \<noteq> [] \<longrightarrow> length buf \<le> unat USB_MRU \<longrightarrow>
     run_state (step buf) (put_dev d D s) =
       run_state (do { pkt \<leftarrow> gather d buf; case pkt of None \<Rightarrow> skip | Some p \<Rightarrow> k p }) (put_dev d D s))"

lemma rebuf_trans:
  assumes "rebuf D D1" and "rebuf D1 D2"
  shows "rebuf D D2"
proof -
  from assms obtain b l b' l' where "D1 = D\<lparr>dev_pktbuf := b, dev_pktlen := l\<rparr>" "D2 = D1\<lparr>dev_pktbuf := b', dev_pktlen := l'\<rparr>"
    "length b' \<le> unat DEV_MRU" "unat l' \<le> length b'" unfolding rebuf_def by blast
  with rebufI [of b' l' D] show ?thesis by simp
qed

lemma wp_runE:
  assumes "wp m Q s"
  obtains a s' where "run_state m s = (a, s')" "Q a s'"
  using assms by (cases "run_state m s") (simp add: wp_def)

lemma run_feed:
  assumes "gathers step k d D0 s" and "rebuf D0 D" and "buf \<noteq> []" and "length buf \<le> unat USB_MRU"
    and "run_state (gather d buf) (put_dev d D s) = (r, s')"
  shows "run_state (feed step (buf # bufs)) (put_dev d D s) =
    run_state (do { (case r of None \<Rightarrow> skip | Some p \<Rightarrow> k p); feed step bufs }) s'"
  using assms unfolding gathers_def by simp

lemma feed_rest:
  assumes "gathers step k d D0 s" and "rebuf D0 D" and "midway pkt n D" and "unat USB_MRU \<le> n" and "mux_sized pkt"
    and "xs = drop n pkt"
  shows "\<exists>D'. rebuf D0 D' \<and> dev_pktlen D' = 0 \<and>
    run_state (feed step (pieces xs)) (put_dev d D s) = run_state (k pkt) (put_dev d D' s)"
  using assms
proof (induction xs arbitrary: n D rule: pieces.induct)
  case (1 xs)
  note D = 1(4-6) and step = 1(2,3)
  have xs: "xs = drop n pkt" by fact
  have n: "n < length pkt" using D(1) by (simp add: midway_def)
  have ne: "take (unat USB_MRU) xs \<noteq> []" "length (take (unat USB_MRU) xs) \<le> unat USB_MRU" using xs n USB_MRU_nat by auto
  have at: "devs (put_dev d D s) d = Some D" by simp
  obtain r D1 where g: "run_state (gather d (take (unat USB_MRU) xs)) (put_dev d D s) = (r, put_dev d D1 s)"
    and D1: "rebuf D D1"
      "if length pkt \<le> n + unat USB_MRU then r = Some pkt \<and> dev_pktlen D1 = 0 else r = None \<and> midway pkt (n + unat USB_MRU) D1"
    by (rule wp_runE [OF gather_next [OF at D refl]]) (use xs in auto)
  note re = rebuf_trans [OF step(2) D1(1)]
  show ?case
  proof (cases "length xs \<le> unat USB_MRU")
    case True
    then have "length pkt \<le> n + unat USB_MRU" using xs n by simp
    then have r: "r = Some pkt" "dev_pktlen D1 = 0" using D1(2) by simp_all
    have "run_state (feed step (pieces xs)) (put_dev d D s) = run_state (k pkt) (put_dev d D1 s)"
      using run_feed [OF step ne g, of "[]"] True r by (simp add: pieces.simps [of xs] split_beta)
    with re r show ?thesis by blast
  next
    case False
    then have "\<not> length pkt \<le> n + unat USB_MRU" using xs n by simp
    then have r: "r = None" "midway pkt (n + unat USB_MRU) D1" using D1(2) by simp_all
    have d: "unat USB_MRU \<le> n + unat USB_MRU" "drop (unat USB_MRU) xs = drop (n + unat USB_MRU) pkt"
      using xs by (simp_all add: add.commute)
    obtain D2 where D2: "rebuf D0 D2" "dev_pktlen D2 = 0"
      "run_state (feed step (pieces (drop (unat USB_MRU) xs))) (put_dev d D1 s) = run_state (k pkt) (put_dev d D2 s)"
      using 1(1) [OF False step(1) re r(2) d(1) D(3) d(2)] by blast
    have "run_state (feed step (pieces xs)) (put_dev d D s) = run_state (k pkt) (put_dev d D2 s)"
      using run_feed [OF step ne g] False r D2(3) by (simp add: pieces.simps [of xs])
    with D2 show ?thesis by blast
  qed
qed

lemma feed_pieces:
  assumes g: "gathers step k d D s" and D: "devs s d = Some D" "dev_pktlen D = 0" "length (dev_pktbuf D) \<le> unat DEV_MRU"
    and pkt: "mux_sized pkt"
  shows "\<exists>D'. rebuf D D' \<and> dev_pktlen D' = 0 \<and>
    run_state (feed step (pieces pkt)) s = run_state (k pkt) (put_dev d D' s)"
proof -
  have same: "put_dev d D s = s" using D(1) by (simp add: fun_upd_idem)
  have "rebuf D (D\<lparr>dev_pktbuf := dev_pktbuf D, dev_pktlen := dev_pktlen D\<rparr>)" by (rule rebufI) (use D in simp_all)
  then have re: "rebuf D D" by simp
  have "pkt \<noteq> []" using pkt by (auto simp: mux_sized_def rd_be32_def)
  then have ne: "take (unat USB_MRU) pkt \<noteq> []" "length (take (unat USB_MRU) pkt) \<le> unat USB_MRU" by (simp_all add: USB_MRU_nat)
  obtain r s' where run: "run_state (gather d (take (unat USB_MRU) pkt)) (put_dev d D s) = (r, s')"
    and s': "if length pkt \<le> unat USB_MRU then r = Some pkt \<and> s' = s
     else r = None \<and> (\<exists>D'. s' = put_dev d D' s \<and> rebuf D D' \<and> midway pkt (unat USB_MRU) D')"
    unfolding same by (rule wp_runE [OF gather_first [OF D pkt refl]])
  note f = run_feed [OF g re ne run, unfolded same]
  show ?thesis
  proof (cases "length pkt \<le> unat USB_MRU")
    case True
    have "run_state (feed step (pieces pkt)) s = run_state (k pkt) s"
      using f [of "[]"] True s' by (simp add: pieces.simps [of pkt] split_beta)
    then show ?thesis using D re same by (intro exI [of _ D]) simp
  next
    case False
    with s' obtain D1 where r: "r = None" "s' = put_dev d D1 s" "rebuf D D1" "midway pkt (unat USB_MRU) D1" by auto
    obtain D2 where D2: "rebuf D D2" "dev_pktlen D2 = 0"
      "run_state (feed step (pieces (drop (unat USB_MRU) pkt))) (put_dev d D1 s) = run_state (k pkt) (put_dev d D2 s)"
      using feed_rest [OF g r(3,4) order_refl pkt refl] by blast
    have "run_state (feed step (pieces pkt)) s = run_state (k pkt) (put_dev d D2 s)"
      using f False r D2(3) by (simp add: pieces.simps [of pkt])
    with D2 show ?thesis by blast
  qed
qed

section \<open>Dispatch\<close>

text \<open>A packet that \<open>send_tcp\<close> would build is dispatched as the header and the payload it was built from.\<close>

lemma mux_packet_fields:
  "rd_be32 (mux_packet S proto header data) 0 = Some (proto_num proto)"
  "rd_be32 (mux_packet S proto header data) 4 = Some (of_nat (mux_header_size S + length header + length data))"
  "2 \<le> dev_version S \<Longrightarrow> rd_be16 (mux_packet S proto header data) 14 = Some (the (dev_rx_seq S))"
proof -
  let ?l = "be32 (of_nat (mux_header_size S + length header + length data))"
  let ?v = "if 2 \<le> dev_version S then be32 0xfeedface @ be16 (the (dev_tx_seq S)) @ be16 (the (dev_rx_seq S)) else []"
  show "rd_be32 (mux_packet S proto header data) 0 = Some (proto_num proto)"
    unfolding mux_packet_def using rd_be32_at [of 0 "[]"] by simp
  show "rd_be32 (mux_packet S proto header data) 4 = Some (of_nat (mux_header_size S + length header + length data))"
    unfolding mux_packet_def using rd_be32_at [of 4 "be32 (proto_num proto)" _ "?v @ header @ data"] by simp
  assume "2 \<le> dev_version S"
  then show "rd_be16 (mux_packet S proto header data) 14 = Some (the (dev_rx_seq S))"
    unfolding mux_packet_def
    using rd_be16_at [of 14 "be32 (proto_num proto) @ ?l @ be32 0xfeedface @ be16 (the (dev_tx_seq S))" "the (dev_rx_seq S)" "header @ data"]
    by simp
qed

lemma mux_packet_split:
  obtains pre where "mux_packet S proto header data = pre @ header @ data" "length pre = mux_header_size S"
  by (rule that [of "take (mux_header_size S) (mux_packet S proto header data)"])
    (auto simp: mux_packet_def mux_header_size_def)

lemma mux_packet_sized:
  "mux_header_size S + length header + length data \<le> unat DEV_MRU \<Longrightarrow> mux_sized (mux_packet S proto header data)"
  unfolding mux_sized_def mux_packet_fields by simp

definition rx_noted :: "mux_device \<Rightarrow> mux_device \<Rightarrow> mux_device" where
  "rx_noted S D = (if 2 \<le> dev_version D then D\<lparr>dev_rx_seq := Some (the (dev_rx_seq S))\<rparr> else D)"

lemma run_dispatch_tcp:
  assumes D: "devs s d = Some D" and ver: "2 \<le> dev_version S \<longleftrightarrow> 2 \<le> dev_version D"
  shows "run_state (dispatch_packet E d (mux_packet S MUX_PROTO_TCP (enc_tcphdr th) payload)) s =
    run_state (device_tcp_input E d th payload) (put_dev d (rx_noted S D) s)"
proof -
  let ?pkt = "mux_packet S MUX_PROTO_TCP (enc_tcphdr th) payload"
  have hs: "mux_header_size S = mux_header_size D" using ver by (auto simp: mux_header_size_def)
  obtain pre where pre: "?pkt = pre @ enc_tcphdr th @ payload" "length pre = mux_header_size D"
    using mux_packet_split [of S MUX_PROTO_TCP "enc_tcphdr th" payload] hs by auto
  have dec: "dec_tcphdr ?pkt (mux_header_size D) = Some th" using tcp_hdr.dec_enc [of pre th payload] pre by simp
  have dr: "drop (mux_header_size D + 20) ?pkt = payload" using pre tcp_hdr.enc_width [of th] by simp
  have same: "put_dev d D s = s" using D by (simp add: fun_upd_idem)
  have up: "run_state (up_dev d g) s = ((), put_dev d (g D) s)" for g
    using D by (cases s) (simp add: up_heap_def)
  note f = mux_packet_fields [of S MUX_PROTO_TCP "enc_tcphdr th" payload]
  show ?thesis
  proof (cases "2 \<le> dev_version D")
    case True
    then show ?thesis
      using D f ver dec dr hs tcp_hdr.enc_width [of th]
      by (simp add: dispatch_packet_def mux_length_def rd_heap_def up expect_def whenM_def rx_noted_def Let_def)
  next
    case False
    then show ?thesis
      using D f ver dec dr hs tcp_hdr.enc_width [of th] same
      by (simp add: dispatch_packet_def mux_length_def rd_heap_def expect_def whenM_def rx_noted_def Let_def)
  qed
qed

section \<open>The whole way\<close>

lemma run_data_input:
  assumes wf: "wf s" and free: "\<not> device_list_mutex s" and D: "devs s d = Some D" "dev_usbdev D = p"
    and one: "\<And>d' D'. devs s d' = Some D' \<Longrightarrow> dev_usbdev D' = p \<Longrightarrow> d' = d"
  shows "gathers (device_data_input E p) (dispatch_packet E d) d D s"
  unfolding gathers_def
proof (intro allI impI)
  fix D1 and buf :: bytes assume re: "rebuf D D1" and buf: "buf \<noteq> []" "length buf \<le> unat USB_MRU"
  define t where "t = put_dev d D1 s"
  define tl where "tl = t\<lparr>device_list_mutex := True\<rparr>"
  have D1: "dev_usbdev D1 = p" using re D by (auto simp: rebuf_def)
  have run: "run_state (do { D \<leftarrow> rd_dev d'; ret (dev_usbdev D = p) }) tl = (d' = d, tl)" if "d' \<in> set (device_list s)" for d'
    using that wfD(3) [OF wf] one D1 by (auto simp: rd_heap_def tl_def t_def)
  have "find (\<lambda>d'. d' = d) (device_list s) = Some d"
    by (rule find_unique) (use D wfD(3) [OF wf] in auto)
  then have found: "run_state (find_m (\<lambda>d. do { D \<leftarrow> rd_dev d; ret (dev_usbdev D = p) }) (device_list t)) tl = (Some d, tl)"
    using run_find_m_pure [OF run] by (simp add: t_def)
  have "tl\<lparr>device_list_mutex := False\<rparr> = t" "\<not> device_list_mutex t" using free by (simp_all add: tl_def t_def)
  moreover have "length buf \<le> unat DEV_MRU" using buf by (simp add: DEV_MRU_nat USB_MRU_nat)
  ultimately show "run_state (device_data_input E p buf) (put_dev d D1 s) =
      run_state (do { pkt \<leftarrow> gather d buf; case pkt of None \<Rightarrow> skip | Some p \<Rightarrow> dispatch_packet E d p }) (put_dev d D1 s)"
    using found buf unfolding t_def [symmetric] tl_def device_data_input_def
    by (simp add: lock_devices_def unlock_devices_def)
qed

text \<open>However long the packet, the daemon sees one TCP packet: the one that was sent.\<close>

lemma run_delivered:
  assumes wf: "wf s" and free: "\<not> device_list_mutex s" and D: "devs s d = Some D" "dev_usbdev D = p" "dev_pktlen D = 0"
    and one: "\<And>d' D'. devs s d' = Some D' \<Longrightarrow> dev_usbdev D' = p \<Longrightarrow> d' = d"
    and ver: "2 \<le> dev_version S \<longleftrightarrow> 2 \<le> dev_version D" and len: "mux_header_size D + 20 + length payload \<le> unat DEV_MRU"
  shows "\<exists>D'. rebuf D D' \<and> dev_pktlen D' = 0 \<and>
    run_state (feed (device_data_input E p) (pieces (mux_packet S MUX_PROTO_TCP (enc_tcphdr th) payload))) s =
    run_state (device_tcp_input E d th payload) (put_dev d (rx_noted S D') s)"
proof -
  have hs: "mux_header_size S = mux_header_size D" using ver by (auto simp: mux_header_size_def)
  have sized: "mux_sized (mux_packet S MUX_PROTO_TCP (enc_tcphdr th) payload)"
    by (rule mux_packet_sized) (use len hs tcp_hdr.enc_width [of th] in simp)
  have buf: "length (dev_pktbuf D) \<le> unat DEV_MRU" using wfD(6) [OF wf D(1)] by (simp add: dev_ok_def)
  have g: "gathers (device_data_input E p) (dispatch_packet E d) d D s" by (rule run_data_input [OF wf free D(1,2) one])
  from feed_pieces [OF g D(1,3) buf sized] obtain D' where D': "rebuf D D'" "dev_pktlen D' = 0"
    "run_state (feed (device_data_input E p) (pieces (mux_packet S MUX_PROTO_TCP (enc_tcphdr th) payload))) s =
     run_state (dispatch_packet E d (mux_packet S MUX_PROTO_TCP (enc_tcphdr th) payload)) (put_dev d D' s)"
    by blast
  have "dev_version D' = dev_version D" using D'(1) by (auto simp: rebuf_def)
  then have "2 \<le> dev_version S \<longleftrightarrow> 2 \<le> dev_version D'" using ver by simp
  moreover have "devs (put_dev d D' s) d = Some D'" by simp
  ultimately show ?thesis
    using run_dispatch_tcp [of "put_dev d D' s" d D' S E th payload] D' by (intro exI [of _ D']) simp
qed

end
