(* ===== verification/Lifecycle.thy ===== *)
theory Lifecycle
  imports Connect Listeners
begin

text \<open>
  Devices and clients that come and go: adding and removing a device, accepting a client,
  and the round of delayed acknowledgements keep the invariant.
\<close>

section \<open>Adding a device\<close>

lemma tables_new_dev:
  assumes tab: "tables_ok ct dt lt" and new: "dt d = None" "dev_connections D = None \<or> dev_connections D = Some []"
    and id: "\<And>d' D'. dt d' = Some D' \<Longrightarrow> dev_id D' \<noteq> dev_id D"
  shows "tables_ok ct (dt(d \<mapsto> D)) lt"
proof -
  have "sessions_ok ct (dt(d \<mapsto> D)) lt"
    using tab new(1) unfolding tables_ok_def sessions_ok_def by (metis fun_upd_other option.distinct(1))
  moreover have "conn_lists_ok ct (dt(d \<mapsto> D))"
    using tab new(2) unfolding tables_ok_def conn_lists_ok_def by auto
  moreover have "ids_distinct (dt(d \<mapsto> D))"
    using tab id unfolding tables_ok_def ids_distinct_def by (auto split: if_splits) metis
  ultimately show ?thesis using tab unfolding tables_ok_def by blast
qed

text \<open>The invariant in a state with the same tables and lists.\<close>

lemma wf_same:
  assumes wf: "wf s" and t: "conns t = conns s" "devs t = devs s" "clients t = clients s"
    and l: "device_list t = device_list s" "client_list t = client_list s"
    and core: "udev_core t = udev_core s" "next_ptr s \<le> next_ptr t"
  shows "wf t"
  by (rule wf_step [OF wf core]) (use wfD [OF wf] t l in auto)

lemma wf_new_dev:
  assumes wf: "wf s" and col: "collections_ok E" and D: "dev_ok s D" "dev_connections D = None"
    and id: "\<And>d' D'. devs s d' = Some D' \<Longrightarrow> dev_id D' \<noteq> dev_id D"
    and t: "conns t = conns s" "devs t = (devs s)(next_ptr s \<mapsto> D)" "clients t = clients s"
      "device_list t = collection_add E (device_list s) (next_ptr s)" "client_list t = client_list s"
      "udev_core t = udev_core s" "next_ptr s < next_ptr t"
  shows "wf t"
proof -
  have fresh: "devs s (next_ptr s) = None" using wfD(8) [OF wf, of "next_ptr s"] by simp
  have "tables_ok (conns t) (devs t) (clients t)"
    unfolding t(1-3) by (rule tables_new_dev [OF wfD(5) [OF wf] fresh disjI1 [OF D(2)] id])
  moreover have "distinct (device_list t)" "set (device_list t) = dom (devs t)"
    using wfD(1,3) [OF wf] fresh unfolding t by (auto simp: collection_add_distinct [OF col] collection_add_set [OF col])
  moreover have "dev_ok t D'" if "devs t d = Some D'" for d D'
    using that dev_ok_io(1) [OF _ t(6)] wfD(6) [OF wf] D(1) unfolding t by (auto split: if_splits)
  moreover have "conns t p = None \<and> devs t p = None \<and> clients t p = None" if "next_ptr t \<le> p" for p
    using that t(7) wfD(8) [OF wf, of p] unfolding t(1-3) by auto
  ultimately show ?thesis unfolding wf_def using wfD [OF wf] unfolding t(3,5) by blast
qed

lemma new_device_simps [simp]:
  "dev_connections (new_device i p) = None" "dev_id (new_device i p) = i" "dev_usbdev (new_device i p) = p"
  "dev_version (new_device i p) = 0" "dev_state (new_device i p) = MUXDEV_INIT" "seq_next (new_device i p) = new_device i p"
  by (simp_all add: new_device_def dev_zero_def seq_next_def)

lemma wp_device_add:
  assumes wf: "wf s" and col: "collections_ok E" and free: "\<not> device_list_mutex s" and few: "length (device_list s) < 2 ^ 32"
    and u: "udevs s p = Some u" "ud_wMaxPacketSize u \<noteq> 0"
  shows "wp (device_add E p) (\<lambda>r s'. safe s s' \<and> conns s' = conns s \<and> clients s' = clients s \<and>
     (r < 0 \<and> devs s' = devs s \<or>
      r = 0 \<and> (\<exists>i. (\<forall>d D. devs s d = Some D \<longrightarrow> dev_id D \<noteq> i) \<and> devs s' = (devs s)(next_ptr s \<mapsto> new_device i p)))) s"
    (is "wp _ ?Q s")
proof -
  have live: "\<And>d. d \<in> set (device_list s) \<Longrightarrow> \<exists>D. devs s d = Some D" using wfD(3) [OF wf] by blast
  have body: "wp (do {
       u \<leftarrow> rd_udev p;
       d \<leftarrow> new_heap devs_update (new_device i p);
       res \<leftarrow> send_packet E d MUX_PROTO_VERSION (enc_version_header \<lparr>vh_major = 2, vh_minor = 0, vh_padding = 0\<rparr>) [];
       if res < 0 then do { free_heap devs devs_update d; ret res }
       else do {
         lock_devices;
         modify (\<lambda>s. s\<lparr>device_list := collection_add E (device_list s) d\<rparr>);
         unlock_devices;
         ret 0
       }
     }) ?Q (s\<lparr>next_device_id := i + 1\<rparr>)" if i: "\<And>d D. devs s d = Some D \<Longrightarrow> dev_id D \<noteq> i" for i
  proof -
    define d where "d = next_ptr s"
    define s2 where "s2 = s\<lparr>next_device_id := i + 1, next_ptr := Suc d, devs := (devs s)(d \<mapsto> new_device i p)\<rparr>"
    have fresh: "devs s d = None" using wfD(8) [OF wf, of d] by (simp add: d_def)
    have s2: "devs s2 d = Some (new_device i p)" "udevs s2 p = Some u" "dev_sendable s2 (new_device i p)"
      using u by (simp_all add: s2_def dev_sendable_def)
    have ok: "dev_ok s (new_device i p)"
      using u by (simp add: dev_ok_def dev_sendable_def) (simp add: new_device_def dev_zero_def)
    have "wp (send_packet E d MUX_PROTO_VERSION (enc_version_header \<lparr>vh_major = 2, vh_minor = 0, vh_padding = 0\<rparr>) [])
        (\<lambda>_ s3. io_rest s2 s3 \<and> conns s3 = conns s2 \<and> clients s3 = clients s2 \<and> devs s3 = devs s2) s2"
      by (rule wp_mono [OF wp_send_packet [OF s2(1), where u = u]])
        (use s2 in \<open>auto simp: mux_header_size_def USB_MTU_def\<close>)
    then have "wp (send_packet E d MUX_PROTO_VERSION (enc_version_header \<lparr>vh_major = 2, vh_minor = 0, vh_padding = 0\<rparr>) [])
        (\<lambda>res. wp (if res < 0 then do { free_heap devs devs_update d; ret res }
         else do {
           lock_devices;
           modify (\<lambda>s. s\<lparr>device_list := collection_add E (device_list s) d\<rparr>);
           unlock_devices;
           ret 0
         }) ?Q) s2"
    proof (rule wp_mono, goal_cases)
      case (1 res s3)
      then have s3: "conns s3 = conns s" "clients s3 = clients s" "devs s3 = (devs s)(d \<mapsto> new_device i p)"
        and r: "io_rest s2 s3" by (simp_all add: s2_def)
      note r = io_restD [OF r]
      have r': "device_list s3 = device_list s" "client_list s3 = client_list s" "fault s3 = fault s"
        "\<not> device_list_mutex s3" "client_list_mutex s3 = client_list_mutex s" "udev_core s3 = udev_core s" "d < next_ptr s3"
        using r free by (simp_all add: s2_def udev_core_def)
      have undo: "(devs s)(d \<mapsto> new_device i p, d := None) = devs s" using fresh by auto
      define s4 where "s4 = s3\<lparr>devs := devs s\<rparr>"
      have "wf s4" by (rule wf_same [OF wf]) (use s3 r' in \<open>simp_all add: s4_def d_def\<close>)
      then have "safe s s4" using r' free by (simp add: safe_def s4_def)
      moreover define s5 where "s5 = s3\<lparr>device_list := collection_add E (device_list s) d, device_list_mutex := False\<rparr>"
      have "wf s5"
        by (rule wf_new_dev [OF wf col ok]) (use s3 r' i in \<open>simp_all add: s5_def d_def udev_core_def\<close>)
      then have "safe s s5" using r' free by (simp add: safe_def s5_def)
      ultimately show ?case
        using s3 r' i undo unfolding wp_if wp_bind wp_return
        by (auto simp: wp_rules s4_def s5_def d_def)
    qed
    then show ?thesis using u by (simp add: wp_rules s2_def d_def cong: if_cong)
  qed
  show ?thesis
    unfolding device_add_def wp_bind [of get_next_device_id]
  proof (rule wp_mono [OF wp_get_next_device_id [OF live free few]], goal_cases)
    case (2 i s')
    have "dev_id D \<noteq> i" if "devs s d = Some D" for d D
      using 2 that wfD(3) [OF wf] unfolding ids_used_def by force
    from body [OF this] 2 show ?case by simp
  qed simp
qed

section \<open>Taking down all connections of a device\<close>

lemma conns_ofE:
  assumes "k \<in> set (conns_of d s)"
  obtains D ks where "devs s d = Some D" "dev_connections D = Some ks" "k \<in> set ks" "conns_of d s = ks"
proof -
  from assms obtain D where D: "devs s d = Some D" by (cases "devs s d") (auto simp: conns_of_def)
  with assms obtain ks where "dev_connections D = Some ks" by (cases "dev_connections D") (auto simp: conns_of_def)
  with that D assms show ?thesis by (simp add: conns_of_def)
qed

definition same_dev :: "mux_device \<Rightarrow> mux_device \<Rightarrow> bool" where
  "same_dev D D' \<longleftrightarrow> dev_id D' = dev_id D \<and> dev_state D' = dev_state D \<and> dev_usbdev D' = dev_usbdev D \<and>
     dev_preflight_cb_data D' = dev_preflight_cb_data D \<and> (dev_connections D' = None \<longleftrightarrow> dev_connections D = None)"

definition stripped :: "ptr \<Rightarrow> mux_device \<Rightarrow> 'p daemon \<Rightarrow> 'p daemon \<Rightarrow> bool" where
  "stripped d D s s' \<longleftrightarrow> sound s s' \<and> (\<exists>D'. devs s' d = Some D' \<and> same_dev D D') \<and> dom (devs s') = dom (devs s) \<and>
     misc s' = misc s \<and> udev_core s' = udev_core s \<and> device_list s' = device_list s"

lemma wp_teardown_one:
  assumes E: "world_ok E" and free: "\<not> client_list_mutex s" and st: "stripped d D s s1" and k: "k \<in> set (conns_of d s1)"
  shows "wp (connection_teardown E k) (\<lambda>_ s'. stripped d D s s' \<and> set (conns_of d s') = set (conns_of d s1) - {k}) s1"
proof -
  from st obtain D1 where s1: "sound s s1" "devs s1 d = Some D1" "same_dev D D1" "dom (devs s1) = dom (devs s)"
    "misc s1 = misc s" "udev_core s1 = udev_core s" "device_list s1 = device_list s"
    unfolding stripped_def by blast
  note sd = soundD [OF s1(1)]
  from k s1(2) obtain ks where ks: "dev_connections D1 = Some ks" "k \<in> set ks" "conns_of d s1 = ks"
    by (auto elim: conns_ofE)
  obtain C where C: "conns s1 k = Some C" "conn_dev C = d" and dist: "distinct ks"
    using tablesD_dev [OF wfD(5) [OF sd(1)] s1(2) ks(1)] ks(2) by blast
  have free1: "\<not> client_list_mutex s1" using sd free by simp
  show ?thesis
  proof (rule wp_mono [OF wp_connection_teardown [OF sd(1) E sd(2) C(1) free1]], goal_cases)
    case (1 _ s2)
    have s2: "sound s s2" by (rule sound_trans [OF s1(1) torn_sound [OF sd(1) E sd(2) C(1) 1]])
    from 1 obtain D' where D': "D' = D1 \<or> D' = seq_next D1"
      "devs s2 = (devs s1)(d \<mapsto> D'\<lparr>dev_connections := Some (collection_remove E ks k)\<rparr>)"
      "io_rest (s1\<lparr>client_list := client_list s2\<rparr>) s2"
      using s1(2) ks(1) C(2) unfolding torn_def by auto
    note r = io_restD [OF D'(3), simplified]
    have "set (conns_of d s2) = set ks - {k}"
      using E dist by (simp add: conns_of_def D'(2) world_ok_def)
    moreover have "same_dev D (D'\<lparr>dev_connections := Some (collection_remove E ks k)\<rparr>)"
      using s1(3) D'(1) ks(1) by (auto simp: same_dev_def)
    moreover have "devs s2 d = Some (D'\<lparr>dev_connections := Some (collection_remove E ks k)\<rparr>)"
      "dom (devs s2) = dom (devs s1)" using s1(2) by (auto simp: D'(2))
    ultimately have "set (conns_of d s2) = set ks - {k}" "stripped d D s s2"
      using s2 s1(4-7) r(1,8,10) unfolding stripped_def by simp_all
    then show ?case using ks(3) by simp
  qed
qed

lemma wp_teardown_loop:
  assumes E: "world_ok E" and free: "\<not> client_list_mutex s"
  shows "stripped d D s s1 \<Longrightarrow> set (conns_of d s1) \<subseteq> set ks \<Longrightarrow>
    wp (foreach_m (conns_of d) (connection_teardown E) ks) (\<lambda>_ s'. stripped d D s s' \<and> conns_of d s' = []) s1"
proof (induction ks arbitrary: s1)
  case Nil
  then show ?case by (simp add: wp_rules)
next
  case (Cons k ks)
  show ?case
  proof (cases "k \<in> set (conns_of d s1)")
    case True
    have "wp (connection_teardown E k)
        (\<lambda>_. wp (foreach_m (conns_of d) (connection_teardown E) ks) (\<lambda>_ s'. stripped d D s s' \<and> conns_of d s' = [])) s1"
      by (rule wp_mono [OF wp_teardown_one [OF E free Cons.prems(1) True]])
        (use Cons.IH Cons.prems(2) in auto)
    with True show ?thesis by (simp add: wp_rules)
  next
    case False
    then have "set (conns_of d s1) \<subseteq> set ks" using Cons.prems(2) by auto
    with False Cons show ?thesis by (simp add: wp_rules)
  qed
qed

lemma wp_teardown_all:
  assumes wf: "wf s" and calm: "calm s" and E: "world_ok E" and free: "\<not> client_list_mutex s"
    and D: "devs s d = Some D" "dev_connections D \<noteq> None"
  shows "wp (teardown_all E d) (\<lambda>_ s'. stripped d D s s' \<and> conns_of d s' = []) s"
proof -
  obtain ks where ks: "dev_connections D = Some ks" "conns_of d s = ks" using D by (auto simp: conns_of_def)
  have "stripped d D s s" using sound_refl [OF wf calm] D by (simp add: stripped_def same_dev_def)
  from wp_teardown_loop [OF E free this, of ks] show ?thesis
    using D ks by (simp add: teardown_all_def wp_rules)
qed

section \<open>Removing a device\<close>

lemma tables_drop_dev:
  assumes tab: "tables_ok ct dt lt" and D: "dt d = Some D" "dev_connections D = None \<or> dev_connections D = Some []"
  shows "tables_ok ct (dt(d := None)) lt" "ct k = Some C \<Longrightarrow> conn_dev C \<noteq> d"
proof -
  have none: "conn_dev C \<noteq> d" if C: "ct k = Some C" for k C
    using session [OF tab C] D by auto
  then show "ct k = Some C \<Longrightarrow> conn_dev C \<noteq> d" .
  have "sessions_ok ct (dt(d := None)) lt"
    using tab none unfolding tables_ok_def sessions_ok_def by simp
  moreover have "conn_lists_ok ct (dt(d := None))" "ids_distinct (dt(d := None))"
    using tab unfolding tables_ok_def conn_lists_ok_def ids_distinct_def by auto
  ultimately show "tables_ok ct (dt(d := None)) lt" using tab unfolding tables_ok_def by blast
qed

lemma wf_drop_dev:
  assumes wf: "wf s" and col: "collections_ok E" and D: "devs s d = Some D" "conns_of d s = []"
    and t: "conns t = conns s" "devs t = (devs s)(d := None)" "clients t = clients s"
      "device_list t = collection_remove E (device_list s) d" "client_list t = client_list s"
      "udev_core t = udev_core s" "next_ptr s \<le> next_ptr t"
  shows "wf t" "conns t k = Some C \<Longrightarrow> conn_dev C \<noteq> d"
proof -
  have none: "dev_connections D = None \<or> dev_connections D = Some []"
    using D by (auto simp: conns_of_def split: option.splits)
  note tab = tables_drop_dev [OF wfD(5) [OF wf] D(1) none]
  show "conns t k = Some C \<Longrightarrow> conn_dev C \<noteq> d" using tab(2) t(1) by simp
  have "tables_ok (conns t) (devs t) (clients t)" using tab(1) t by simp
  moreover have "distinct (device_list t)" "set (device_list t) = dom (devs t)"
    using wfD(1,3) [OF wf] col unfolding t by auto
  moreover have "dev_ok t D'" if "devs t d' = Some D'" for d' D'
    using that dev_ok_io(1) [OF _ t(6)] wfD(6) [OF wf] unfolding t by (auto split: if_splits)
  moreover have "conns t p = None \<and> devs t p = None \<and> clients t p = None" if "next_ptr t \<le> p" for p
    using that t(7) wfD(8) [OF wf, of p] unfolding t(1-3) by auto
  ultimately show "wf t" unfolding wf_def using wfD [OF wf] unfolding t(3,5) by blast
qed

text \<open>What the daemon knows of the workers is true: their callback records are live.\<close>

definition settled :: "'p daemon \<Rightarrow> bool" where
  "settled s \<longleftrightarrow> (\<forall>d D. devs s d = Some D \<longrightarrow> dev_state D \<noteq> MUXDEV_DEAD \<and>
     (\<forall>q. dev_preflight_cb_data D = Some q \<longrightarrow> cbdata (misc s) q \<noteq> None))"

lemma wp_preflight_device_remove_cb:
  assumes "\<And>q. data = Some q \<Longrightarrow> cbdata (misc s) q \<noteq> None" and "\<And>m. Q () (s\<lparr>misc := m\<rparr>)"
  shows "wp (preflight_device_remove_cb data) Q s"
proof (cases data)
  case None
  have "s\<lparr>misc := misc s\<rparr> = s" by simp
  with None assms(2) [of "misc s"] show ?thesis by (simp add: preflight_device_remove_cb_def wp_rules)
next
  case (Some q)
  with assms show ?thesis by (auto simp: preflight_device_remove_cb_def up_cbdata_def wp_rules)
qed

definition dev_removed :: "ptr \<Rightarrow> 'p daemon \<Rightarrow> 'p daemon \<Rightarrow> bool" where
  "dev_removed d s s' \<longleftrightarrow> safe s s' \<and> dom (devs s') = dom (devs s) - {d} \<and>
     (\<forall>k C. conns s' k = Some C \<longrightarrow> conn_dev C \<noteq> d)"

text \<open>The end of the removal, from a state in which the device has no connections.\<close>

lemma wp_forget_device:
  assumes wf: "wf s1" and col: "collections_ok E" and D: "devs s1 d = Some D" "conns_of d s1 = []"
    and cb: "\<And>q. data = Some q \<Longrightarrow> cbdata (misc s1) q \<noteq> None"
    and s: "safe (s\<lparr>device_list_mutex := True\<rparr>) s1" "\<not> device_list_mutex s" "dom (devs s1) = dom (devs s)"
  shows "wp (do {
       preflight_device_remove_cb data;
       modify (\<lambda>s. s\<lparr>device_list := collection_remove E (device_list s) d\<rparr>);
       unlock_devices;
       free_heap devs devs_update d
     }) (\<lambda>_ s'. dev_removed d s s') s1"
proof -
  have "dev_removed d s (s1\<lparr>misc := m, device_list := collection_remove E (device_list s1) d, device_list_mutex := False,
      devs := (devs s1)(d := None)\<rparr>)" (is "dev_removed d s ?t") for m
  proof -
    have t: "conns ?t = conns s1" "devs ?t = (devs s1)(d := None)" "clients ?t = clients s1"
      "device_list ?t = collection_remove E (device_list s1) d" "client_list ?t = client_list s1"
      "udev_core ?t = udev_core s1" "next_ptr s1 \<le> next_ptr ?t" by (simp_all add: udev_core_def)
    note drop = wf_drop_dev [OF wf col D t]
    have "safe s ?t" using drop(1) s(1,2) by (simp add: safe_def)
    moreover have "dom (devs ?t) = dom (devs s) - {d}" using s(3) by simp
    moreover have "\<forall>k C. conns ?t k = Some C \<longrightarrow> conn_dev C \<noteq> d" using drop(2) by blast
    ultimately show ?thesis unfolding dev_removed_def by blast
  qed
  moreover have "device_list_mutex s1" using s(1) by (simp add: safe_def)
  ultimately show ?thesis
    unfolding wp_bind by (intro wp_preflight_device_remove_cb cb) (use D in \<open>auto simp: wp_rules\<close>)
qed

lemma wf_lock_devices:
  assumes "wf s"
  shows "wf (s\<lparr>device_list_mutex := b\<rparr>)"
  by (rule wf_same [OF assms]) (simp_all add: udev_core_def)

text \<open>Its connections are taken down and the listeners are told, when it was in use.\<close>

lemma wp_strip_device:
  assumes wf: "wf s1" and calm: "calm s1" and E: "world_ok E" "notices_ok E" and free: "\<not> client_list_mutex s1"
    and D: "devs s1 d = Some D" "dev_state D \<noteq> MUXDEV_DEAD"
  shows "wp (whenM (dev_state D = MUXDEV_ACTIVE) (do {
           up_dev d (\<lambda>D. D\<lparr>dev_state := MUXDEV_DEAD\<rparr>);
           teardown_all E d;
           client_device_remove E (dev_id D)
         })) (\<lambda>_ s4. safe s1 s4 \<and> (\<exists>D'. devs s4 d = Some D') \<and> conns_of d s4 = [] \<and> misc s4 = misc s1 \<and>
           dom (devs s4) = dom (devs s1)) s1" (is "wp _ ?Q s1")
proof (cases "dev_state D = MUXDEV_ACTIVE")
  case False
  with D(2) have "dev_connections D = None" using wfD(6) [OF wf D(1)] by (cases "dev_state D") (auto simp: dev_ok_def)
  then have "conns_of d s1 = []" using D by (simp add: conns_of_def)
  with False show ?thesis using D wf by (simp add: wp_rules safe_def)
next
  case True
  define D1 where "D1 = D\<lparr>dev_state := MUXDEV_DEAD\<rparr>"
  define s2 where "s2 = s1\<lparr>devs := (devs s1)(d \<mapsto> D1)\<rparr>"
  have D1: "dev_ok s1 D1" "dev_id D1 = dev_id D" "dev_connections D1 = dev_connections D" "dev_connections D1 \<noteq> None"
    using wfD(6) [OF wf D(1)] True by (auto simp: D1_def dev_ok_def dev_sendable_def)
  have s2: "wf s2" by (rule wf_upd_dev [OF wf D(1) D1(1-3)]) (simp_all add: s2_def)
  have s2': "calm s2" "\<not> client_list_mutex s2" "devs s2 d = Some D1" "safe s1 s2" "dom (devs s2) = dom (devs s1)"
    using calm free s2 D by (auto simp: s2_def calm_def safe_def)
  have "wp (teardown_all E d) (\<lambda>_. wp (client_device_remove E (dev_id D)) ?Q) s2"
  proof (rule wp_mono [OF wp_teardown_all [OF s2 s2'(1) E(1) s2'(2,3) D1(4)]], goal_cases)
    case (1 _ s3)
    then obtain D3 where s3: "sound s2 s3" "devs s3 d = Some D3" "dom (devs s3) = dom (devs s2)" "misc s3 = misc s2"
      and none: "conns_of d s3 = []" by (auto simp: stripped_def)
    note sd = soundD [OF s3(1)]
    show ?case
      unfolding client_device_remove_def
    proof (rule wp_mono [OF wp_locked_tell [OF sd(1,2) _ sends_device_notice(1) [OF E]]], goal_cases)
      case (2 _ s4)
      then have s4: "safe s3 s4" "devs s4 = devs s3" "io_rest s3 s4" by blast+
      have "safe s1 s4" using safe_trans [OF s2'(4) safe_trans [OF sd(6) s4(1)]] .
      then show ?case using s4 io_restD(10) [OF s4(3)] s3 s2' none by (simp add: conns_of_def s2_def)
    qed (use sd s2' in simp)
  qed
  with True D show ?thesis by (simp add: wp_rules s2_def D1_def)
qed

lemma find_usbdev:
  fixes s :: "'p daemon"
  assumes wf: "wf s" and D: "devs s d0 = Some D0" "dev_usbdev D0 = p"
  obtains d D where "devs s d = Some D" "dev_usbdev D = p"
    "\<And>Q b. wp (find_m (\<lambda>d. do { D \<leftarrow> rd_dev d; ret (dev_usbdev D = p) }) (device_list s)) Q (s\<lparr>device_list_mutex := b\<rparr>) =
       Q (Some d) (s\<lparr>device_list_mutex := b\<rparr>)"
proof -
  define isp where "isp d \<longleftrightarrow> dev_usbdev (the (devs s d)) = p" for d
  have run: "run_state (do { D \<leftarrow> rd_dev d; ret (dev_usbdev D = p) }) (s\<lparr>device_list_mutex := b\<rparr>) =
      (isp d, s\<lparr>device_list_mutex := b\<rparr>)" if "d \<in> set (device_list s)" for d b
    using that wfD(3) [OF wf] by (auto simp: rd_heap_def isp_def)
  have "d0 \<in> set (device_list s)" "isp d0" using D wfD(3) [OF wf] by (auto simp: isp_def)
  then obtain d where d: "find isp (device_list s) = Some d" "d \<in> set (device_list s)" "isp d"
    by (cases "find isp (device_list s)") (auto simp: find_None_iff find_Some_iff)
  then obtain D where D1: "devs s d = Some D" "dev_usbdev D = p" using wfD(3) [OF wf] by (auto simp: isp_def)
  show ?thesis by (rule that [OF D1]) (simp add: wp_find_m_pure [OF run] d(1))
qed

lemma wp_device_remove:
  assumes wf: "wf s" and calm: "calm s" and E: "world_ok E" "notices_ok E"
    and free: "\<not> device_list_mutex s" "\<not> client_list_mutex s" and set: "settled s" and u: "udevs s p = Some u"
    and D0: "devs s d0 = Some D0" "dev_usbdev D0 = p"
  shows "wp (device_remove E p) (\<lambda>_ s'. \<exists>d D. devs s d = Some D \<and> dev_usbdev D = p \<and> dev_removed d s s') s"
    (is "wp _ ?Q s")
proof -
  have col: "collections_ok E" using E by (simp add: world_ok_def)
  define s1 where "s1 = s\<lparr>device_list_mutex := True\<rparr>"
  obtain d D where D: "devs s d = Some D" "dev_usbdev D = p"
    and find: "\<And>Q b. wp (find_m (\<lambda>d. do { D \<leftarrow> rd_dev d; ret (dev_usbdev D = p) }) (device_list s)) Q (s\<lparr>device_list_mutex := b\<rparr>) =
       Q (Some d) (s\<lparr>device_list_mutex := b\<rparr>)" using find_usbdev [OF wf D0] by blast
  have st: "dev_state D \<noteq> MUXDEV_DEAD" and cb: "\<And>q. dev_preflight_cb_data D = Some q \<Longrightarrow> cbdata (misc s) q \<noteq> None"
    using set D unfolding settled_def by blast+
  have s1: "wf s1" "calm s1" "\<not> client_list_mutex s1" "devs s1 d = Some D"
    using wf_lock_devices [OF wf] calm D free by (simp_all add: s1_def calm_def)
  have "wp (whenM (dev_state D = MUXDEV_ACTIVE) (do {
           up_dev d (\<lambda>D. D\<lparr>dev_state := MUXDEV_DEAD\<rparr>);
           teardown_all E d;
           client_device_remove E (dev_id D)
         })) (\<lambda>_. wp (do {
       preflight_device_remove_cb (dev_preflight_cb_data D);
       modify (\<lambda>s. s\<lparr>device_list := collection_remove E (device_list s) d\<rparr>);
       unlock_devices;
       free_heap devs devs_update d
     }) ?Q) s1"
  proof (rule wp_mono [OF wp_strip_device [OF s1(1,2) E s1(3,4) st]], goal_cases)
    case (1 _ s4)
    then obtain D4 where s4: "safe s1 s4" "devs s4 d = Some D4" "conns_of d s4 = []" "misc s4 = misc s1" "dom (devs s4) = dom (devs s1)"
      by blast
    show ?case
      by (rule wp_mono [OF wp_forget_device [OF safeD(1) [OF s4(1)] col s4(2,3), where s = s]])
        (use s4 cb free D in \<open>auto simp: s1_def\<close>)
  qed
  then show ?thesis
    using D(1) free u by (simp add: device_remove_def wp_rules find s1_def cong: if_cong)
qed

end
