(* ===== verification/Clients_Inv.thy ===== *)
theory Clients_Inv
  imports Lifecycle Tcp_Input Client_Cmd
begin

text \<open>
  The events of the clients and the round of delayed acknowledgements: a new client, its
  replies going out, and acknowledgements that are due keep the invariant.
\<close>

section \<open>Closing a client\<close>

lemma wp_client_close_sound:
  assumes wf: "wf s" and E: "world_ok E" and free: "\<not> client_list_mutex s" and calm: "calm s"
    and cl: "clients s c = Some cl" "cl_state cl \<noteq> CLIENT_CONNECTED"
  shows "wp (client_close E c) (\<lambda>_ s'. sound s s' \<and> clients s' c = None) s"
proof (cases "busy (cl_state cl)")
  case True
  then have st: "cl_state cl = CLIENT_CONNECTING1 \<or> cl_state cl = CLIENT_CONNECTING2"
    using cl(2) by (cases "cl_state cl") auto
  obtain k C where C: "conns s k = Some C" "conn_client C = Some c"
    using tablesD_busy [OF wfD(5) [OF wf] cl(1) True] .
  show ?thesis
    by (rule wp_mono [OF wp_client_close_connecting [OF wf E free C cl(1) st]])
      (use torn_sound [OF wf E calm C(1)] in blast)
next
  case False
  show ?thesis
  proof (rule wp_mono [OF wp_client_close_idle [OF wf free cl(1) False]], goal_cases)
    case (1 _ s')
    then have g: "client_gone E c cl s s'" "conns s' = conns s" "devs s' = devs s" by simp_all
    then have rest: "io_rest (s\<lparr>client_list := client_list s'\<rparr>) s'" unfolding client_gone_def by blast
    from g(1) have "clients s' c = None" by (simp add: client_gone_def)
    moreover have "sound s s'"
      using client_gone_wf [OF wf E cl(1) False g] calm io_restD [OF rest] by (simp add: sound_def safe_def)
    ultimately show ?case by blast
  qed
qed

section \<open>Replies\<close>

text \<open>The client after the bytes were sent; with its last reply out, a connected client changes to passing data.\<close>

definition replied :: "nat \<Rightarrow> 'p mux_client \<Rightarrow> 'p mux_client" where
  "replied n cl =
     (if of_nat n \<noteq> cl_ob_size cl then cl_ob_drop n cl
      else if cl_state cl = CLIENT_CONNECTING2
      then cl\<lparr>cl_ob_size := 0, cl_state := CLIENT_CONNECTED, cl_events := cl_devents cl, cl_ob_buf := None\<rparr>
      else cl\<lparr>cl_ob_size := 0, cl_events := cl_events cl AND NOT POLLOUT\<rparr>)"

lemma length_cl_pending: "cl_ob_ok cl \<Longrightarrow> length (cl_pending cl) = unat (cl_ob_size cl)"
  by (auto simp: cl_ob_ok_def cl_pending_def)

lemma replied_ok:
  assumes cl: "client_ok cl" "cl_state cl \<noteq> CLIENT_CONNECTED" and n: "n \<le> length (cl_pending cl)"
  shows "client_ok (replied n cl)" "cl_pending (replied n cl) = drop n (cl_pending cl)"
    "cl_state (replied n cl) = (if cl_state cl = CLIENT_CONNECTING2 \<and> n = length (cl_pending cl) then CLIENT_CONNECTED else cl_state cl)"
    "cl_connect_device (replied n cl) = cl_connect_device cl" "cl_ob_capacity (replied n cl) = cl_ob_capacity cl"
proof -
  have ok: "cl_ob_ok cl" using cl by (simp add: client_ok_def)
  note len = length_cl_pending [OF ok]
  have all: "of_nat n = cl_ob_size cl \<longleftrightarrow> n = length (cl_pending cl)"
  proof -
    have "n < 2 ^ 32" using n len unat_bound [of "cl_ob_size cl"] by simp
    then have "unat (of_nat n :: u32) = n" by (simp add: unat_of_nat_small)
    then show ?thesis using len by auto
  qed
  note q = client_q.drop_ok [OF ok n] client_q.drop_content [OF ok n]
  have part: "cl_ob_size (cl_ob_drop n cl) \<noteq> 0" if "of_nat n \<noteq> cl_ob_size cl"
    using that by (simp add: cl_ob_drop_def Let_def)
  show "cl_pending (replied n cl) = drop n (cl_pending cl)"
    using q all by (auto simp: replied_def) (simp_all add: cl_pending_def)
  show "cl_state (replied n cl) = (if cl_state cl = CLIENT_CONNECTING2 \<and> n = length (cl_pending cl) then CLIENT_CONNECTED else cl_state cl)"
    using all by (simp add: replied_def)
  show "cl_connect_device (replied n cl) = cl_connect_device cl" "cl_ob_capacity (replied n cl) = cl_ob_capacity cl"
    by (simp_all add: replied_def)
  have none: "cl_ob_size cl \<noteq> 0 \<or> of_nat n = cl_ob_size cl" using n len by auto
  show "client_ok (replied n cl)"
  proof (cases "of_nat n = cl_ob_size cl")
    case True
    have "cl_ob_ok (cl\<lparr>cl_ob_size := 0, cl_events := cl_events cl AND NOT POLLOUT\<rparr>)"
      using ok by (auto simp: cl_ob_ok_def)
    with True cl show ?thesis by (cases "cl_state cl") (simp_all add: replied_def client_ok_def)
  next
    case False
    with cl q(1) part none show ?thesis by (cases "cl_state cl") (simp_all add: replied_def client_ok_def)
  qed
qed

lemma wp_output_buffer_process:
  assumes wf: "wf s" and E: "world_ok E" and free: "\<not> client_list_mutex s" and calm: "calm s"
    and cl: "clients s c = Some cl" "cl_state cl \<noteq> CLIENT_CONNECTED" and some: "cl_pending cl \<noteq> []"
  shows "wp (output_buffer_process E c) (\<lambda>_ s'. sound s s' \<and> (clients s' c = None \<or>
     (\<exists>n. 0 < n \<and> n \<le> length (cl_pending cl) \<and> clients s' = (clients s)(c \<mapsto> replied n cl) \<and> conns s' = conns s \<and> devs s' = devs s \<and>
        trace s' = trace s @ [SockSent (cl_fd cl) (take n (cl_pending cl))]))) s"
proof -
  define Q where "Q = (\<lambda>_ :: unit. \<lambda>s'. sound s s' \<and> (clients s' c = None \<or>
     (\<exists>n. 0 < n \<and> n \<le> length (cl_pending cl) \<and> clients s' = (clients s)(c \<mapsto> replied n cl) \<and> conns s' = conns s \<and> devs s' = devs s \<and>
        trace s' = trace s @ [SockSent (cl_fd cl) (take n (cl_pending cl))])))"
  have ok: "client_ok cl" "cl_ob_ok cl" using wfD(7) [OF wf cl(1)] cl(2) by (simp_all add: client_ok_def)
  then have sz: "cl_ob_size cl \<noteq> 0" "cl_ob_buf cl \<noteq> None"
    using some by (auto simp: cl_pending_def cl_ob_ok_def)
  have close: "wp (client_close E c) Q t" if t: "io_frame s t" for t
  proof -
    have st: "sound s t" by (rule io_frame_sound [OF wf calm t])
    have t': "\<not> client_list_mutex t" "clients t c = Some cl" using soundD [OF st] free io_frameD [OF t] cl by simp_all
    show ?thesis
      by (rule wp_mono [OF wp_client_close_sound [OF soundD(1) [OF st] E t'(1) soundD(2) [OF st] t'(2) cl(2)]])
        (use sound_trans [OF st] in \<open>auto simp: Q_def\<close>)
  qed
  have go: "Q () (s1\<lparr>clients := (clients s)(c \<mapsto> replied n cl)\<rparr>)"
    if n: "n \<noteq> 0" "os_send E (calls s) (cl_fd cl) (cl_pending cl) = Inr n"
      and s1: "s1 = (ticked E s)\<lparr>trace := trace s @ [SockSent (cl_fd cl) (take n (cl_pending cl))]\<rparr>" for n s1
  proof -
    define t where "t = s1\<lparr>clients := (clients s)(c \<mapsto> replied n cl)\<rparr>"
    have n': "n \<le> length (cl_pending cl)" using E n(2) by (auto simp: world_ok_def sockets_ok_def)
    note r = replied_ok [OF ok(1) cl(2) n']
    have rest: "io_rest s t" by (simp add: t_def s1 io_rest_def)
    have wft: "wf t"
      by (rule wf_upd_client [OF wf cl(1) r(1,4)]) (use r(3) rest in \<open>auto simp: t_def s1\<close>)
    have "cl_state cl \<noteq> CLIENT_COMMAND" if "cl_state (replied n cl) \<noteq> CLIENT_COMMAND" using that r(3) by auto
    then have "unat (cl_ob_capacity (replied n cl)) < 2 ^ 31" if "cl_state (replied n cl) \<noteq> CLIENT_COMMAND"
      using that calm cl(1) unfolding calm_def r(5) by blast
    moreover have "clients t c' = (if c' = c then Some (replied n cl) else clients s c')" for c' by (simp add: t_def)
    ultimately have "calm t" using calm unfolding calm_def by (metis option.inject)
    then have "sound s t" using wft rest by (intro sound_io)
    then show ?thesis using n(1) n' by (auto simp: t_def s1 Q_def)
  qed
  have "wp (output_buffer_process E c) Q s"
  proof (cases "os_send E (calls s) (cl_fd cl) (cl_pending cl)")
    case (Inl e)
    then show ?thesis using cl sz close by (simp add: output_buffer_process_def wp_rules)
  next
    case (Inr n)
    have "io_frame s ((ticked E s)\<lparr>trace := trace s @ [SockSent (cl_fd cl) []]\<rparr>)"
      by (simp add: io_frame_def io_rest_def)
    note closed = close [OF this]
    show ?thesis
    proof (cases "n = 0")
      case True
      with cl sz closed Inr show ?thesis by (simp add: output_buffer_process_def wp_rules)
    next
      case False
      note gone = go [OF False Inr refl]
      consider "of_nat n \<noteq> cl_ob_size cl" | "of_nat n = cl_ob_size cl" "cl_state cl = CLIENT_CONNECTING2"
        | "of_nat n = cl_ob_size cl" "cl_state cl \<noteq> CLIENT_CONNECTING2" by blast
      then show ?thesis
        by cases (use False cl sz Inr gone in \<open>simp_all add: output_buffer_process_def wp_rules replied_def\<close>)
    qed
  qed
  then show ?thesis by (simp add: Q_def)
qed

section \<open>A new client\<close>

lemma tables_new_client:
  assumes tab: "tables_ok ct dt lt" and new: "lt c = None" "\<not> busy (cl_state cl)"
  shows "tables_ok ct dt (lt(c \<mapsto> cl))"
proof -
  have "sessions_ok ct dt (lt(c \<mapsto> cl))"
    using tab new(1) unfolding tables_ok_def sessions_ok_def by (metis fun_upd_other option.distinct(1))
  moreover have "busy_ok ct (lt(c \<mapsto> cl))"
    using tab new(2) unfolding tables_ok_def busy_ok_def by auto
  ultimately show ?thesis using tab unfolding tables_ok_def by blast
qed

lemma wp_client_accept:
  assumes wf: "wf s" and col: "collections_ok E" and free: "\<not> client_list_mutex s" and calm: "calm s"
  shows "wp (client_accept E lfd) (\<lambda>r s'. sound s s' \<and> conns s' = conns s \<and> devs s' = devs s \<and>
     (case os_accept E (calls s) lfd of Inl _ \<Rightarrow> r = -1 \<and> clients s' = clients s
      | Inr fd \<Rightarrow> r = fd \<and> clients s' = (clients s)(next_ptr s \<mapsto> new_client fd (client_number s)))) s"
proof (cases "os_accept E (calls s) lfd")
  case (Inl e)
  then show ?thesis using io_frame_sound [OF wf calm, of "ticked E s"] by (simp add: client_accept_def wp_rules)
next
  case (Inr fd)
  define c where "c = next_ptr s"
  define cl :: "'a mux_client" where "cl = new_client fd (client_number s)"
  define t where "t = (ticked E s)\<lparr>next_ptr := Suc c, clients := (clients s)(c \<mapsto> cl), client_list_mutex := False,
     client_number := client_number s + 1, client_list := collection_add E (client_list s) c\<rparr>"
  have fresh: "clients s c = None" using wfD(8) [OF wf, of c] by (simp add: c_def)
  have cl: "client_ok cl" "\<not> busy (cl_state cl)" "cl_state cl = CLIENT_COMMAND"
    by (simp_all add: cl_def new_client_def client_ok_def cl_ob_ok_def)
  have "tables_ok (conns t) (devs t) (clients t)"
    using tables_new_client [OF wfD(5) [OF wf] fresh cl(2)] by (simp add: t_def)
  moreover have "distinct (client_list t)" "set (client_list t) = dom (clients t)"
    using wfD(2,4) [OF wf] fresh col by (auto simp: t_def collection_add_distinct)
  moreover have "client_ok cl'" if "clients t c' = Some cl'" for c' cl'
    using that wfD(7) [OF wf] cl(1) by (auto simp: t_def split: if_splits)
  moreover have "dev_ok t D" if "devs t d = Some D" for d D
    using that wfD(6) [OF wf] by (simp add: t_def dev_ok_def dev_sendable_def)
  moreover have "conns t p = None \<and> devs t p = None \<and> clients t p = None" if "next_ptr t \<le> p" for p
    using that wfD(8) [OF wf, of p] by (simp add: t_def c_def)
  ultimately have "wf t" unfolding wf_def using wfD(1,3) [OF wf] by (simp add: t_def)
  moreover have "calm t" using calm cl(3) by (auto simp: calm_def t_def)
  ultimately have "sound s t" using free by (simp add: sound_def safe_def t_def)
  then show ?thesis
    using Inr free by (simp add: client_accept_def wp_rules t_def c_def cl_def)
qed

section \<open>Delayed acknowledgements\<close>

lemma wp_check_conn:
  assumes s1: "sound s s1" and E: "world_ok E" and free: "\<not> client_list_mutex s" and k: "k \<in> set (conns_of d s1)"
  shows "wp (check_conn E ct k) (\<lambda>_. sound s) s1"
proof -
  from k obtain D ks where "devs s1 d = Some D" "dev_connections D = Some ks" "k \<in> set ks"
    by (rule conns_ofE)
  then obtain C where C: "conns s1 k = Some C"
    using tablesD_dev(2) [OF wfD(5) [OF soundD(1) [OF s1]]] by blast
  have "wp (send_tcp_ack E k) (\<lambda>_. wp skip (\<lambda>_. sound s)) s1"
    by (rule wp_mono [OF wp_send_tcp_ack [OF s1 E C free]]) (simp add: wp_rules)
  then show ?thesis using C s1 by (simp add: check_conn_def wp_rules)
qed

lemma wp_device_check_timeouts:
  assumes wf: "wf s" and E: "world_ok E" and calm: "calm s" and free: "\<not> device_list_mutex s" "\<not> client_list_mutex s"
  shows "wp (device_check_timeouts E) (\<lambda>_. sound s) s"
proof -
  define s1 where "s1 = (ticked E s)\<lparr>device_list_mutex := True\<rparr>"
  have "wf s1" unfolding s1_def by (rule wf_lock_devices) (rule soundD(1) [OF io_frame_sound [OF wf calm]], simp)
  then have s1: "sound s1 s1" using calm by (intro sound_refl) (simp_all add: s1_def calm_def)
  have free1: "\<not> client_list_mutex s1" using free by (simp add: s1_def)
  have body: "wp (do {
       D \<leftarrow> rd_dev d;
       whenM (dev_state D = MUXDEV_ACTIVE) (do {
         ks \<leftarrow> expect Uninitialised [] (dev_connections D);
         foreach_m (conns_of d) (check_conn E ct) ks
       })
     }) (\<lambda>_. sound s1) t" if t: "sound s1 t" "d \<in> set (device_list t)" for d t ct
  proof -
    obtain D where D: "devs t d = Some D" using wfD(3) [OF soundD(1) [OF t(1)]] t(2) by blast
    have "wp (foreach_m (conns_of d) (check_conn E ct) ks) (\<lambda>_. sound s1) t" for ks
      by (rule wp_foreach_m) (use wp_check_conn [OF _ E free1] t in auto)
    then show ?thesis
      using D t wfD(6) [OF soundD(1) [OF t(1)] D] by (auto simp: wp_rules dev_ok_def)
  qed
  have loop: "wp (foreach_m device_list (\<lambda>d. do {
       D \<leftarrow> rd_dev d;
       whenM (dev_state D = MUXDEV_ACTIVE) (do {
         ks \<leftarrow> expect Uninitialised [] (dev_connections D);
         foreach_m (conns_of d) (check_conn E ct) ks
       })
     }) l) (\<lambda>_. sound s1) s1" for l ct
    by (rule wp_foreach_m) (use body s1 in auto)
  have fin: "sound s (t\<lparr>device_list_mutex := False\<rparr>)" if "sound s1 t" for t
    using soundD [OF that] wf_lock_devices free by (simp add: sound_def safe_def s1_def calm_def)
  have "wp (foreach_m device_list (\<lambda>d. do {
       D \<leftarrow> rd_dev d;
       whenM (dev_state D = MUXDEV_ACTIVE) (do {
         ks \<leftarrow> expect Uninitialised [] (dev_connections D);
         foreach_m (conns_of d) (check_conn E ct) ks
       })
     }) l) (\<lambda>_. wp unlock_devices (\<lambda>_. sound s)) s1" for l ct
    by (rule wp_mono [OF loop]) (use fin in \<open>auto simp: wp_rules dest: soundD\<close>)
  then show ?thesis
    using free by (simp add: device_check_timeouts_def wp_rules s1_def)
qed

end
