(* ===== verification/Attach_Inv.thy ===== *)
theory Attach_Inv
  imports Lifecycle
begin

text \<open>
  The version answer of a device: a device with an unknown version is dropped; any other
  becomes active, and is announced to the listeners or handed to a worker.
\<close>

section \<open>Telling the listeners of a new device\<close>

definition attached_plist :: "'p ext \<Rightarrow> device_info \<Rightarrow> string \<Rightarrow> 'p" where
  "attached_plist E dev serial = plist_set_all E (plist_new_dict E)
     [(''MessageType'', plist_new_string E ''Attached''), (''DeviceID'', plist_new_uint E (ucast (di_id dev))),
      (''Properties'', attached_props E dev serial)]"

text \<open>The property list library prints the notice of the device, in at most a page.\<close>

definition attach_ok :: "'p ext \<Rightarrow> device_info \<Rightarrow> bool" where
  "attach_ok E dev \<longleftrightarrow> (\<exists>serial. di_serial dev = Some serial \<and>
     (\<exists>xml. plist_to_xml E (attached_plist E dev serial) = Some xml \<and> length xml \<le> 4096))"

definition attach_notice :: "'p ext \<Rightarrow> device_info \<Rightarrow> 'p mux_client \<Rightarrow> usbmuxd_msgtype \<times> bytes" where
  "attach_notice E dev cl =
     (if cl_proto_version cl = 1 then (MESSAGE_PLIST, the (plist_to_xml E (attached_plist E dev (the (di_serial dev)))))
      else (MESSAGE_DEVICE_ADD, enc_device_record (device_add_record dev (the (di_serial dev)))))"

lemma length_device_add_record: "length (enc_device_record (device_add_record dev serial)) = 268"
  by (simp add: enc_device_record_def device_add_record_def cstr256_def Let_def)

lemma sends_attach_notice:
  fixes E :: "'p ext"
  assumes E: "world_ok E" and dev: "attach_ok E dev"
  shows "sends E (attach_notice E dev) (\<lambda>c. send_device_add E c dev)"
proof -
  obtain serial xml where x: "di_serial dev = Some serial" "plist_to_xml E (attached_plist E dev serial) = Some xml" "length xml \<le> 4096"
    using dev by (auto simp: attach_ok_def)
  have re: "os_realloc E t n" for t n using E by (simp add: world_ok_def replies_ok_def)
  have small: "length (snd (attach_notice E dev cl)) \<le> 4096" for cl
    using x by (simp add: attach_notice_def length_device_add_record)
  have queue: "wp (output_buffer_add_message E c 0 (fst (attach_notice E dev cl)) (snd (attach_notice E dev cl)))
      (\<lambda>_ s'. after_queue E c (queued 0 (fst (attach_notice E dev cl)) (snd (attach_notice E dev cl)) cl) s s') s"
    if "clients s c = Some cl" "ob_calm cl" for s c cl
    by (rule wp_mono [OF wp_output_buffer_add_message [OF that(1) _ _ re]])
      (use that small [of cl] in \<open>auto simp: ob_calm_def ob_small_def\<close>)
  show ?thesis
    unfolding sends_def
  proof (intro conjI allI impI small)
    fix s :: "'p daemon" and c cl
    assume "clients s c = Some cl" "ob_calm cl"
    with queue [OF this] x
    show "wp (send_device_add E c dev) (\<lambda>_ s'. after_queue E c
        (queued 0 (fst (attach_notice E dev cl)) (snd (attach_notice E dev cl)) cl) s s') s"
      by (cases "cl_proto_version cl = 1")
        (auto simp: send_device_add_def create_device_attached_plist_def send_plist_def attach_notice_def attached_plist_def wp_rules)
  qed
qed

lemma wp_device_set_visible:
  assumes wf: "wf s" and free: "\<not> device_list_mutex s" and D: "devs s d = Some D"
  shows "wp (device_set_visible (dev_id D)) Q s = Q () (s\<lparr>devs := (devs s)(d \<mapsto> D\<lparr>dev_visible := True\<rparr>)\<rparr>)"
proof -
  define sl where "sl = s\<lparr>device_list_mutex := True\<rparr>"
  have run: "run_state (do { D' \<leftarrow> rd_dev d'; ret (dev_id D' = dev_id D) }) sl = (dev_id (the (devs s d')) = dev_id D, sl)"
    if "d' \<in> set (device_list s)" for d'
    using that wfD(3) [OF wf] by (auto simp: rd_heap_def sl_def)
  have "find (\<lambda>d'. dev_id (the (devs s d')) = dev_id D) (device_list s) = Some d"
  proof (rule find_unique)
    show "d \<in> set (device_list s)" using D wfD(3) [OF wf] by blast
    show "dev_id (the (devs s d)) = dev_id D" using D by simp
    show "d' = d" if "d' \<in> set (device_list s)" "dev_id (the (devs s d')) = dev_id D" for d'
      using that wfD(3) [OF wf] tablesD_id [OF wfD(5) [OF wf] _ D] by auto
  qed
  moreover have "s\<lparr>device_list_mutex := False\<rparr> = s" using free by simp
  ultimately show ?thesis
    using free D by (simp add: device_set_visible_def wp_rules wp_find_m_pure [OF run, unfolded sl_def])
qed

lemma wp_client_device_add:
  assumes wf: "wf s" and calm: "calm s" and E: "world_ok E" "attach_ok E info"
    and free: "\<not> device_list_mutex s" "\<not> client_list_mutex s" and D: "devs s d = Some D" "di_id info = dev_id D"
  shows "wp (client_device_add E info) (\<lambda>_ s'. safe s s' \<and> conns s' = conns s \<and> devs s' = (devs s)(d \<mapsto> D\<lparr>dev_visible := True\<rparr>) \<and>
     misc s' = misc s \<and> clients s' = (\<lambda>c. map_option (told (attach_notice E info)) (clients s c))) s"
proof -
  define D1 where "D1 = D\<lparr>dev_visible := True\<rparr>"
  define s1 where "s1 = s\<lparr>client_list_mutex := True\<rparr>"
  define s2 where "s2 = s1\<lparr>devs := (devs s)(d \<mapsto> D1)\<rparr>"
  have wf1: "wf s1" by (rule wf_same [OF wf]) (simp_all add: s1_def udev_core_def)
  have D1: "dev_ok s1 D1" "dev_id D1 = dev_id D" "dev_connections D1 = dev_connections D"
    using wfD(6) [OF wf D(1)] by (simp_all add: D1_def dev_ok_def dev_sendable_def s1_def)
  have wf2: "wf s2" by (rule wf_upd_dev [OF wf1 _ D1]) (use D in \<open>simp_all add: s1_def s2_def\<close>)
  have calm2: "calm s2" using calm by (simp add: calm_def s1_def s2_def)
  have "wp (tell_listeners (\<lambda>c. send_device_add E c info)) (\<lambda>_. wp unlock_clients (\<lambda>_ s'. safe s s' \<and> conns s' = conns s \<and>
     devs s' = (devs s)(d \<mapsto> D1) \<and> misc s' = misc s \<and> clients s' = (\<lambda>c. map_option (told (attach_notice E info)) (clients s c)))) s2"
  proof (rule wp_mono [OF wp_tell_listeners [OF wf2 calm2 sends_attach_notice [OF E]]], goal_cases)
    case (1 _ t)
    then have r: "io_rest s2 t" and wft: "wf t" by blast+
    have "wf (t\<lparr>client_list_mutex := False\<rparr>)" by (rule wf_same [OF wft]) (simp_all add: udev_core_def)
    then have "safe s (t\<lparr>client_list_mutex := False\<rparr>)"
      using io_restD [OF r] free by (simp add: safe_def s2_def s1_def)
    with 1 io_restD [OF r] show ?case by (simp add: wp_rules s2_def s1_def)
  qed
  moreover have "\<not> device_list_mutex s1" "devs s1 d = Some D" using free D by (simp_all add: s1_def)
  note vis = wp_device_set_visible [OF wf1 this]
  ultimately show ?thesis
    using free D by (simp add: client_device_add_def wp_rules vis [unfolded s1_def] s1_def s2_def D1_def)
qed

section \<open>The version answer\<close>

lemma wp_version_refused:
  assumes wf: "wf s" and col: "collections_ok E" and free: "\<not> device_list_mutex s"
    and D: "devs s d = Some D" "dev_state D = MUXDEV_INIT" and v: "major \<noteq> 2" "major \<noteq> 1"
  shows "wp (device_version_input E d major) (\<lambda>_ s'. dev_removed d s s') s"
proof -
  have "conns_of d s = []" using wfD(6) [OF wf D(1)] D by (simp add: conns_of_def dev_ok_def)
  then have "conns_of d (s\<lparr>device_list_mutex := True\<rparr>) = []" by (simp add: conns_of_def)
  from wp_forget_device [OF wf_lock_devices [OF wf] col _ this, of D None s]
  show ?thesis
    using D v free wf_lock_devices [OF wf]
    by (simp add: device_version_input_def wp_rules safe_def preflight_device_remove_cb_def)
qed

lemma wf_open_dev:
  assumes wf: "wf s" and D: "devs s d = Some D" "dev_connections D = None"
    and D': "dev_ok s D'" "dev_id D' = dev_id D" "dev_connections D' = Some []"
    and t: "conns t = conns s" "devs t = (devs s)(d \<mapsto> D')" "clients t = clients s" "io_rest s t"
  shows "wf t"
proof -
  note r = io_restD [OF t(4)]
  have "tables_ok (conns s) ((devs s)(d := None)) (clients s)"
    by (rule tables_drop_dev [OF wfD(5) [OF wf] D(1) disjI1 [OF D(2)]])
  moreover have "dev_id D1 \<noteq> dev_id D'" if "((devs s)(d := None)) d1 = Some D1" for d1 D1
    using that D' tablesD_id [OF wfD(5) [OF wf] _ D(1)] by (auto split: if_splits)
  ultimately have "tables_ok (conns s) ((devs s)(d := None, d \<mapsto> D')) (clients s)"
    by (intro tables_new_dev) (use D' in auto)
  then have "tables_ok (conns t) (devs t) (clients t)" using t by simp
  then show ?thesis
    by (rule wf_step [OF wf r(8,11) _ r(1)]) (use wfD [OF wf] t r D D' in \<open>auto split: if_splits\<close>)
qed

text \<open>An active device of the given version, with its sequence numbers set up.\<close>

definition opened :: "u32 \<Rightarrow> mux_device \<Rightarrow> mux_device" where
  "opened major D = (if 2 \<le> major then seq_next (seq_start MUX_PROTO_SETUP (D\<lparr>dev_version := major\<rparr>)) else D\<lparr>dev_version := major\<rparr>)
     \<lparr>dev_state := MUXDEV_ACTIVE, dev_connections := Some []\<rparr>"

lemma opened_simps [simp]:
  "dev_id (opened major D) = dev_id D" "dev_usbdev (opened major D) = dev_usbdev D"
  "dev_state (opened major D) = MUXDEV_ACTIVE" "dev_connections (opened major D) = Some []"
  "dev_version (opened major D) = major" "dev_preflight_cb_data (opened major D) = dev_preflight_cb_data D"
  "dev_pktlen (opened major D) = dev_pktlen D" "dev_pktbuf (opened major D) = dev_pktbuf D"
  by (simp_all add: opened_def seq_start_def seq_next_def)

lemma opened_ok:
  assumes "dev_ok s D"
  shows "dev_ok s (opened major D)"
  using assms
  by (auto simp: dev_ok_def dev_sendable_def) (auto simp: opened_def seq_start_def seq_next_def)

lemma wp_worker_device_add:
  assumes wf: "wf s" and calm: "calm s" and E: "world_ok E" "attach_ok E info"
    and free: "\<not> device_list_mutex s" "\<not> client_list_mutex s" and D: "devs s d = Some D" "di_id info = dev_id D"
  shows "wp (preflight_worker_device_add E info) (\<lambda>_ s'. safe s s' \<and> conns s' = conns s \<and>
     (\<exists>v. devs s' = (devs s)(d \<mapsto> D\<lparr>dev_visible := v\<rparr>))) s" (is "wp _ ?Q s")
proof -
  have add: "wp (client_device_add E info) ?Q t" if t: "io_frame s t" for t
  proof -
    have st: "sound s t" by (rule io_frame_sound [OF wf calm t])
    note sd = soundD [OF st] and f = io_frameD [OF t]
    show ?thesis
      by (rule wp_mono [OF wp_client_device_add [OF sd(1,2) E, where d = d and D = D]])
        (use sd f free D safe_trans [OF sd(6)] in auto)
  qed
  have "wf (s1\<lparr>misc := m\<rparr>)" if "io_frame s s1" for s1 m
    by (rule wf_same [OF soundD(1) [OF io_frame_sound [OF wf calm that]]]) (simp_all add: udev_core_def)
  then have "?Q () ((ticked E s)\<lparr>misc := m\<rparr>)" for m
    using D by (auto simp: safe_def intro!: exI [of _ "dev_visible D"])
  with add show ?thesis by (auto simp: preflight_worker_device_add_def wp_rules)
qed

lemma device_info_of_core:
  assumes "udev_core t = udev_core s" and "udevs s p = Some u"
  obtains u' where "udevs t p = Some u'" "device_info_of D u' = device_info_of D u"
proof -
  obtain xs where "udevs t p = Some (u\<lparr>ud_tx_xfers := xs\<rparr>)"
    using udev_core_SomeD [OF assms] by blast
  with that show ?thesis
    by (simp add: device_info_of_def usb_get_serial_def usb_get_location_def usb_get_pid_def usb_get_speed_def)
qed

lemma wp_version_accepted:
  assumes wf: "wf s" and calm: "calm s" and E: "world_ok E" and free: "\<not> device_list_mutex s" "\<not> client_list_mutex s"
    and D: "devs s d = Some D" "dev_state D = MUXDEV_INIT" and v: "major = 2 \<or> major = 1"
    and u: "udevs s (dev_usbdev D) = Some u" "attach_ok E (device_info_of D u)"
  shows "wp (device_version_input E d major) (\<lambda>_ s'. safe s s' \<and> conns s' = conns s \<and>
     (\<exists>v. devs s' = (devs s)(d \<mapsto> (opened major D)\<lparr>dev_visible := v\<rparr>))) s" (is "wp _ ?Q s")
proof -
  have ok: "dev_ok s D" "dev_connections D = None" using wfD(6) [OF wf D(1)] D(2) by (simp_all add: dev_ok_def)
  define D1 where "D1 = D\<lparr>dev_version := major\<rparr>"
  define D2 where "D2 = (if 2 \<le> major then seq_next (seq_start MUX_PROTO_SETUP D1) else D1)"
  define s1 where "s1 = s\<lparr>devs := (devs s)(d \<mapsto> D1)\<rparr>"
  have D2: "opened major D = D2\<lparr>dev_state := MUXDEV_ACTIVE, dev_connections := Some []\<rparr>" "dev_usbdev D2 = dev_usbdev D"
    by (simp_all add: opened_def D2_def D1_def seq_start_def seq_next_def)
  have rest: "wp (do {
       up_dev d (\<lambda>D. D\<lparr>dev_state := MUXDEV_ACTIVE, dev_connections := Some []\<rparr>);
       D \<leftarrow> rd_dev d;
       u \<leftarrow> rd_udev (dev_usbdev D);
       preflight_worker_device_add E (device_info_of D u)
     }) ?Q t" if t: "io_rest s t" "conns t = conns s" "clients t = clients s" "devs t = (devs s)(d \<mapsto> D2)" for t
  proof -
    define t1 where "t1 = t\<lparr>devs := (devs s)(d \<mapsto> opened major D)\<rparr>"
    have r: "io_rest s t1" using t(1) by (simp add: t1_def io_rest_def udev_core_def)
    have wf1: "wf t1"
      by (rule wf_open_dev [OF wf D(1) ok(2) opened_ok [OF ok(1)]]) (use t r in \<open>simp_all add: t1_def\<close>)
    have calm1: "calm t1" using calm t(3) by (simp add: calm_def t1_def)
    have s1: "sound s t1" by (rule sound_io [OF wf1 calm1 r])
    obtain u' where u': "udevs t1 (dev_usbdev D) = Some u'" "device_info_of (opened major D) u' = device_info_of (opened major D) u"
      by (rule device_info_of_core [OF io_restD(8) [OF r] u(1)])
    have "device_info_of (opened major D) u' = device_info_of D u" using u'(2) by (simp add: device_info_of_def)
    then have info: "attach_ok E (device_info_of (opened major D) u')" using u(2) by simp
    have "wp (preflight_worker_device_add E (device_info_of (opened major D) u')) ?Q t1"
      by (rule wp_mono [OF wp_worker_device_add [OF wf1 calm1 E info, where d = d and D = "opened major D"]])
        (use soundD [OF s1] safe_trans [OF soundD(6) [OF s1]] free t in \<open>auto simp: t1_def device_info_of_def\<close>)
    then show ?thesis using t u'(1) D2 by (simp add: wp_rules t1_def)
  qed
  have "wp (whenM (2 \<le> major) (do { send_packet E d MUX_PROTO_SETUP [] [7]; skip }))
      (\<lambda>_ t. io_rest s t \<and> conns t = conns s \<and> clients t = clients s \<and> devs t = (devs s)(d \<mapsto> D2)) s1"
  proof (cases "2 \<le> major")
    case True
    have s1: "devs s1 d = Some D1" "udevs s1 (dev_usbdev D1) = Some u" by (simp_all add: s1_def D1_def u)
    have "dev_sendable s1 (seq_start MUX_PROTO_SETUP D1)"
      using ok(1) True by (auto simp: dev_ok_def dev_sendable_def D1_def s1_def seq_start_def)
    then have "wp (send_packet E d MUX_PROTO_SETUP [] [7])
        (\<lambda>_ t. io_rest s t \<and> conns t = conns s \<and> clients t = clients s \<and> devs t = (devs s)(d \<mapsto> D2)) s1"
      by (rule wp_mono [OF wp_send_packet [OF s1(1) _ _ _ s1(2)]])
        (use True in \<open>auto simp: s1_def D2_def mux_header_size_def USB_MTU_def io_rest_def udev_core_def\<close>)
    with True show ?thesis by (simp add: wp_rules) (erule wp_mono, simp add: wp_rules)
  next
    case False
    then show ?thesis by (simp add: wp_rules s1_def D2_def io_rest_def udev_core_def)
  qed
  then have "wp (whenM (2 \<le> major) (do { send_packet E d MUX_PROTO_SETUP [] [7]; skip }))
      (\<lambda>_. wp (do {
       up_dev d (\<lambda>D. D\<lparr>dev_state := MUXDEV_ACTIVE, dev_connections := Some []\<rparr>);
       D \<leftarrow> rd_dev d;
       u \<leftarrow> rd_udev (dev_usbdev D);
       preflight_worker_device_add E (device_info_of D u)
     }) ?Q) s1"
    by (rule wp_mono) (use rest in blast)
  then show ?thesis
    using D v unfolding device_version_input_def wp_bind [of "rd_dev d"]
    by (auto simp: wp_bind [of "up_dev d _"] wp_bind [of "whenM _ _"] wp_rules s1_def D1_def)
qed

end
