(* ===== verification/Reach.thy ===== *)
theory Reach
  imports Clients_Inv Attach_Inv
begin

text \<open>
  The daemon as a transition system. One step is one handler that the main loop runs to
  its end, with any answer of the operating system and of the device; a run is any
  sequence of such steps. In every reachable state the invariant holds, no memory error
  has happened, and both lists are unlocked.
\<close>

section \<open>Steps\<close>

text \<open>
  The guards are the conditions under which the main loop calls the handler, and the
  bounds that the safety of the handler rests on: \<open>calm\<close> bounds the reply buffers,
  \<open>takes\<close> the data of a device, \<open>attach_ok\<close> the notice of a new device; a client asks
  only for devices that have answered.
\<close>

inductive mux_step :: "'p ext \<Rightarrow> 'p daemon \<Rightarrow> 'p daemon \<Rightarrow> bool" for E where
  Accept: "calm s \<Longrightarrow> run_state (client_accept E lfd) s = (r, s') \<Longrightarrow> mux_step E s s'"
| Reply: "calm s \<Longrightarrow> clients s c = Some cl \<Longrightarrow> cl_state cl \<noteq> CLIENT_CONNECTED \<Longrightarrow> cl_pending cl \<noteq> [] \<Longrightarrow>
    run_state (output_buffer_process E c) s = (u, s') \<Longrightarrow> mux_step E s s'"
| Hangup: "calm s \<Longrightarrow> clients s c = Some cl \<Longrightarrow> cl_state cl \<noteq> CLIENT_CONNECTED \<Longrightarrow>
    run_state (client_close E c) s = (u, s') \<Longrightarrow> mux_step E s s'"
| Connect: "clients s c = Some cl \<Longrightarrow> cl_state cl = CLIENT_COMMAND \<Longrightarrow> unat (cl_ob_capacity cl) < 2 ^ 31 \<Longrightarrow>
    (\<And>d D. devs s d = Some D \<Longrightarrow> dev_id D = device_id \<Longrightarrow> dev_state D \<noteq> MUXDEV_INIT) \<Longrightarrow>
    run_state (begin_connect E c tag device_id port) s = (r, s') \<Longrightarrow> mux_step E s s'"
| Serve: "calm s \<Longrightarrow> clients s c = Some cl \<Longrightarrow> cl_state cl = CLIENT_CONNECTED \<Longrightarrow>
    run_state (device_client_process E (cl_connect_device cl) c events) s = (u, s') \<Longrightarrow> mux_step E s s'"
| Add: "length (device_list s) < 2 ^ 32 \<Longrightarrow> udevs s p = Some ud \<Longrightarrow> ud_wMaxPacketSize ud \<noteq> 0 \<Longrightarrow>
    run_state (device_add E p) s = (r, s') \<Longrightarrow> mux_step E s s'"
| Version: "calm s \<Longrightarrow> devs s d = Some D \<Longrightarrow> dev_state D = MUXDEV_INIT \<Longrightarrow> udevs s (dev_usbdev D) = Some ud \<Longrightarrow>
    attach_ok E (device_info_of D ud) \<Longrightarrow>
    run_state (device_version_input E d major) s = (u, s') \<Longrightarrow> mux_step E s s'"
| Tcp: "calm s \<Longrightarrow> devs s d = Some D \<Longrightarrow> takes s d th payload \<Longrightarrow>
    run_state (device_tcp_input E d th payload) s = (u, s') \<Longrightarrow> mux_step E s s'"
| Acks: "calm s \<Longrightarrow> run_state (device_check_timeouts E) s = (u, s') \<Longrightarrow> mux_step E s s'"
| Remove: "calm s \<Longrightarrow> settled s \<Longrightarrow> devs s d = Some D \<Longrightarrow> udevs s (dev_usbdev D) = Some ud \<Longrightarrow>
    run_state (device_remove E (dev_usbdev D)) s = (u, s') \<Longrightarrow> mux_step E s s'"

section \<open>The invariant of all reachable states\<close>

definition at_rest :: "'p daemon \<Rightarrow> bool" where
  "at_rest s \<longleftrightarrow> wf s \<and> fault s = None \<and> \<not> device_list_mutex s \<and> \<not> client_list_mutex s"

lemma at_rest_safe:
  assumes "at_rest s" and "wp m (\<lambda>_. safe s) s" and "run_state m s = (x, s')"
  shows "at_rest s'"
  using wp_run [OF assms(2,3)] assms(1) by (simp add: at_rest_def safe_def)

lemma wp_serve_client:
  assumes wf: "wf s" and E: "world_ok E" and calm: "calm s" and free: "\<not> client_list_mutex s" "\<not> device_list_mutex s"
    and cl: "clients s c = Some cl" "cl_state cl = CLIENT_CONNECTED"
  shows "wp (device_client_process E (cl_connect_device cl) c events) (\<lambda>_. safe s) s"
proof -
  obtain k C where C: "conns s k = Some C" "conn_client C = Some c"
    by (rule tablesD_busy [OF wfD(5) [OF wf] cl(1)]) (use cl(2) in simp)
  obtain D where D: "devs s (conn_dev C) = Some D" using session [OF wfD(5) [OF wf] C(1)] by blast
  obtain u where u: "udevs s (dev_usbdev D) = Some u" using wfD(6) [OF wf D] by (auto simp: dev_ok_def dev_sendable_def)
  show ?thesis
    by (rule wp_mono [OF wp_device_client_process [OF wf E calm free C cl(1) D u]]) (auto dest: soundD(6))
qed

lemma wp_version_safe:
  assumes wf: "wf s" and calm: "calm s" and E: "world_ok E" and free: "\<not> device_list_mutex s" "\<not> client_list_mutex s"
    and D: "devs s d = Some D" "dev_state D = MUXDEV_INIT"
    and u: "udevs s (dev_usbdev D) = Some u" "attach_ok E (device_info_of D u)"
  shows "wp (device_version_input E d major) (\<lambda>_. safe s) s"
proof (cases "major = 2 \<or> major = 1")
  case True
  show ?thesis by (rule wp_mono [OF wp_version_accepted [OF wf calm E free D True u]]) blast
next
  case False
  have "collections_ok E" using E by (simp add: world_ok_def)
  then show ?thesis
    using False by (intro wp_mono [OF wp_version_refused [OF wf _ free(1) D]]) (auto simp: dev_removed_def)
qed

lemma at_restD:
  assumes "at_rest s"
  shows "wf s" "fault s = None" "\<not> device_list_mutex s" "\<not> client_list_mutex s"
  using assms by (simp_all add: at_rest_def)

lemma mux_step_at_rest:
  assumes "mux_step E s s'" and E: "world_ok E" "notices_ok E" and s: "at_rest s"
  shows "at_rest s'"
  using assms(1)
proof cases
  note r = at_restD [OF s]
  have col: "collections_ok E" using E by (simp add: world_ok_def)
  {
    case (Accept lfd x)
    then show ?thesis
      by (intro at_rest_safe [OF s _ Accept(2)] wp_mono [OF wp_client_accept [OF r(1) col r(4)]]) (auto dest: soundD(6))
  next
    case (Reply c cl u)
    then show ?thesis
      by (intro at_rest_safe [OF s _ Reply(5)] wp_mono [OF wp_output_buffer_process [OF r(1) E(1) r(4)]]) (auto dest: soundD(6))
  next
    case (Hangup c cl u)
    then show ?thesis
      by (intro at_rest_safe [OF s _ Hangup(4)] wp_mono [OF wp_client_close_sound [OF r(1) E(1) r(4)]]) (auto dest: soundD(6))
  next
    case (Connect c cl device_id tag port x)
    then show ?thesis
      by (intro at_rest_safe [OF s _ Connect(5)] wp_mono [OF wp_begin_connect [OF r(1) E(1) r(3)]]) auto
  next
    case (Serve c cl events u)
    then show ?thesis
      by (intro at_rest_safe [OF s _ Serve(4)] wp_serve_client [OF r(1) E(1) _ r(4,3)])
  next
    case (Add p ud x)
    then show ?thesis
      by (intro at_rest_safe [OF s _ Add(4)] wp_mono [OF wp_device_add [OF r(1) col r(3)]]) auto
  next
    case (Version d D ud major u)
    then show ?thesis
      by (intro at_rest_safe [OF s _ Version(6)] wp_version_safe [OF r(1) _ E(1) r(3,4)])
  next
    case (Tcp d D th payload u)
    then show ?thesis
      by (intro at_rest_safe [OF s _ Tcp(4)] wp_mono [OF wp_device_tcp_input [OF r(1) E(1) _ r(4)]]) auto
  next
    case (Acks u)
    then show ?thesis
      by (intro at_rest_safe [OF s _ Acks(2)] wp_mono [OF wp_device_check_timeouts [OF r(1) E(1) _ r(3,4)]]) (auto dest: soundD(6))
  next
    case (Remove d D ud u)
    then show ?thesis
      by (intro at_rest_safe [OF s _ Remove(5)] wp_mono [OF wp_device_remove [OF r(1) _ E r(3,4)]]) (auto simp: dev_removed_def)
  }
qed

text \<open>The daemon after \<open>client_init\<close> and \<open>device_init\<close>, whatever USB devices are open.\<close>

definition just_started :: "'p daemon \<Rightarrow> bool" where
  "just_started s \<longleftrightarrow> conns s = Map.empty \<and> devs s = Map.empty \<and> clients s = Map.empty \<and> device_list s = [] \<and> client_list s = [] \<and>
     fault s = None \<and> \<not> device_list_mutex s \<and> \<not> client_list_mutex s"

lemma just_started_at_rest: "just_started s \<Longrightarrow> at_rest s"
  by (simp add: just_started_def at_rest_def wf_def tables_ok_def sessions_ok_def conn_lists_ok_def conns_distinct_def
      ids_distinct_def busy_ok_def)

lemma reachable_at_rest:
  assumes "(mux_step E)\<^sup>*\<^sup>* s0 s" and "just_started s0" and "world_ok E" and "notices_ok E"
  shows "at_rest s"
  using assms(1)
proof (induction rule: rtranclp_induct)
  case base
  show ?case by (rule just_started_at_rest [OF assms(2)])
next
  case (step s s')
  then show ?case using mux_step_at_rest assms(3,4) by blast
qed

end
