(* ===== verification/Usb_Inv.thy ===== *)
theory Usb_Inv
  imports Usb Faults
begin

text \<open>
  The table of USB devices: its list and its store agree and no two devices share a bus
  and an address. Adding a device keeps that; taking one away while libusb still works
  on its transfers leaves them with a pointer to freed memory.
\<close>

section \<open>The table\<close>

definition usb_ok :: "'p daemon \<Rightarrow> bool" where
  "usb_ok s \<longleftrightarrow> distinct (usb_device_list s) \<and> set (usb_device_list s) = dom (udevs s) \<and>
     (\<forall>d u. udevs s d = Some u \<longrightarrow> d < next_ptr s) \<and>
     (\<forall>d d' u u'. udevs s d = Some u \<longrightarrow> udevs s d' = Some u' \<longrightarrow>
        ud_bus u = ud_bus u' \<longrightarrow> ud_address u = ud_address u' \<longrightarrow> d = d')"

lemma usb_okD:
  assumes "usb_ok s"
  shows "distinct (usb_device_list s)" "set (usb_device_list s) = dom (udevs s)"
    "udevs s d = Some u \<Longrightarrow> d < next_ptr s"
    "udevs s d = Some u \<Longrightarrow> udevs s d' = Some u' \<Longrightarrow> ud_bus u = ud_bus u' \<Longrightarrow> ud_address u = ud_address u' \<Longrightarrow> d = d'"
  using assms unfolding usb_ok_def by blast+

definition at_address :: "'p daemon \<Rightarrow> u8 \<Rightarrow> u8 \<Rightarrow> ptr \<Rightarrow> bool" where
  "at_address s bus address d \<longleftrightarrow> (\<exists>u. udevs s d = Some u \<and> ud_bus u = bus \<and> ud_address u = address)"

lemma wp_find_device:
  assumes ok: "usb_ok s"
  shows "wp (find_device bus address) (\<lambda>r s'. s' = s \<and>
     (case r of Some d \<Rightarrow> at_address s bus address d | None \<Rightarrow> \<forall>d. \<not> at_address s bus address d)) s"
proof -
  let ?p = "\<lambda>d. ud_bus (the (udevs s d)) = bus \<and> ud_address (the (udevs s d)) = address"
  have live: "\<exists>u. udevs s d = Some u" if "d \<in> set (usb_device_list s)" for d
    using that usb_okD(2) [OF ok] by blast
  have "wp (find_device bus address) Q s = Q (find ?p (usb_device_list s)) s" for Q
    unfolding find_device_def
    by (simp add: wp_rules) (rule wp_find_m_pure, use live in \<open>force simp: rd_heap_def\<close>)
  moreover have "case find ?p (usb_device_list s) of Some d \<Rightarrow> at_address s bus address d | None \<Rightarrow> \<forall>d. \<not> at_address s bus address d"
    using usb_okD(2) [OF ok] live
    by (auto simp: at_address_def find_Some_iff find_None_iff split: option.splits) (metis domI option.sel, metis nth_mem option.sel)
  ultimately show ?thesis by simp
qed

text \<open>What the requests of a device touch: transfers, buffers, contexts, the clock and the trace.\<close>

definition requested :: "'p daemon \<Rightarrow> 'p daemon \<Rightarrow> bool" where
  "requested s s' \<longleftrightarrow> conns s' = conns s \<and> devs s' = devs s \<and> clients s' = clients s \<and> udevs s' = udevs s \<and>
     usb_device_list s' = usb_device_list s \<and> fault s' = fault s \<and> next_ptr s \<le> next_ptr s'"

lemma wp_submit_vendor_specific:
  assumes "contexts s ctx = Some mc"
  shows "wp (submit_vendor_specific E handle ctx cb) (\<lambda>res s'. requested s s') s"
  using assms
  by (simp add: submit_vendor_specific_def fill_control_def submit_control_def submit_in_def wp_rules Let_def requested_def)

lemma usb_ok_alive:
  assumes "usb_ok s" and "udevs s d = Some u"
  shows "usb_ok (s\<lparr>udevs := (udevs s)(d \<mapsto> u\<lparr>ud_alive := b\<rparr>)\<rparr>)"
  using assms usb_okD [OF assms(1)] unfolding usb_ok_def by (auto split: if_splits)

lemma usb_ok_requested: "usb_ok s \<Longrightarrow> requested s s' \<Longrightarrow> usb_ok s'"
  unfolding usb_ok_def requested_def by (auto dest: less_le_trans)

lemma usb_ok_new:
  assumes ok: "usb_ok s" and col: "collections_ok E" and new: "\<And>d. \<not> at_address s (ud_bus u) (ud_address u) d"
    and l: "usb_device_list s' = collection_add E (usb_device_list s) (next_ptr s)"
    and t: "udevs s' = (udevs s)(next_ptr s \<mapsto> u)" and n: "next_ptr s < next_ptr s'"
  shows "usb_ok s'"
proof -
  have fresh: "udevs s (next_ptr s) = None" using usb_okD(3) [OF ok, of "next_ptr s"] by (cases "udevs s (next_ptr s)") auto
  have list: "distinct (usb_device_list s')" "set (usb_device_list s') = dom (udevs s')"
    using usb_okD(1,2) [OF ok] fresh unfolding l t by (auto simp: collection_add_distinct [OF col] collection_add_set [OF col])
  have bound: "d < next_ptr s'" if "udevs s' d = Some v" for d v
    using that usb_okD(3) [OF ok, of d v] n unfolding t by (auto split: if_splits)
  have inj: "d = d'" if "udevs s' d = Some v" "udevs s' d' = Some v'" "ud_bus v = ud_bus v'" "ud_address v = ud_address v'" for d d' v v'
  proof (cases "d = next_ptr s \<or> d' = next_ptr s")
    case True
    then show ?thesis using that new [of d] new [of d'] unfolding t at_address_def by (auto split: if_splits)
  next
    case False
    then show ?thesis using usb_okD(4) [OF ok] that unfolding t by simp
  qed
  show ?thesis unfolding usb_ok_def using list bound inj by blast
qed

lemma wp_usb_device_add:
  assumes ok: "usb_ok s" and col: "collections_ok E"
    and bus: "bus = libusb_get_bus_number (libusb E) dev" and address: "address = libusb_get_device_address (libusb E) dev"
  shows "wp (usb_device_add E dev) (\<lambda>r s'. usb_ok s' \<and> fault s' = fault s \<and>
     ((\<exists>d u. udevs s d = Some u \<and> at_address s bus address d \<and> r = 0 \<and> udevs s' = (udevs s)(d \<mapsto> u\<lparr>ud_alive := True\<rparr>)) \<or>
      (\<forall>d. \<not> at_address s bus address d) \<and> (udevs s' = udevs s \<and> r = -1 \<or>
        (\<exists>dd h. \<not> unsupported dd \<and> udevs s' = (udevs s)(next_ptr s \<mapsto> (new_usb_device bus address dd h)\<lparr>ud_alive := (r = 0)\<rparr>))))) s"
    (is "wp _ ?Q s")
proof -
  note simps = bus [symmetric] address [symmetric]
  have add: "wp (do {
       d \<leftarrow> new_heap udevs_update (new_usb_device bus address dd h);
       modify (\<lambda>s. s\<lparr>usb_device_list := collection_add E (usb_device_list s) d\<rparr>);
       ctx \<leftarrow> new_heap contexts_update (get_mode_context dev bus address);
       res \<leftarrow> submit_vendor_specific E (Some h) ctx GET_MODE_CB;
       if res \<noteq> 0 then do { mark_dead d; ret (-1) } else ret 0
     }) ?Q (ticked E (ticked E s))"
    if none: "\<forall>d. \<not> at_address s bus address d" and dd: "\<not> unsupported dd" for dd h
  proof -
    define u where "u = new_usb_device bus address dd h"
    define s1 where "s1 = (ticked E (ticked E s))\<lparr>udevs := (udevs s)(next_ptr s \<mapsto> u),
      usb_device_list := collection_add E (usb_device_list s) (next_ptr s), next_ptr := Suc (Suc (next_ptr s)),
      contexts := (contexts s)(Suc (next_ptr s) \<mapsto> get_mode_context dev bus address)\<rparr>"
    have u: "ud_bus u = bus" "ud_address u = address" "ud_alive u" by (simp_all add: u_def new_usb_device_def)
    have s1: "usb_ok s1" "fault s1 = fault s" "udevs s1 = (udevs s)(next_ptr s \<mapsto> u)"
      "contexts s1 (Suc (next_ptr s)) = Some (get_mode_context dev bus address)"
      using none u by (auto simp: s1_def intro!: usb_ok_new [OF ok col, where u = u])
    have dead: "usb_ok s2 \<Longrightarrow> requested s1 s2 \<Longrightarrow> wp (mark_dead (next_ptr s)) (\<lambda>_ s'. usb_ok s' \<and> fault s' = fault s \<and>
        udevs s' = (udevs s)(next_ptr s \<mapsto> u\<lparr>ud_alive := False\<rparr>)) s2" for s2
      using s1(2,3) usb_ok_alive [of s2 "next_ptr s" u False] by (simp add: mark_dead_def wp_rules requested_def)
    have alive: "u = u\<lparr>ud_alive := True\<rparr>" using u(3) by simp
    have "wp (submit_vendor_specific E (Some h) (Suc (next_ptr s)) GET_MODE_CB)
        (\<lambda>res. wp (if res \<noteq> 0 then do { mark_dead (next_ptr s); ret (-1) } else ret 0) ?Q) s1"
    proof (rule wp_mono [OF wp_submit_vendor_specific [OF s1(4)]], goal_cases)
      case (1 res s2)
      then have s2: "usb_ok s2" "udevs s2 = (udevs s)(next_ptr s \<mapsto> u)" "fault s2 = fault s"
        using usb_ok_requested [OF s1(1)] s1(2,3) by (simp_all add: requested_def)
      show ?case
      proof (cases "res = 0")
        case True
        have "udevs s2 = (udevs s)(next_ptr s \<mapsto> (new_usb_device bus address dd h)\<lparr>ud_alive := True\<rparr>)"
          using s2(2) alive unfolding u_def by simp
        with True show ?thesis using none dd s2(1,3) by (simp add: wp_rules) blast
      next
        case False
        show ?thesis
          unfolding wp_if wp_bind wp_return using False none dd
          by simp (rule wp_mono [OF dead [OF s2(1) 1]], auto simp: u_def)
      qed
    qed
    then show ?thesis by (simp add: wp_rules u_def [symmetric] s1_def cong: if_cong)
  qed
  show ?thesis
    unfolding usb_device_add_def Let_def simps wp_bind
  proof (rule wp_mono [OF wp_find_device [OF ok]], goal_cases)
    case (1 r s')
    show ?case
    proof (cases r)
      case None
      then have none: "\<forall>d. \<not> at_address s bus address d" and s': "s' = s" using 1 by simp_all
      have ok': "usb_ok (ticked E s)" "usb_ok (ticked E (ticked E s))"
        using usb_ok_requested [OF ok] by (simp_all add: requested_def)
      show ?thesis
        using none ok' add unfolding s' None
        by (simp add: wp_rules del: fun_upd_apply split: sum.splits if_splits)
    next
      case (Some d)
      then obtain u where u: "udevs s d = Some u" "at_address s bus address d" "s' = s" using 1 by (auto simp: at_address_def)
      then show ?thesis using Some usb_ok_alive [OF ok u(1), of True] by (auto simp: wp_rules)
    qed
  qed
qed

section \<open>Disconnecting inside a callback\<close>

lemma wp_cancel_all:
  fixes E :: "'p ext" and s :: "'p daemon"
  assumes "\<And>x. x \<in> set xs \<Longrightarrow> \<exists>xf. xfers s x = Some xf"
  shows "wp (foreach_m col (cancel_transfer E) xs) (\<lambda>_ s'. udevs s' = udevs s \<and> xfers s' = xfers s \<and> mem s' = mem s \<and>
     usb_device_list s' = usb_device_list s \<and> fault s' = fault s) s"
proof (rule wp_foreach_m)
  fix x and s1 :: "'p daemon"
  assume "x \<in> set xs" and s1: "udevs s1 = udevs s \<and> xfers s1 = xfers s \<and> mem s1 = mem s \<and>
     usb_device_list s1 = usb_device_list s \<and> fault s1 = fault s"
  then obtain xf where "xfers s1 x = Some xf" using assms by metis
  with s1 show "wp (cancel_transfer E x) (\<lambda>_ s'. udevs s' = udevs s \<and> xfers s' = xfers s \<and> mem s' = mem s \<and>
     usb_device_list s' = usb_device_list s \<and> fault s' = fault s) s1"
    by (simp add: cancel_transfer_def wp_rules)
qed simp

lemma wp_disconnect_busy:
  assumes u: "udevs s d = Some u" "ud_handle u \<noteq> None" and p: "0 < libusb_patience (libusb E)"
    and x: "\<And>x. x \<in> set (ud_rx_xfers u) \<union> set (ud_tx_xfers u) \<Longrightarrow> \<exists>xf. xfers s x = Some xf"
  shows "wp (usb_disconnect E (busy_events E) d) (\<lambda>_ s'. udevs s' d = None \<and> xfers s' = xfers s \<and> mem s' = mem s \<and> fault s' = fault s) s"
proof -
  obtain n where n: "libusb_patience (libusb E) = Suc n" using p by (cases "libusb_patience (libusb E)") auto
  have wait: "wp (wait_xfers (libusb_patience (libusb E)) (busy_events E) d)
      (\<lambda>_ s'. udevs s' = udevs s \<and> xfers s' = xfers s \<and> mem s' = mem s \<and> fault s' = fault s) s1"
    if "udevs s1 = udevs s \<and> xfers s1 = xfers s \<and> mem s1 = mem s \<and> usb_device_list s1 = usb_device_list s \<and> fault s1 = fault s" for s1
    using that u(1) unfolding n by (subst wait_xfers.simps) (simp add: wp_rules busy_events_def LIBUSB_ERROR_BUSY_def)
  have "wp (foreach_m (rx_of d) (cancel_transfer E) (ud_rx_xfers u)) (\<lambda>_. wp (do {
       foreach_m (tx_of d) (cancel_transfer E) (ud_tx_xfers u);
       wait_xfers (libusb_patience (libusb E)) (busy_events E) d;
       t \<leftarrow> tick E;
       up_udev d (\<lambda>u. u\<lparr>ud_handle := None\<rparr>);
       modify (\<lambda>s. s\<lparr>usb_device_list := collection_remove E (usb_device_list s) d\<rparr>);
       free_heap udevs udevs_update d
     }) (\<lambda>_ s'. udevs s' d = None \<and> xfers s' = xfers s \<and> mem s' = mem s \<and> fault s' = fault s)) s"
  proof (rule wp_mono [OF wp_cancel_all], goal_cases)
    case (2 _ s1)
    have "wp (foreach_m (tx_of d) (cancel_transfer E) (ud_tx_xfers u)) (\<lambda>_. wp (do {
       wait_xfers (libusb_patience (libusb E)) (busy_events E) d;
       t \<leftarrow> tick E;
       up_udev d (\<lambda>u. u\<lparr>ud_handle := None\<rparr>);
       modify (\<lambda>s. s\<lparr>usb_device_list := collection_remove E (usb_device_list s) d\<rparr>);
       free_heap udevs udevs_update d
     }) (\<lambda>_ s'. udevs s' d = None \<and> xfers s' = xfers s \<and> mem s' = mem s \<and> fault s' = fault s)) s1"
    proof (rule wp_mono [OF wp_cancel_all], goal_cases)
      case (2 _ s2)
      then have "udevs s2 = udevs s \<and> xfers s2 = xfers s \<and> mem s2 = mem s \<and> usb_device_list s2 = usb_device_list s \<and> fault s2 = fault s"
        using \<open>udevs s1 = _ \<and> _\<close> by simp
      note wait [OF this]
      then show ?case unfolding wp_bind by (rule wp_mono) (use u(1) in \<open>auto simp: wp_rules\<close>)
    qed (use x 2 in auto)
    then show ?case by (simp add: wp_bind)
  qed (use x in auto)
  with u show ?thesis unfolding usb_disconnect_def by (simp add: wp_rules)
qed

lemma faulted_free_transfer [frame_rules]: "stable (faulted f) (free_transfer x)"
  unfolding free_transfer_def by (intro frame_rules)+

lemma wp_dangling_transfer:
  assumes x: "xfers s x = Some xf" "xf_in_flight xf" "xf_callback xf = TX_CALLBACK" "mem s (xf_buffer xf) = Some buf"
    and d: "udevs s (xf_user_data xf) = None" and ok: "fault s = None"
  shows "wp (transfer_done E x status data) (\<lambda>_. faulted UseAfterFree) s"
proof -
  define s1 where "s1 = s\<lparr>xfers := (xfers s)(x \<mapsto> xf\<lparr>xf_in_flight := False\<rparr>), mem := (mem s)(xf_buffer xf \<mapsto> received xf data buf)\<rparr>"
  have body: "wp (do { u \<leftarrow> rd_udev (xf_user_data xf); m u }) (\<lambda>_. faulted UseAfterFree) s1"
    if "\<And>u. stable (faulted UseAfterFree) (m u)" for m :: "usb_device \<Rightarrow> ('a, unit) mux"
    by (rule wp_rd_freed) (use d ok that in \<open>simp_all add: s1_def\<close>)
  have s1: "xfers s1 x = Some (xf\<lparr>xf_in_flight := False\<rparr>)" by (simp add: s1_def)
  have "wp (tx_callback E x status) (\<lambda>_. faulted UseAfterFree) s1"
    unfolding tx_callback_def Let_def wp_bind wp_rd_heap [of xfers, OF s1]
    by (simp add: wp_bind [symmetric], rule body) (intro frame_rules)+
  then have "wp (tx_callback E x status) (\<lambda>_. wp (whenM (xf_free_transfer xf) (free_transfer x)) (\<lambda>_. faulted UseAfterFree)) s1"
    by (rule wp_mono) (intro wp_faulted frame_rules)
  then show ?thesis
    using x by (simp add: transfer_done_def run_callback_def wp_rules s1_def)
qed

section \<open>Choosing a configuration\<close>

text \<open>
  A device with two configurations: the second has a suitable interface but cannot be
  set, the first has none. The interface of the second is kept and the first is set.
\<close>

lemma wp_detach_drivers: "udevs s = U \<Longrightarrow> wp (detach_drivers E h is) (\<lambda>_ s'. udevs s' = U) s"
  by (induction "is" arbitrary: s) (simp_all add: wp_rules Let_def)

lemma wp_config_refused:
  assumes u: "udevs s d = Some u" and c: "\<And>t. libusb_get_config_descriptor_by_value (libusb E) t dev (Suc j) = Inr c"
    and i: "find_interface (interfaces c) = Some (n, ep_out, ep_in)" and set: "\<And>t. libusb_set_configuration (libusb E) t h (Suc j) \<noteq> 0"
    and U: "U = (udevs s)(d \<mapsto> u\<lparr>ud_interface := n, ud_ep_out := ep_out, ud_ep_in := ep_in\<rparr>)"
    and rest: "\<And>s2. udevs s2 = U \<Longrightarrow> wp (config_loop E dev d h 0 True j) Q s2"
  shows "wp (config_loop E dev d h 0 found (Suc j)) Q s"
proof -
  have "wp (detach_drivers E h (interfaces c)) (\<lambda>_ s2. wp (config_loop E dev d h 0 True j) Q (ticked E s2)) ((ticked E s)\<lparr>udevs := U\<rparr>)"
    by (rule wp_mono [OF wp_detach_drivers]) (simp, rule rest, simp)
  then show ?thesis using u c i set U by (simp add: wp_rules) (erule wp_mono, simp add: wp_rules)
qed

lemma wp_stale_interface:
  assumes u: "udevs s d = Some u" "bNumConfigurations (ud_devdesc u) = 2"
    and cur: "\<And>t. libusb_get_configuration (libusb E) t h = Inr 0"
    and c: "\<And>t. libusb_get_config_descriptor_by_value (libusb E) t dev 2 = Inr c2"
      "\<And>t. libusb_get_config_descriptor_by_value (libusb E) t dev 1 = Inr c1"
    and i: "find_interface (interfaces c2) = Some (n, ep_out, ep_in)" "find_interface (interfaces c1) = None"
    and set: "\<And>t. libusb_set_configuration (libusb E) t h 2 \<noteq> 0" "\<And>t. libusb_set_configuration (libusb E) t h 1 = 0"
  shows "wp (set_valid_configuration E dev d h) (\<lambda>r s'. r = 0 \<and>
     udevs s' d = Some (u\<lparr>ud_interface := n, ud_ep_out := ep_out, ud_ep_in := ep_in\<rparr>)) s"
proof -
  define U where "U = (udevs s)(d \<mapsto> u\<lparr>ud_interface := n, ud_ep_out := ep_out, ud_ep_in := ep_in\<rparr>)"
  let ?Q = "\<lambda>r s'. r \<and> udevs s' d = Some (u\<lparr>ud_interface := n, ud_ep_out := ep_out, ud_ep_in := ep_in\<rparr>)"
  have one: "wp (config_loop E dev d h 0 True (Suc 0)) ?Q s1" if "udevs s1 = U" for s1
    using that c(2) i(2) set(2)
    by (simp add: wp_rules) (rule wp_mono [OF wp_detach_drivers], simp, simp add: wp_rules U_def)
  have two: "wp (config_loop E dev d h 0 False 2) ?Q (ticked E s)"
    unfolding numeral_2_eq_2
    by (rule wp_config_refused [where j = "Suc 0", OF _ _ i(1) _ _ one])
      (use u(1) c(1) set(1) in \<open>simp_all add: numeral_2_eq_2 U_def\<close>)
  show ?thesis
    unfolding set_valid_configuration_def
    using u cur two by (simp add: wp_rules) (erule wp_mono, simp add: wp_rules)
qed

end
