(* ===== verification/Usb_Props.thy ===== *)
theory Usb_Props
  imports Usb_Inv Sample_Inv
begin

text \<open>
  What the USB layer promises, and three defects of it.
\<close>

text \<open>
  C18. At most one struct stands for a bus and address: a device that is found again is kept
  alive, an unsupported one or one that cannot be opened is not added, and any other gets
  a fresh struct; if the first request to it fails, the struct is marked for removal.
\<close>

theorem usb_device_add_unique:
  assumes "usb_ok s" and "collections_ok E"
    and "bus = libusb_get_bus_number (libusb E) dev" and "address = libusb_get_device_address (libusb E) dev"
  shows "wp (usb_device_add E dev) (\<lambda>r s'. usb_ok s' \<and> fault s' = fault s \<and>
     ((\<exists>d u. udevs s d = Some u \<and> at_address s bus address d \<and> r = 0 \<and> udevs s' = (udevs s)(d \<mapsto> u\<lparr>ud_alive := True\<rparr>)) \<or>
      (\<forall>d. \<not> at_address s bus address d) \<and> (udevs s' = udevs s \<and> r = -1 \<or>
        (\<exists>dd h. \<not> unsupported dd \<and> udevs s' = (udevs s)(next_ptr s \<mapsto> (new_usb_device bus address dd h)\<lparr>ud_alive := (r = 0)\<rparr>))))) s"
  by (rule wp_usb_device_add [OF assms])

theorem usb_device_add_unique_witness:
  "wp (usb_device_add ext0 7) (\<lambda>r s'. usb_ok s' \<and> fault s' = fault state0 \<and>
     ((\<exists>d u. udevs state0 d = Some u \<and> at_address state0 1 7 d \<and> r = 0 \<and> udevs s' = (udevs state0)(d \<mapsto> u\<lparr>ud_alive := True\<rparr>)) \<or>
      (\<forall>d. \<not> at_address state0 1 7 d) \<and> (udevs s' = udevs state0 \<and> r = -1 \<or>
        (\<exists>dd h. \<not> unsupported dd \<and> udevs s' = (udevs state0)(next_ptr state0 \<mapsto> (new_usb_device 1 7 dd h)\<lparr>ud_alive := (r = 0)\<rparr>))))) state0"
proof -
  have "usb_ok state0" by (auto simp: usb_ok_def state0_def split: if_splits)
  then show ?thesis
    by (rule usb_device_add_unique [OF _ ext0_ok(1)]) (simp_all add: ext0_def libusb0_def)
qed



text \<open>
  C32. Whatever the descriptor holds, decoding the serial number reads only bytes of the
  transfer, and the result with its hyphen and the final NUL fits in the 256 bytes of the
  struct.
\<close>

theorem serial_fits:
  assumes "256 \<le> length data"
  shows "\<exists>t. serial_chars data (unat (data ! 0)) 0 2 = Some t \<and> length (hyphenate t) < 256"
proof -
  have "unat (data ! 0) < length data" using unsigned_less [of "data ! 0", where 'a = nat] assms by simp
  then obtain t where t: "serial_chars data (unat (data ! 0)) 0 2 = Some t" using serial_chars_Some by blast
  then have "length t \<le> 255" using serial_chars_length [OF t] by simp
  then have "length (hyphenate t) < 256" by (auto simp: hyphenate_def)
  with t show ?thesis by blast
qed

theorem serial_fits_witness:
  "\<exists>t. serial_chars (replicate 256 65) (unat (replicate 256 (65 :: u8) ! 0)) 0 2 = Some t \<and> length (hyphenate t) < 256"
  by (rule serial_fits) simp

text \<open>
  C39. When a configuration with a suitable interface cannot be set and the next one, which
  has none, can, the interface and the endpoints of the first are kept and the call
  reports success.
\<close>

theorem stale_interface_kept:
  assumes "udevs s d = Some u" and "bNumConfigurations (ud_devdesc u) = 2"
    and "\<And>t. libusb_get_configuration (libusb E) t h = Inr 0"
    and "\<And>t. libusb_get_config_descriptor_by_value (libusb E) t dev 2 = Inr c2"
      "\<And>t. libusb_get_config_descriptor_by_value (libusb E) t dev 1 = Inr c1"
    and "find_interface (interfaces c2) = Some (n, ep_out, ep_in)" "find_interface (interfaces c1) = None"
    and "\<And>t. libusb_set_configuration (libusb E) t h 2 \<noteq> 0" "\<And>t. libusb_set_configuration (libusb E) t h 1 = 0"
  shows "wp (set_valid_configuration E dev d h) (\<lambda>r s'. r = 0 \<and>
     udevs s' d = Some (u\<lparr>ud_interface := n, ud_ep_out := ep_out, ud_ep_in := ep_in\<rparr>)) s"
  by (rule wp_stale_interface [OF assms])

definition mux_interface :: usb_interface where
  "mux_interface = \<lparr>bInterfaceNumber = 1, bInterfaceClass = 255, bInterfaceSubClass = 254, bInterfaceProtocol = 2, endpoints = [4, 0x85]\<rparr>"

definition ext_two :: "bytes ext" where
  "ext_two = ext0\<lparr>libusb := libusb0\<lparr>libusb_get_config_descriptor_by_value :=
       \<lambda>_ _ j. Inr \<lparr>bConfigurationValue = of_nat j, interfaces = if j = 2 then [mux_interface] else []\<rparr>,
     libusb_set_configuration := \<lambda>_ _ j. if j = 2 then -1 else 0\<rparr>\<rparr>"

definition udev2 :: usb_device where
  "udev2 = udev1\<lparr>ud_devdesc := devdesc1\<lparr>bNumConfigurations := 2\<rparr>\<rparr>"

theorem stale_interface_kept_witness:
  "wp (set_valid_configuration ext_two 7 1 1) (\<lambda>r s'. r = 0 \<and>
     udevs s' 1 = Some (udev2\<lparr>ud_interface := 1, ud_ep_out := 4, ud_ep_in := 0x85\<rparr>)) (state0\<lparr>udevs := [1 \<mapsto> udev2]\<rparr>)"
  by (rule stale_interface_kept [where ?c2.0 = "\<lparr>bConfigurationValue = of_nat 2, interfaces = [mux_interface]\<rparr>"
        and ?c1.0 = "\<lparr>bConfigurationValue = of_nat 1, interfaces = []\<rparr>"])
    (simp_all add: udev2_def ext_two_def ext0_def libusb0_def mux_interface_def looks_usbmux_def is_usbmux_def is_valeria_def
      interface_ids ep_is_out_def ep_is_in_def)

text \<open>
  C40. An interface for screen capture is taken for the multiplexer, although it is not one,
  when its endpoints have the expected directions: one of the tests is a disjunction.
\<close>

theorem foreign_interface_chosen:
  assumes "is_valeria i" and "endpoint_pair (endpoints i) = Some (ep_out, ep_in)"
  shows "\<not> is_usbmux i \<and> find_interface (i # is) = Some (bInterfaceNumber i, ep_out, ep_in)"
  using assms by (simp add: is_valeria_def is_usbmux_def looks_usbmux_def interface_ids)

definition valeria1 :: usb_interface where
  "valeria1 = \<lparr>bInterfaceNumber = 2, bInterfaceClass = 255, bInterfaceSubClass = 42, bInterfaceProtocol = 255, endpoints = [4, 0x86]\<rparr>"

theorem foreign_interface_chosen_witness:
  "\<not> is_usbmux valeria1 \<and> find_interface (valeria1 # []) = Some (bInterfaceNumber valeria1, 4, 0x86)"
  by (rule foreign_interface_chosen) (simp_all add: valeria1_def is_valeria_def interface_ids ep_is_out_def ep_is_in_def)





end
