(* ===== verification/Conf_Inv.thy ===== *)
theory Conf_Inv
  imports Conf Preflight
begin

text \<open>
  Facts about \<^verbatim>\<open>conf.c\<close> and the worker of \<^verbatim>\<open>preflight.c\<close>, which reads and removes pairing
  records.
\<close>

section \<open>Rules for the file system\<close>

abbreviation files :: "'p daemon \<Rightarrow> fsys" where
  "files s \<equiv> fsys (misc s)"

lemma wp_gets_fs [wp_rules]: "wp (gets_fs f) Q s = Q (f (files s)) s"
  by (simp add: gets_fs_def wp_rules)

lemma wp_mod_fs [wp_rules]: "wp (mod_fs f) Q s = Q () (s\<lparr>misc := (misc s)\<lparr>fsys := f (files s)\<rparr>\<rparr>)"
  by (simp add: mod_fs_def wp_rules)

text \<open>A daemon whose configuration directory is known and there.\<close>

definition configured :: "string \<Rightarrow> 'p daemon \<Rightarrow> bool" where
  "configured dir s \<longleftrightarrow> fs_config_dir (files s) = Some dir \<and> dir \<in> fs_dirs (files s)"

lemma wp_config_dir: "fs_config_dir (files s) = Some dir \<Longrightarrow> wp (config_get_config_dir E) Q s = Q dir s"
  by (simp add: config_get_config_dir_def wp_rules)

lemma wp_create_dir: "configured dir s \<Longrightarrow> wp (config_create_config_dir E) Q s = Q 0 s"
  by (simp add: config_create_config_dir_def configured_def wp_rules wp_config_dir fs_exists_def)

definition record_file :: "'p ext \<Rightarrow> string \<Rightarrow> string \<Rightarrow> string" where
  "record_file E dir udid = string_concat E [dir, ''/'', udid, ''.plist'']"

lemma wp_record_path: "fs_config_dir (files s) = Some dir \<Longrightarrow> wp (record_path E udid) Q s = Q (record_file E dir udid) s"
  by (simp add: record_path_def record_file_def wp_rules wp_config_dir)

lemma wp_fs_remove:
  "wp (fs_remove E path) Q s =
     (if fs_files (files s) path = None then Q ENOENT s
      else if os_denied E path then Q EACCES s
      else Q 0 (s\<lparr>misc := (misc s)\<lparr>fsys := (files s)\<lparr>fs_files := (fs_files (files s))(path := None)\<rparr>\<rparr>\<rparr>))"
  by (simp add: fs_remove_def wp_rules ENOENT_def EACCES_def)

lemma wp_fs_write:
  "wp (fs_write E path content) Q s =
     (if path \<notin> fs_dirs (files s) \<and> dirname path \<in> fs_dirs (files s) \<and> \<not> os_denied E path
      then Q True (s\<lparr>misc := (misc s)\<lparr>fsys := (files s)\<lparr>fs_files := (fs_files (files s))(path \<mapsto> content)\<rparr>\<rparr>\<rparr>)
      else Q False s)" (is "_ = (if ?b then _ else _)")
proof -
  have "run_state (gets_fs (\<lambda>f. path \<notin> fs_dirs f \<and> dirname path \<in> fs_dirs f \<and> \<not> os_denied E path)) s = (?b, s)"
    by (simp add: gets_fs_def)
  then show ?thesis
    by (cases ?b) (simp_all only: fs_write_def wp_def State_Monad.run_state_bind split, simp_all add: mod_fs_def)
qed

section \<open>Pairing records\<close>

text \<open>
  Storing a record: it succeeds and the file holds the record, or no file but that of the
  record is different.
\<close>

lemma wp_config_set_device_record:
  assumes dir: "configured dir s"
  shows "wp (config_set_device_record E udid data) (\<lambda>r s'. configured dir s' \<and>
     (r = 0 \<longrightarrow> udid_valid udid \<and> (\<exists>p xml. plist_from_memory E data = Some p \<and> plist_to_xml E p = Some xml \<and>
        fs_files (files s') (record_file E dir udid) = Some xml)) \<and>
     (\<forall>path. path \<noteq> record_file E dir udid \<or> \<not> udid_valid udid \<longrightarrow> fs_files (files s') path = fs_files (files s) path)) s"
proof -
  have d: "fs_config_dir (files s) = Some dir" using dir by (simp add: configured_def)
  show ?thesis
    using dir
    by (auto simp: config_set_device_record_def plist_write_to_file_def wp_rules wp_create_dir [OF dir] wp_record_path [OF d]
        wp_fs_remove wp_fs_write configured_def EINVAL_def ENOENT_def split: option.splits)
qed

lemma wp_config_get_device_record:
  assumes dir: "configured dir s"
  shows "wp (config_get_device_record E udid) Q s =
     Q (let d = Option.bind (fs_files (files s) (record_file E dir udid)) (buffer_read E) in (if d = None then - ENOENT else 0, d)) s"
proof -
  have d: "fs_config_dir (files s) = Some dir" using dir by (simp add: configured_def)
  show ?thesis
    by (simp add: config_get_device_record_def wp_rules wp_create_dir [OF dir] wp_record_path [OF d] Let_def)
qed

lemma wp_config_remove_device_record:
  assumes d: "fs_config_dir (files s) = Some dir"
  shows "wp (config_remove_device_record E udid) Q s =
     (let path = record_file E dir udid in
      if fs_files (files s) path = None then Q (- ENOENT) s
      else if os_denied E path then Q (- EACCES) s
      else Q 0 (s\<lparr>misc := (misc s)\<lparr>fsys := (files s)\<lparr>fs_files := (fs_files (files s))(path := None)\<rparr>\<rparr>\<rparr>))"
  by (simp add: config_remove_device_record_def wp_rules wp_record_path [OF d] wp_fs_remove Let_def)

section \<open>The system BUID\<close>

lemma wp_uuid_from:
  "wp (uuid_from E is) (\<lambda>u s'. fsys (misc s') = F \<and> length u = length is \<and>
     (\<forall>j < length is. if is ! j \<in> {8, 13, 18, 23} then u ! j = CHR ''-'' else u ! j \<in> set uuid_chars)) s"
  if "fsys (misc s) = F"
  using that
proof (induction "is" arbitrary: s)
  case Nil
  then show ?case by (simp add: wp_rules)
next
  case (Cons i "is")
  have chars: "uuid_chars ! (n mod 16) \<in> set uuid_chars" for n
    by (rule nth_mem) (simp add: uuid_chars_def)
  have step: "wp (uuid_from E is) (\<lambda>cs s'. fsys (misc s') = F \<and> length (c # cs) = length (i # is) \<and>
     (\<forall>j < length (i # is). if (i # is) ! j \<in> {8, 13, 18, 23} then (c # cs) ! j = CHR ''-'' else (c # cs) ! j \<in> set uuid_chars)) s1"
    if "if i \<in> {8, 13, 18, 23} then c = CHR ''-'' else c \<in> set uuid_chars" and "fsys (misc s1) = F" for c s1
    by (rule wp_mono [OF Cons.IH [OF that(2)]]) (use that(1) in \<open>auto simp: nth_Cons' split: if_splits\<close>)
  show ?case
    using step [of "CHR ''-''" s] step [of "uuid_chars ! (os_rand E (calls s) mod 16)" "ticked E s"] chars Cons.prems
    by (auto simp: wp_rules elim!: wp_mono)
qed

text \<open>
  What the code relies on in libplist: a dictionary returns what was set, a string node
  its string, and a list that was printed is read back.
\<close>

definition plists_ok :: "'p ext \<Rightarrow> bool" where
  "plists_ok E \<longleftrightarrow>
     (\<forall>d k v. plist_dict_get_item E (plist_dict_set_item E d k v) k = Some v) \<and>
     (\<forall>str. plist_get_node_type E (plist_new_string E str) = PLIST_STRING \<and> plist_get_string_val E (plist_new_string E str) = Some str) \<and>
     (\<forall>p. \<exists>xml. plist_to_xml E p = Some xml \<and> plist_from_memory E xml = Some p)"

definition config_file :: "'p ext \<Rightarrow> string \<Rightarrow> string" where
  "config_file E dir = string_concat E [dir, ''/'', CONFIG_FILE]"

definition config_plist :: "'p ext \<Rightarrow> string \<Rightarrow> 'p daemon \<Rightarrow> 'p option" where
  "config_plist E dir s = Option.bind (fs_files (files s) (config_file E dir)) (plist_from_memory E)"

definition buid_in :: "'p ext \<Rightarrow> string \<Rightarrow> 'p daemon \<Rightarrow> string option" where
  "buid_in E dir s = string_value E (case config_plist E dir s of None \<Rightarrow> None | Some p \<Rightarrow> plist_dict_get_item E p ''SystemBUID'')"

lemma wp_config_path: "fs_config_dir (files s) = Some dir \<Longrightarrow> wp (config_path E CONFIG_FILE) Q s = Q (config_file E dir) s"
  by (simp add: config_path_def config_file_def wp_rules wp_config_dir)

lemma wp_read_config: "wp (plist_read_from_file E (config_file E dir)) Q s = Q (config_plist E dir s) s"
  by (simp add: plist_read_from_file_def config_plist_def wp_rules)

text \<open>Storing a value writes the file, unless the directory does not allow it.\<close>

definition writable :: "'p ext \<Rightarrow> string \<Rightarrow> 'p daemon \<Rightarrow> bool" where
  "writable E path s \<longleftrightarrow> path \<notin> fs_dirs (files s) \<and> dirname path \<in> fs_dirs (files s) \<and> \<not> os_denied E path"

lemma wp_write_buid:
  assumes dir: "configured dir s" and w: "writable E (config_file E dir) s" and pl: "plists_ok E"
  shows "wp (plist_write_to_file E (plist_dict_set_item E c ''SystemBUID'' (plist_new_string E buid)) (config_file E dir))
     (\<lambda>_ s'. configured dir s' \<and> buid_in E dir s' = Some buid) s"
proof -
  let ?p = "plist_dict_set_item E c ''SystemBUID'' (plist_new_string E buid)"
  have get: "plist_dict_get_item E ?p ''SystemBUID'' = Some (plist_new_string E buid)"
    "string_value E (Some (plist_new_string E buid)) = Some buid"
    using pl by (simp_all add: plists_ok_def string_value_def)
  obtain xml where xml: "plist_to_xml E ?p = Some xml" "plist_from_memory E xml = Some ?p"
    using pl unfolding plists_ok_def by blast
  define s' where "s' = s\<lparr>misc := (misc s)\<lparr>fsys := (files s)\<lparr>fs_files := (fs_files (files s))(config_file E dir \<mapsto> xml)\<rparr>\<rparr>\<rparr>"
  have "configured dir s'" using dir by (simp add: configured_def s'_def)
  moreover have "config_plist E dir s' = Some ?p" using xml(2) by (simp add: config_plist_def s'_def)
  then have "buid_in E dir s' = Some buid" by (simp add: buid_in_def get)
  moreover have "wp (plist_write_to_file E ?p (config_file E dir)) (\<lambda>_ t. t = s') s"
    using w xml(1) by (simp add: plist_write_to_file_def wp_fs_write writable_def s'_def)
  ultimately show ?thesis by (auto elim: wp_mono)
qed

lemma wp_set_buid:
  assumes dir: "configured dir s" and w: "writable E (config_file E dir) s" and pl: "plists_ok E"
  shows "wp (config_set_value E ''SystemBUID'' (plist_new_string E buid)) (\<lambda>_ s'. configured dir s' \<and> buid_in E dir s' = Some buid) s"
proof -
  let ?Q = "\<lambda>s'. configured dir s' \<and> buid_in E dir s' = Some buid"
  have d: "fs_config_dir (files s) = Some dir" using dir by (simp add: configured_def)
  note put = wp_write_buid [OF _ _ pl]
  have removed: "wp (fs_remove E (config_file E dir)) (\<lambda>_ s1. configured dir s1 \<and> writable E (config_file E dir) s1) s"
    using dir w by (auto simp: wp_fs_remove configured_def writable_def)
  have "wp (internal_set_value E (config_file E dir) ''SystemBUID'' (plist_new_string E buid)) (\<lambda>_. ?Q) s"
  proof (cases "config_plist E dir s")
    case None
    then show ?thesis using put [OF dir w] by (simp add: internal_set_value_def wp_rules wp_read_config)
  next
    case (Some c)
    let ?c = "if plist_dict_get_item E c ''SystemBUID'' \<noteq> None then plist_dict_remove_item E c ''SystemBUID'' else c"
    have "wp (fs_remove E (config_file E dir)) (\<lambda>_. wp (plist_write_to_file E
        (plist_dict_set_item E ?c ''SystemBUID'' (plist_new_string E buid)) (config_file E dir)) (\<lambda>_. ?Q)) s"
      by (rule wp_mono [OF removed]) (use put in blast)
    then show ?thesis
      using Some by (simp add: internal_set_value_def wp_rules wp_read_config Let_def wp_eta del: not_None_eq)
  qed
  then show ?thesis
    unfolding config_set_value_def
    by (simp add: wp_rules wp_create_dir [OF dir] wp_config_path [OF d]) (erule wp_mono, simp add: wp_rules)
qed

lemma wp_buid_known:
  assumes "configured dir s" and "buid_in E dir s = Some b"
  shows "wp (config_get_system_buid E) Q s = Q b s"
proof -
  have d: "fs_config_dir (files s) = Some dir" using assms(1) by (simp add: configured_def)
  show ?thesis
    using assms(2) unfolding config_get_system_buid_def
    by (simp add: wp_rules wp_config_path [OF d] internal_get_value_def wp_read_config buid_in_def)
qed

lemma wp_config_get_system_buid:
  assumes dir: "configured dir s" and w: "writable E (config_file E dir) s" and pl: "plists_ok E"
  shows "wp (config_get_system_buid E) (\<lambda>buid s'. configured dir s' \<and> buid_in E dir s' = Some buid \<and>
     (\<forall>b. buid_in E dir s = Some b \<longrightarrow> buid = b \<and> s' = s)) s"
    (is "wp _ ?Q s")
proof -
  have d: "fs_config_dir (files s) = Some dir" using dir by (simp add: configured_def)
  have start: "wp (config_get_system_buid E) ?Q s = (case buid_in E dir s of
       Some buid \<Rightarrow> ?Q buid s
     | None \<Rightarrow> wp (config_generate_uuid E) (\<lambda>buid. wp (config_set_value E ''SystemBUID'' (plist_new_string E buid)) (\<lambda>_. ?Q buid)) s)"
    unfolding config_get_system_buid_def
    by (simp add: wp_rules wp_config_path [OF d] internal_get_value_def wp_read_config buid_in_def wp_eta split: option.splits)
  show ?thesis
  proof (cases "buid_in E dir s")
    case None
    have "wp (config_generate_uuid E) (\<lambda>_ s1. files s1 = files s) s"
      unfolding config_generate_uuid_def by (rule wp_mono [OF wp_uuid_from [OF refl]]) simp
    then have "wp (config_generate_uuid E) (\<lambda>buid. wp (config_set_value E ''SystemBUID'' (plist_new_string E buid)) (\<lambda>_. ?Q buid)) s"
    proof (rule wp_mono, goal_cases)
      case (1 buid s1)
      then have "configured dir s1" "writable E (config_file E dir) s1"
        using dir w by (simp_all add: configured_def writable_def)
      from wp_set_buid [OF this pl, of buid] show ?case by (rule wp_mono) (use None in simp)
    qed
    then show ?thesis using None start by simp
  next
    case (Some b)
    then show ?thesis unfolding start using dir by simp
  qed
qed

section \<open>The worker tries at most twice\<close>

lemma run_bind_cong:
  "wp m (\<lambda>a s'. run_state (f a) s' = run_state (g a) s') s \<Longrightarrow>
   run_state (State_Monad.bind m f) s = run_state (State_Monad.bind m g) s"
  by (simp add: wp_def split_beta)

text \<open>There is no record of the device, and the directory is known.\<close>

definition no_record :: "'p ext \<Rightarrow> string \<Rightarrow> 'p daemon \<Rightarrow> bool" where
  "no_record E udid s \<longleftrightarrow> (\<exists>dir. fs_config_dir (files s) = Some dir \<and> fs_files (files s) (record_file E dir udid) = None)"

lemma no_record_ticked [simp]: "no_record E udid (ticked E s) = no_record E udid s"
  by (simp add: no_record_def)

lemma no_record_faulted [simp]: "no_record E udid (set_fault f s) = no_record E udid s"
  by (simp add: no_record_def)

lemma wp_mkdir_loop: "no_record E udid s \<Longrightarrow> wp (mkdir_loop n E dir) (\<lambda>_. no_record E udid) s"
proof (induction n arbitrary: s dir)
  case 0
  then show ?case by (simp add: wp_rules)
next
  case (Suc n)
  have "no_record E udid (s\<lparr>misc := (misc s)\<lparr>fsys := (files s)\<lparr>fs_dirs := x\<rparr>\<rparr>\<rparr>)" for x
    using Suc.prems by (simp add: no_record_def)
  then show ?case using Suc by (simp add: wp_rules fs_mkdir_def)
qed

lemma wp_has_no_record:
  assumes "no_record E udid s"
  shows "wp (config_has_device_record E (Some udid)) (\<lambda>_. no_record E udid) s"
proof -
  obtain dir where d: "fs_config_dir (files s) = Some dir" using assms by (auto simp: no_record_def)
  have create: "wp (config_create_config_dir E) (\<lambda>_. no_record E udid) s"
    using assms wp_mkdir_loop [OF assms]
    by (auto simp: config_create_config_dir_def mkdir_with_parents_def wp_rules wp_config_dir [OF d] simp del: mkdir_loop.simps)
  have rest: "wp (record_path E udid) (\<lambda>_. no_record E udid) s1" if "no_record E udid s1" for s1
    using that wp_record_path [of s1 _ E udid] by (auto simp: no_record_def)
  show ?thesis
    unfolding config_has_device_record_def option.case wp_bind
  proof (rule wp_mono [OF create], goal_cases)
    case (1 r s1)
    show ?case
    proof (cases "r < 0")
      case False
      then show ?thesis unfolding wp_if wp_bind by simp (rule wp_mono [OF rest [OF 1]], simp add: wp_rules)
    qed (use 1 in \<open>simp add: wp_rules\<close>)
  qed
qed

lemma wp_host_id_no_record:
  assumes "no_record E udid s"
  shows "wp (config_device_record_get_host_id E udid) (\<lambda>_. no_record E udid) s"
  using assms wp_record_path [of s _ E udid]
  by (auto simp: config_device_record_get_host_id_def internal_get_value_def plist_read_from_file_def wp_rules no_record_def)

lemma wp_remove_no_record:
  assumes "no_record E udid s"
  shows "wp (config_remove_device_record E udid) (\<lambda>r _. r \<noteq> 0) s"
  using assms by (auto simp: no_record_def wp_config_remove_device_record ENOENT_def Let_def)

lemma wp_remove_record:
  "wp (config_remove_device_record E udid) (\<lambda>r s'. r = 0 \<longrightarrow> no_record E udid s') s"
  by (auto simp: config_remove_device_record_def record_path_def config_get_config_dir_def wp_rules wp_fs_remove Let_def
      no_record_def record_file_def ENOENT_def EACCES_def split: option.splits)

text \<open>
  Two bounds on the rounds give the same run if the second rounds do, in the states that
  a property \<open>P\<close> describes.
\<close>

lemma preflight_step:
  assumes P: "P s" "\<And>s. P s \<Longrightarrow> P (ticked E s)"
    and has: "\<And>s. P s \<Longrightarrow> wp (config_has_device_record E (Some udid)) (\<lambda>_. P) s"
    and host: "\<And>s. P s \<Longrightarrow> wp (config_device_record_get_host_id E udid) (\<lambda>_. P) s"
    and next_round: "\<And>s. P s \<Longrightarrow> wp (config_remove_device_record E udid)
        (\<lambda>r s'. r = 0 \<longrightarrow> run_state (preflight_run n E info udid) s' = run_state (preflight_run m E info udid) s') s"
  shows "run_state (preflight_run (Suc n) E info udid) s = run_state (preflight_run (Suc m) E info udid) s"
proof -
  let ?session = "\<lambda>has. if has \<noteq> 0 then do {
      host_id \<leftarrow> config_device_record_get_host_id E udid;
      t \<leftarrow> tick E;
      ret (lockdownd_start_session (lockdown E) t host_id)
    } else ret LOCKDOWN_E_INVALID_HOST_ID"
  let ?go = "\<lambda>n lerr. case lerr of
       LOCKDOWN_E_SUCCESS \<Rightarrow> do { client_device_add E info; ret None }
     | LOCKDOWN_E_INVALID_HOST_ID \<Rightarrow> identify E info udid False
     | LOCKDOWN_E_SSL_ERROR \<Rightarrow> do {
         r \<leftarrow> config_remove_device_record E udid;
         if r = 0 then preflight_run n E info udid else identify E info udid False
       }
     | _ \<Rightarrow> identify E info udid True"
  have go: "run_state (?go n lerr) s1 = run_state (?go m lerr) s1" if "P s1" for lerr s1
    using next_round [OF that] by (cases lerr) (auto simp: wp_def split: prod.splits)
  have session: "wp (?session has) (\<lambda>_. P) s1" if "P s1" for has s1
    using host [OF that] that P(2) by (auto simp: wp_rules elim!: wp_mono)
  have rest: "run_state (do { has \<leftarrow> config_has_device_record E (Some udid); lerr \<leftarrow> ?session has; ?go n lerr }) s1 =
      run_state (do { has \<leftarrow> config_has_device_record E (Some udid); lerr \<leftarrow> ?session has; ?go m lerr }) s1"
    if "P s1" for s1
    by (rule run_bind_cong, rule wp_mono [OF has [OF that]], rule run_bind_cong, rule wp_mono [OF session], assumption, rule go)
  show ?thesis
    unfolding preflight_run.simps
    by (rule run_bind_cong, subst wp_tick, simp only: run_if)
      (intro if_cong refl run_bind_cong, subst wp_tick, use rest P in \<open>simp split: option.split\<close>)
qed

lemma preflight_no_record:
  assumes "no_record E udid s"
  shows "run_state (preflight_run (Suc n) E info udid) s = run_state (preflight_run (Suc m) E info udid) s"
  by (rule preflight_step [where P = "no_record E udid", OF assms])
    (auto intro: wp_has_no_record wp_host_id_no_record wp_mono [OF wp_remove_no_record])

lemma preflight_more_rounds:
  "run_state (preflight_run (Suc (Suc n)) E info udid) s = run_state (preflight_run 2 E info udid) s"
  unfolding numeral_2_eq_2
proof (rule preflight_step [where P = "\<lambda>_. True"], goal_cases)
  case (5 s)
  show ?case by (rule wp_mono [OF wp_remove_record]) (use preflight_no_record in blast)
qed (simp_all add: wp_def)

text \<open>When its device goes, the worker stops waiting at its next look.\<close>

lemma wp_removed_worker:
  assumes cb: "cbdata (misc s) p = Some cb" and free: "\<not> device_list_mutex s"
    and live: "\<And>d. d \<in> set (device_list s) \<Longrightarrow> \<exists>D. devs s d = Some D"
  shows "wp (do { preflight_device_remove_cb (Some p); worker_poll p })
     (\<lambda>waits s'. \<not> waits \<and> cbdata (misc s') p = None \<and> fault s' = fault s \<and> \<not> device_list_mutex s') s"
proof -
  define s1 where "s1 = s\<lparr>misc := (misc s)\<lparr>cbdata := (cbdata (misc s))(p \<mapsto> cb\<lparr>is_device_connected := False\<rparr>)\<rparr>\<rparr>"
  let ?p = "\<lambda>d. dev_id (the (devs s d)) = di_id (cb_info cb)"
  have find: "wp (find_m (\<lambda>d. do { D \<leftarrow> rd_dev d; ret (dev_id D = di_id (cb_info cb)) }) (device_list s)) Q (s1\<lparr>device_list_mutex := True\<rparr>) =
      Q (find ?p (device_list s)) (s1\<lparr>device_list_mutex := True\<rparr>)" for Q
    by (rule wp_find_m_pure) (use live in \<open>force simp: rd_heap_def s1_def\<close>)
  have hit: "\<exists>D. devs s d = Some D" if "find ?p (device_list s) = Some d" for d
    using that live by (metis find_Some_iff nth_mem)
  have "wp (device_set_preflight_cb_data (di_id (cb_info cb)) None)
      (\<lambda>_ s'. misc s' = misc s1 \<and> fault s' = fault s \<and> \<not> device_list_mutex s') s1"
    using free hit find by (auto simp: device_set_preflight_cb_data_def wp_rules s1_def split: option.splits)
  then have "wp (worker_poll p) (\<lambda>waits s'. \<not> waits \<and> cbdata (misc s') p = None \<and> fault s' = fault s \<and> \<not> device_list_mutex s') s1"
    unfolding worker_poll_def rd_cbdata_def
    by (simp add: wp_rules s1_def waiting_def) (erule wp_mono, simp add: wp_rules)
  then show ?thesis
    using cb by (simp add: preflight_device_remove_cb_def up_cbdata_def wp_rules s1_def)
qed

end
