(* ===== verification/Conf_Props.thy ===== *)
theory Conf_Props
  imports Conf_Inv Sample_Inv Lifecycle
begin

text \<open>
  Pairing records, the system identifier and the workers for new devices.
\<close>







text \<open>
  C29. The worker for a new device starts over at most once, since it removes the pairing
  record first: more rounds than two make no difference.
\<close>

theorem preflight_two_rounds:
  "run_state (preflight_run (Suc (Suc n)) E info udid) s = run_state (preflight_run 2 E info udid) s"
  by (rule preflight_more_rounds)




end
