(* ===== verification/Main_Inv.thy ===== *)
theory Main_Inv
  imports Startup Device_Inv
begin

text \<open>
  The main loop: what it polls, how long it sleeps, what signals do to it, and the start
  of the program up to it.
\<close>

section \<open>Looking at the tables\<close>

lemma wf_live:
  assumes "wf s"
  shows "d \<in> set (device_list s) \<Longrightarrow> \<exists>D. devs s d = Some D" "c \<in> set (client_list s) \<Longrightarrow> \<exists>cl. clients s c = Some cl"
  using wfD(3,4) [OF assms] by blast+

lemma run_rd_heap: "h s p = Some x \<Longrightarrow> run_state (rd_heap h dflt p) s = (x, s)"
  by (simp add: rd_heap_def)

lemma wp_device_get_count:
  assumes "wf s" and "\<not> device_list_mutex s"
  shows "wp (device_get_count h) Q s = Q (length (filter (\<lambda>d. listed h (the (devs s d))) (device_list s))) s"
proof -
  have len: "foldl (\<lambda>n d. if listed h (the (devs s d)) then n + 1 else n) n l =
      n + length (filter (\<lambda>d. listed h (the (devs s d))) l)" for n :: nat and l
    by (induction l arbitrary: n) auto
  show ?thesis
    unfolding device_get_count_def using assms(2)
    by (simp add: wp_rules) (subst wp_fold_m_pure [where g = "\<lambda>n d. if listed h (the (devs s d)) then n + 1 else n"],
      use wf_live(1) [OF assms(1)] in \<open>force simp: run_rd_heap\<close>, simp add: len)
qed

text \<open>The connections of the active devices, in the order in which they are visited.\<close>

definition active_conns :: "'p daemon \<Rightarrow> ptr list" where
  "active_conns s = concat (map (\<lambda>d. if dev_state (the (devs s d)) = MUXDEV_ACTIVE then conns_of d s else []) (device_list s))"

lemma active_conns_locked [simp]: "active_conns (s\<lparr>device_list_mutex := b\<rparr>) = active_conns s"
  by (simp add: active_conns_def conns_of_def cong: if_cong)

lemma active_connections:
  assumes "wf s" and "devs s d = Some D" and "dev_state D = MUXDEV_ACTIVE"
  shows "\<exists>ks. dev_connections D = Some ks \<and> (\<forall>k\<in>set ks. \<exists>C. conns s k = Some C)"
proof -
  obtain ks where ks: "dev_connections D = Some ks"
    using wfD(6) [OF assms(1,2)] assms(3) by (auto simp: dev_ok_def)
  then show ?thesis using tablesD_dev(2) [OF wfD(5) [OF assms(1)] assms(2) ks] by blast
qed

lemma run_oldest_ack:
  assumes wf: "wf s"
  shows "run_state oldest_ack s = (foldl (\<lambda>oldest k. older oldest (the (conns s k))) (-1) (active_conns s), s)"
proof -
  define g where "g = (\<lambda>oldest d. foldl (\<lambda>oldest k. older oldest (the (conns s k))) oldest
    (if dev_state (the (devs s d)) = MUXDEV_ACTIVE then conns_of d s else []))"
  have body: "run_state (do {
       D \<leftarrow> rd_dev d;
       if dev_state D = MUXDEV_ACTIVE then do {
         ks \<leftarrow> expect Uninitialised [] (dev_connections D);
         fold_m (\<lambda>oldest k. do { C \<leftarrow> rd_conn k; ret (older oldest C) }) oldest ks
       } else ret oldest }) s = (g oldest d, s)" if d: "d \<in> set (device_list s)" for oldest d
  proof -
    obtain D where D: "devs s d = Some D" using wf_live(1) [OF wf d] by blast
    show ?thesis
    proof (cases "dev_state D = MUXDEV_ACTIVE")
      case True
      then obtain ks where ks: "dev_connections D = Some ks" "\<forall>k\<in>set ks. \<exists>C. conns s k = Some C"
        using active_connections [OF wf D] by blast
      have "run_state (fold_m (\<lambda>oldest k. do { C \<leftarrow> rd_conn k; ret (older oldest C) }) oldest ks) s =
          (foldl (\<lambda>oldest k. older oldest (the (conns s k))) oldest ks, s)"
        by (rule run_fold_m_pure) (use ks(2) in \<open>force simp: run_rd_heap\<close>)
      with True D ks show ?thesis by (simp add: g_def run_rd_heap expect_def conns_of_def)
    qed (simp add: D g_def run_rd_heap)
  qed
  have cat: "foldl g x l = foldl (\<lambda>oldest k. older oldest (the (conns s k))) x
      (concat (map (\<lambda>d. if dev_state (the (devs s d)) = MUXDEV_ACTIVE then conns_of d s else []) l))" for x l
    by (induction l arbitrary: x) (simp_all add: g_def)
  show ?thesis
    unfolding oldest_ack_def active_conns_def cat [symmetric]
    by (simp only: run_state_bind run_gets split) (rule run_fold_m_pure, rule body)
qed

section \<open>How long to sleep\<close>

definition acks_due :: "'p daemon \<Rightarrow> mux_connection set" where
  "acks_due s = {C. ack_due C \<and> (\<exists>k\<in>set (active_conns s). conns s k = Some C)}"

lemma foldl_older:
  "foldl (\<lambda>oldest k. older oldest (f k)) b ks \<le> b"
  "k \<in> set ks \<Longrightarrow> ack_due (f k) \<Longrightarrow> foldl (\<lambda>oldest k. older oldest (f k)) b ks \<le> conn_last_ack_time (f k)"
proof (induction ks arbitrary: b)
  case (Cons x ks)
  case 1
  then show ?case using Cons.IH(1) [of "older b (f x)"] by (auto simp: older_def split: if_splits)
next
  case (Cons x ks)
  case 2
  show ?case
  proof (cases "k \<in> set ks")
    case True
    then show ?thesis using Cons.IH(2) 2 by simp
  next
    case False
    then have "older b (f x) \<le> conn_last_ack_time (f k)" using 2 by (auto simp: older_def not_less)
    then show ?thesis using Cons.IH(1) [of "older b (f x)"] by (auto intro: order_trans)
  qed
qed simp_all

lemma wp_device_get_timeout:
  assumes "wf s" and "\<not> device_list_mutex s"
  shows "wp (device_get_timeout E) (\<lambda>r s'. s' = ticked E s \<and> 0 \<le> r \<and> r \<le> 100000 \<and>
     (\<forall>C\<in>acks_due s. conn_last_ack_time C \<noteq> -1 \<longrightarrow> r \<le> uint ACK_TIMEOUT \<and>
        (now_ms E s - conn_last_ack_time C > ACK_TIMEOUT \<longrightarrow> conn_last_ack_time C \<le> now_ms E s \<longrightarrow> r = 0))) s"
proof -
  define old where "old = foldl (\<lambda>oldest k. older oldest (the (conns s k))) (-1) (active_conns s)"
  let ?r = "if old = -1 then 100000 else if now_ms E s - old > ACK_TIMEOUT then 0 else uint (ACK_TIMEOUT - (now_ms E s - old))"
  let ?locked = "s\<lparr>device_list_mutex := True\<rparr>"
  have "wf ?locked" using assms(1) by (simp add: wf_def dev_ok_def dev_sendable_def)
  then have run: "wp oldest_ack Q ?locked = Q old ?locked" for Q
    using run_oldest_ack [of ?locked] by (simp add: wp_def old_def)
  have wp: "wp (device_get_timeout E) Q s = Q ?r (ticked E s)" for Q
    unfolding device_get_timeout_def using assms(2) by (simp add: wp_rules run)
  have small: "uint (ACK_TIMEOUT - x) \<le> uint ACK_TIMEOUT" if "\<not> x > ACK_TIMEOUT" for x :: u64
    using that by (simp add: word_le_def [symmetric] not_less word_sub_le)
  have due: "old \<le> conn_last_ack_time C" if "C \<in> acks_due s" for C
    using that foldl_older(2) [of _ "active_conns s" "\<lambda>k. the (conns s k)" "-1"]
    unfolding acks_due_def old_def by fastforce
  have set: "old \<noteq> -1" if "C \<in> acks_due s" "conn_last_ack_time C \<noteq> -1" for C
    using due [OF that(1)] that(2) by (metis word_n1_ge order_antisym)
  have late: "now_ms E s - old > ACK_TIMEOUT"
    if "C \<in> acks_due s" "now_ms E s - conn_last_ack_time C > ACK_TIMEOUT" "conn_last_ack_time C \<le> now_ms E s" for C
  proof -
    have "old \<le> now_ms E s" using due [OF that(1)] that(3) by (rule order_trans)
    then have "now_ms E s - conn_last_ack_time C \<le> now_ms E s - old"
      using due [OF that(1)] that(3) by (simp add: word_le_nat_alt unat_sub)
    with that(2) show ?thesis by (rule less_le_trans)
  qed
  have le: "?r \<le> uint ACK_TIMEOUT" if "C \<in> acks_due s" "conn_last_ack_time C \<noteq> -1" for C
    using set [OF that] small by simp
  have top: "uint ACK_TIMEOUT = 30" by (simp add: ACK_TIMEOUT_def)
  have "0 \<le> ?r" "?r \<le> 100000" using small [of "now_ms E s - old"] top by auto
  then show ?thesis unfolding wp using le late set by auto
qed

section \<open>What is polled\<close>

lemma foldl_bind_None: "foldl (\<lambda>l c. Option.bind l (h c)) None cs = None"
  by (induction cs) simp_all

lemma foldl_add_each:
  "foldl (\<lambda>l c. Option.bind l (\<lambda>l. add l w (f c) (g c))) l0 cs = Option.bind l0 (add_each add w (map (\<lambda>c. (f c, g c)) cs))"
proof (induction cs arbitrary: l0)
  case Nil
  then show ?case by (cases l0) simp_all
next
  case (Cons c cs)
  then show ?case by (cases l0) simp_all
qed

definition client_poll :: "'p daemon \<Rightarrow> (int \<times> u16) list" where
  "client_poll s = map (\<lambda>c. (cl_fd (the (clients s c)), cl_events (the (clients s c)))) (client_list s)"

lemma wp_client_get_fds:
  assumes wf: "wf s" and free: "\<not> client_list_mutex s"
  shows "wp (client_get_fds l) Q s = Q (Option.bind l (add_each fdlist_add FD_CLIENT (client_poll s))) s"
proof -
  have "wp (fold_m (\<lambda>list c. do {
       cl \<leftarrow> rd_client c;
       ret (Option.bind list (\<lambda>list. fdlist_add list FD_CLIENT (cl_fd cl) (cl_events cl)))
     }) l (client_list s)) R (s\<lparr>client_list_mutex := True\<rparr>) =
     R (foldl (\<lambda>list c. Option.bind list (\<lambda>list. fdlist_add list FD_CLIENT (cl_fd (the (clients s c))) (cl_events (the (clients s c))))) l (client_list s))
       (s\<lparr>client_list_mutex := True\<rparr>)" for R
    by (rule wp_fold_m_pure) (use wf_live(2) [OF wf] in \<open>force simp: run_rd_heap\<close>)
  then show ?thesis
    unfolding client_get_fds_def client_poll_def using free by (simp add: wp_rules foldl_add_each [where add = fdlist_add])
qed

lemma wp_poll_descriptors:
  assumes wf: "wf s" and free: "\<not> client_list_mutex s" and l: "fdlist_ok l"
  shows "wp (poll_descriptors E lfd l) (\<lambda>r s'. s' = ticked E s \<and> (\<exists>l'. r = Some l' \<and> fdlist_ok l' \<and>
     fdlist_view l' = poll_entry FD_LISTEN (lfd, POLLIN) #
       map (poll_entry FD_USB) (case libusb_get_pollfds (libusb E) (calls s) of None \<Rightarrow> [] | Some us \<Rightarrow> us) @
       map (poll_entry FD_CLIENT) (client_poll s))) s"
proof -
  define us where "us = (case libusb_get_pollfds (libusb E) (calls s) of None \<Rightarrow> [] | Some us \<Rightarrow> us)"
  have wf': "wf (ticked E s)" using wf by (simp add: wf_def dev_ok_def dev_sendable_def)
  have poll: "client_poll (ticked E s) = client_poll s" by (simp add: client_poll_def)
  have usb: "wp (usb_get_fds E x) Q s = Q (Option.bind x (add_each fdlist_add FD_USB us)) (ticked E s)" for x Q
    unfolding usb_get_fds_def us_def by (cases x) (auto simp: wp_rules split: option.split)
  obtain l' where l': "Option.bind (Option.bind (fdlist_add (fdlist_reset l) FD_LISTEN lfd POLLIN) (add_each fdlist_add FD_USB us))
      (add_each fdlist_add FD_CLIENT (client_poll s)) = Some l'" "fdlist_ok l'"
    "fdlist_view l' = poll_entry FD_LISTEN (lfd, POLLIN) # map (poll_entry FD_USB) us @ map (poll_entry FD_CLIENT) (client_poll s)"
    using fdl.rebuild_Some [OF l, of lfd POLLIN us "client_poll s"] by (cases "fdlist_add (fdlist_reset l) FD_LISTEN lfd POLLIN") auto
  show ?thesis
    unfolding poll_descriptors_def us_def [symmetric]
    using l' free by (simp add: wp_rules usb wp_client_get_fds [OF wf'] poll)
qed

section \<open>Signals\<close>

lemma no_device_listed:
  assumes "wf s"
  shows "filter (\<lambda>d. listed True (the (devs s d))) (device_list s) = [] \<longleftrightarrow>
     (\<forall>d D. devs s d = Some D \<longrightarrow> dev_state D \<noteq> MUXDEV_ACTIVE)"
  using wfD(3) [OF assms] by (force simp: filter_empty_conv listed_def)

lemma wp_mod_misc [wp_rules]: "wp (mod_misc f) Q s = Q () (s\<lparr>misc := f (misc s)\<rparr>)"
  by (simp add: mod_misc_def wp_rules)

lemma wp_sys_tick_count [wp_rules]:
  "wp (sys_tick_count E) Q s = Q (get_tick_count (if os_clock_fails E (calls s) then None
     else Some (timespec_of (clock (ticked E s)))) (os_gettimeofday E (calls s))) (ticked E s)"
  by (simp add: sys_tick_count_def wp_rules)

text \<open>A signal that asks for the end, while the loop waits in \<^verbatim>\<open>ppoll\<close>, ends it.\<close>

lemma wp_usb_get_timeout:
  "wp (usb_get_timeout E) (\<lambda>r s'. s' = (if device_polling (misc s) then ticked E (ticked E s) else ticked E s)) s"
  by (auto simp: usb_get_timeout_def dev_poll_remain_ms_def wp_rules Let_def split: prod.splits)

lemma wf_ticked [simp]: "wf (ticked E s) = wf s"
  by (simp add: wf_def dev_ok_def dev_sendable_def)

definition poll_call :: "'p daemon \<Rightarrow> nat" where
  "poll_call s = calls s + (if device_polling (misc s) then 4 else 3)"

lemma wp_iteration_signal:
  assumes wf: "wf s" and free: "\<not> client_list_mutex s" "\<not> device_list_mutex s" and l: "fdlist_ok l"
    and sig: "os_signals (os E) (poll_call s) = [sig]" "sig \<noteq> SIGUSR1" "sig \<noteq> SIGUSR2"
    and intr: "\<And>fds to. os_ppoll (os E) (poll_call s) fds to = Inl EINTR"
  shows "wp (main_iteration E lfd l) (\<lambda>r s'. fst r = Leave 0 \<and> should_exit (misc s') \<and> fault s' = fault s) s"
proof -
  define s1 where "s1 = (if device_polling (misc s) then ticked E (ticked E s) else ticked E s)"
  have s1: "wf s1" "\<not> client_list_mutex s1" "\<not> device_list_mutex s1" "fault s1 = fault s"
      "Suc (Suc (calls s1)) = poll_call s"
    using wf free by (simp_all add: s1_def poll_call_def)
  have rest: "wp (do {
       to \<leftarrow> ret to;
       l \<leftarrow> poll_descriptors E lfd l;
       pollfds \<leftarrow> expect OutOfBounds l0 l;
       t \<leftarrow> tick E;
       handle_signals (os_signals (os E) t);
       r \<leftarrow> (case os_ppoll (os E) t (map (\<lambda>(owner, pfd). (pfd_fd pfd, pfd_events pfd)) (fdlist_view pollfds)) to of
            Inl errno \<Rightarrow> interrupted E errno
          | Inr revents \<Rightarrow> serve_poll E lfd pollfds revents);
       ret (r, pollfds)
     }) (\<lambda>r s'. fst r = Leave 0 \<and> should_exit (misc s') \<and> fault s' = fault s) (ticked E s1)" for to l0
    unfolding wp_bind wp_return
  proof (rule wp_mono [OF wp_poll_descriptors], goal_cases)
    case (4 r s')
    then obtain l' where "r = Some l'" "s' = ticked E (ticked E s1)" by blast
    then show ?case
      using sig intr s1(4,5) by (simp add: wp_rules handle_signal_def interrupted_def)
  qed (use s1 l in simp_all)
  show ?thesis
    unfolding main_iteration_def wp_bind
  proof (rule wp_mono [OF wp_usb_get_timeout], goal_cases)
    case (1 to s')
    then have "s' = s1" by (simp add: s1_def)
    then show ?case
      using rest by (auto simp: wp_rules elim!: wp_mono intro!: wp_mono [OF wp_device_get_timeout [OF s1(1,3)]])
  qed
qed

end
