(* ===== verification/Main_Props.thy ===== *)
theory Main_Props
  imports Main_Inv Sample_Inv Lifecycle
begin

text \<open>
  The main loop, start-up and the log.
\<close>

text \<open>
  C23. The set of descriptors to poll is the listening socket, those of libusb, and for each
  client in the order of the list its socket with the events it waits for.
\<close>

theorem poll_set_complete:
  assumes "wf s" and "\<not> client_list_mutex s" and "fdlist_ok l"
  shows "wp (poll_descriptors E lfd l) (\<lambda>r s'. s' = ticked E s \<and> (\<exists>l'. r = Some l' \<and> fdlist_ok l' \<and>
     fdlist_view l' = poll_entry FD_LISTEN (lfd, POLLIN) #
       map (poll_entry FD_USB) (case libusb_get_pollfds (libusb E) (calls s) of None \<Rightarrow> [] | Some us \<Rightarrow> us) @
       map (\<lambda>c. poll_entry FD_CLIENT (cl_fd (the (clients s c)), cl_events (the (clients s c)))) (client_list s))) s"
  using wp_poll_descriptors [OF assms] by (simp add: client_poll_def o_def)

theorem poll_set_complete_witness:
  "wp (poll_descriptors ext0 4 fdlist_create) (\<lambda>r s'. s' = ticked ext0 state1 \<and> (\<exists>l'. r = Some l' \<and> fdlist_ok l' \<and>
     fdlist_view l' = poll_entry FD_LISTEN (4, POLLIN) #
       map (poll_entry FD_USB) (case libusb_get_pollfds (libusb ext0) (calls state1) of None \<Rightarrow> [] | Some us \<Rightarrow> us) @
       map (\<lambda>c. poll_entry FD_CLIENT (cl_fd (the (clients state1 c)), cl_events (the (clients state1 c)))) (client_list state1))) state1"
  by (rule poll_set_complete [OF wf_samples(1) sample_states(1) fdl.ok_create])

text \<open>
  C24. The time until the next delayed acknowledgement is between 0 and 100 seconds, at most
  the delay if one is pending, and 0 if one is overdue.
\<close>

theorem ack_timeout_bounds:
  assumes "wf s" and "\<not> device_list_mutex s"
  shows "wp (device_get_timeout E) (\<lambda>r s'. s' = ticked E s \<and> 0 \<le> r \<and> r \<le> 100000 \<and>
     (\<forall>C\<in>acks_due s. conn_last_ack_time C \<noteq> -1 \<longrightarrow> r \<le> uint ACK_TIMEOUT \<and>
        (now_ms E s - conn_last_ack_time C > ACK_TIMEOUT \<longrightarrow> conn_last_ack_time C \<le> now_ms E s \<longrightarrow> r = 0))) s"
  by (rule wp_device_get_timeout [OF assms])

theorem ack_timeout_bounds_witness:
  "wp (device_get_timeout ext0) (\<lambda>r s'. s' = ticked ext0 state1 \<and> 0 \<le> r \<and> r \<le> 100000 \<and>
     (\<forall>C\<in>acks_due state1. conn_last_ack_time C \<noteq> -1 \<longrightarrow> r \<le> uint ACK_TIMEOUT \<and>
        (now_ms ext0 state1 - conn_last_ack_time C > ACK_TIMEOUT \<longrightarrow> conn_last_ack_time C \<le> now_ms ext0 state1 \<longrightarrow> r = 0))) state1"
  by (rule ack_timeout_bounds [OF wf_samples(1) sample_states(4)])




text \<open>
  C22. A termination signal during the poll ends the main loop with success after this
  iteration, and without memory error.
\<close>

theorem signal_ends_loop:
  assumes "wf s" and "\<not> client_list_mutex s" and "\<not> device_list_mutex s"
    and "os_signals (os E) (poll_call s) = [sig]" and "sig \<noteq> SIGUSR1" and "sig \<noteq> SIGUSR2"
    and "\<And>fds to. os_ppoll (os E) (poll_call s) fds to = Inl EINTR"
  shows "\<exists>s'. main_loop E lfd s = Some (0, s') \<and> should_exit (misc s') \<and> fault s' = fault s"
proof (cases "should_exit (misc s)")
  case True
  then show ?thesis by (simp add: main_loop_def loop_from.simps)
next
  case False
  obtain r l s' where run: "run_state (main_iteration E lfd fdlist_create) s = ((r, l), s')"
    by (metis prod.exhaust)
  have "wp (main_iteration E lfd fdlist_create) (\<lambda>r s'. fst r = Leave 0 \<and> should_exit (misc s') \<and> fault s' = fault s) s"
    by (rule wp_iteration_signal [OF assms(1-3) fdl.ok_create assms(4-7)])
  from wp_run [OF this run] show ?thesis
    using False run by (simp add: main_loop_def loop_from.simps)
qed

definition ext_term :: "bytes ext" where
  "ext_term = ext0\<lparr>os := os0\<lparr>os_signals := \<lambda>_. [15], os_ppoll := \<lambda>_ _ _. Inl EINTR\<rparr>\<rparr>"

theorem signal_ends_loop_witness:
  "\<exists>s'. main_loop ext_term 4 state1 = Some (0, s') \<and> should_exit (misc s') \<and> fault s' = fault state1"
  by (rule signal_ends_loop [where sig = 15, OF wf_samples(1)])
    (simp_all add: sample_states ext_term_def SIGUSR1_def SIGUSR2_def)

text \<open>
  C25. When privileges are to be dropped, start-up ends with an error, or groups, group and user
  have been changed, in this order, and it was checked that root is out of reach.
\<close>

theorem privileges_dropped:
  assumes "drop_user opts = Some user" and "os_getuid (os E) (calls s) = 0"
    and "os_getpwnam (os E) (Suc (calls s)) user = Some (uid, gid)" and "uid \<noteq> 0"
  shows "wp (drop_privileges E opts st) (\<lambda>r s'. (\<exists>e < 0. r = Inl (Terminate e)) \<or>
     r = Inr () \<and> (\<exists>pre a b c. trace s' = trace s @ pre @ [SysCall (Sys_initgroups user gid) a,
        SysCall (Sys_setgid gid) b, SysCall (Sys_setuid uid) c, SysCall (Sys_setuid 0) (-1)] \<and> 0 \<le> a \<and> 0 \<le> b \<and> 0 \<le> c)) s"
proof -
  obtain dir mode fuid fgid where st: "st = (dir, mode, fuid, fgid)" by (metis prod.exhaust)
  show ?thesis
    using assms unfolding st
    by (auto simp: drop_privileges_def become_user_def andthen_def require_def sys_def wp_rules Let_def)
qed

theorem privileges_dropped_witness:
  "wp (drop_privileges ext0 (options0\<lparr>drop_user := Some ''usbmux''\<rparr>) (''/c'', 0, 0, 0)) (\<lambda>r s'. (\<exists>e < 0. r = Inl (Terminate e)) \<or>
     r = Inr () \<and> (\<exists>pre a b c. trace s' = trace state0 @ pre @ [SysCall (Sys_initgroups ''usbmux'' 1000) a,
        SysCall (Sys_setgid 1000) b, SysCall (Sys_setuid 1000) c, SysCall (Sys_setuid 0) (-1)] \<and> 0 \<le> a \<and> 0 \<le> b \<and> 0 \<le> c)) state0"
  by (rule privileges_dropped) (simp_all add: options0_def ext0_def os0_def)





text \<open>
  C34. The buffer for a log line is exactly as long as the line needs it, for any message and
  any time of day, and the shorter line for the system log fits as well.
\<close>

theorem log_format_fits:
  assumes "h < 24" and "mi < 60" and "sec < 61" and "ms < 1000"
  shows "\<exists>r. usbmuxd_log m level fmt (h, mi, sec) ms = Inr r \<and>
     length (stderr_format (h, mi, sec) ms (level_num level) fmt) + 1 = 20 + length fmt"
proof -
  have l: "length (decimal (level_num level)) = 1" using decimal_1 level_num_less [of level] by simp
  have c: "length (clock_text (h, mi, sec)) = 9" using assms by (simp add: clock_text_def length_padded)
  have "length (stderr_format (h, mi, sec) ms (level_num level) fmt) + 1 = 20 + length fmt"
    using l c assms by (simp add: stderr_format_def length_padded)
  moreover have "length (syslog_format (level_num level) fmt) \<le> 19 + length fmt"
    using l by (simp add: syslog_format_def)
  ultimately show ?thesis by (simp add: usbmuxd_log_def Let_def)
qed

theorem log_format_fits_witness:
  "\<exists>r. usbmuxd_log misc0 LL_NOTICE ''hello %d'' (23, 59, 60) 999 = Inr r \<and>
     length (stderr_format (23, 59, 60) 999 (level_num LL_NOTICE) ''hello %d'') + 1 = 20 + length ''hello %d''"
  by (rule log_format_fits) simp_all

end
