(* ===== verification/Spec2Isabelle.thy ===== *)
theory Spec2Isabelle
  imports Faults Sample_Inv Startup Reassembly Reach Usb_Props Conf_Props Main_Props
begin

text \<open>
  A verification of usbmuxd, the daemon that lets programs open TCP-like connections to
  iOS devices over USB.

  \<^bold>\<open>The program.\<close> Clients connect to a socket and send commands (\<^verbatim>\<open>client.c\<close>). The device
  layer (\<^verbatim>\<open>device.c\<close>) multiplexes the connections they ask for over one pair of USB
  endpoints per device, with a simplified TCP; \<^verbatim>\<open>usb.c\<close> moves packets through libusb;
  \<^verbatim>\<open>preflight.c\<close> pairs a new device before clients see it; \<^verbatim>\<open>conf.c\<close> keeps pair records;
  \<^verbatim>\<open>main.c\<close> polls all descriptors and calls the other parts.

  \<^bold>\<open>The model.\<close> An operation of the C code is a state monad action of type \<open>('p, 'a) mux\<close>
  on the record \<open>daemon\<close> (theory \<open>World\<close>). Each kind of struct has its own store, a partial
  map from addresses, so a pointer kept after \<^verbatim>\<open>free\<close> is a key without a value; the global
  collections and both mutexes are fields. A memory error, a recursive lock, a division by
  zero or a loop that exceeds its bound is recorded in the field \<open>fault\<close>, which is never
  cleared: \<open>fault s' = fault s\<close> in a theorem says that the operation commits none. Integers
  have the width of the C code. Everything outside the repository (sockets, clock, libusb,
  libplist, the collections of libimobiledevice-glue) is the record \<open>ext\<close>, an argument of
  every operation that uses it. A call of the outside world is numbered, so its answers may
  differ from call to call. The theorems assume of it only what \<open>world_ok\<close> says: collections
  gain and lose one element, sockets transfer at most what they were given, the monotonic
  clock does not fail and no single call takes \<open>2 ^ 40\<close> nanoseconds, \<^verbatim>\<open>realloc\<close> of a reply buffer
  succeeds, and the printed answer to a command has at most 4096 bytes.

  \<^bold>\<open>Theories and sources.\<close>
  \<^item> \<open>Prelude\<close>: lists, words, the state monad, weakest preconditions (\<open>wp\<close>), \<open>stable\<close>.
  \<^item> \<open>Proto\<close>: message formats of \<^verbatim>\<open>usbmuxd-proto.h\<close> and \<^verbatim>\<open>device.c\<close>, with a locale of codecs.
  \<^item> \<open>Utils\<close>: \<^verbatim>\<open>utils.c\<close>, the poll list and the clock, with a locale of poll sets.
  \<^item> \<open>World\<close>, \<open>Calculus\<close>: state, outside world, primitive operations and their rules.
  \<^item> \<open>Usb_Tx\<close>, \<open>Usb_Desc\<close>, \<open>Usb\<close>: \<^verbatim>\<open>usb.c\<close>: sending and accessors; descriptors, interfaces, serial
    numbers and time; transfers, their callbacks, discovery, hot plugging and disconnection.
  \<^item> \<open>Mux_Send\<close>, \<open>Byte_Queue\<close>, \<open>Device\<close>: \<^verbatim>\<open>device.c\<close>, its buffers as instances of a locale.
  \<^item> \<open>Client_IO\<close>, \<open>Notify\<close>, \<open>Client_Cmd\<close>: \<^verbatim>\<open>client.c\<close> and the start of \<^verbatim>\<open>preflight.c\<close>.
  \<^item> \<open>Teardown\<close>: \<^verbatim>\<open>connection_teardown\<close>, \<^verbatim>\<open>client_close\<close>, \<^verbatim>\<open>device_abort_connect\<close>, which call
    each other.
  \<^item> \<open>Conf\<close>: \<^verbatim>\<open>conf.c\<close> on a model of the file system. \<open>Preflight\<close>: \<^verbatim>\<open>preflight.c\<close>.
  \<^item> \<open>Main_Loop\<close>, \<open>Startup\<close>: \<^verbatim>\<open>main.c\<close>: the poll loop and signals; options, the lock, sockets,
    privileges and the way through \<^verbatim>\<open>main\<close>. \<open>Log\<close>: \<^verbatim>\<open>log.c\<close>.

  \<^bold>\<open>Results.\<close>
  \<^item> \<open>Invariant\<close> defines the invariant \<open>wf\<close>: lists and stores agree, each connection has one
    device and one client in a state that fits its own, buffers are within their bounds.
  \<^item> \<open>Teardown_Inv\<close>, \<open>Fresh\<close>, \<open>Device_Inv\<close>, \<open>Tcp_Input\<close>, \<open>Connect\<close>, \<open>Listeners\<close>, \<open>Lifecycle\<close>, \<open>Attach_Inv\<close>
    and \<open>Clients_Inv\<close> show for each handler what it does and that it keeps \<open>wf\<close> without a fault.
    \<open>Reach\<close> makes the handlers the steps of a transition system and concludes that \<open>wf\<close> holds,
    without a fault, in every reachable state.
  \<^item> \<open>Packets\<close> and \<open>Reassembly\<close> follow a packet from the device through reassembly and dispatch.
  \<^item> \<open>Usb_Inv\<close>, \<open>Conf_Inv\<close> and \<open>Main_Inv\<close> hold the lemmas on the other parts, and \<open>Usb_Props\<close>,
    \<open>Conf_Props\<close> and \<open>Main_Props\<close> their properties; \<open>Faults\<close> shows where an operation of the
    device layer does commit a memory error.
  \<^item> \<open>Sample\<close>, \<open>Sample_Inv\<close>: a concrete world and concrete states for the witnesses.
  \<^item> This theory has the properties of sessions, data, packets, and of devices and clients
    that come and go.

  \<^bold>\<open>Bounds.\<close> The loops that choose ports and identifiers get one round more than there are
  elements to collide with, which \<open>find_sport_fresh\<close> and \<open>get_next_device_id_fresh\<close> show to be
  enough; the last flush gets \<open>flush_fuel\<close> rounds, which the clock bounds (\<open>flush_terminates\<close>);
  the worker of a new device gets two rounds (\<open>preflight_two_rounds\<close>). The wait for cancelled
  transfers ends when libusb reports an error or all are done; it gets as many rounds as
  \<open>libusb_patience\<close> says that libusb needs. The main loop may run forever and is a
  \<^verbatim>\<open>partial_function\<close> to \<open>option\<close>. All other loops run over finite lists.

  \<^bold>\<open>Hypotheses.\<close> \<open>calm\<close> says that the output buffer of a client that does not take commands has
  not grown beyond 2 GiB; \<open>takes\<close> that data of a device fits in the in-buffer of its connection
  (without it there is a fault, \<open>tcp_overflow_fault\<close>); \<open>settled\<close> that no device in the list is
  dead and that the worker records that devices refer to are live; \<open>notices_ok\<close> and \<open>attach_ok\<close>
  that libplist prints the notices about a device in at most 4096 bytes.

  \<^bold>\<open>Not modelled.\<close> The arguments of log messages; the installation of signal handlers and the
  text of the usage message; the name of the peer process of a client, which is only logged;
  failing \<^verbatim>\<open>malloc\<close> where the code does not check it; the build with udev and systemd. The
  worker threads take their steps between those of the main thread: the sections that hold a
  lock are atomic, and so are the other steps of a worker.
\<close>

section \<open>Memory safety of sessions\<close>

text \<open>
  C2. Taking a connection down, in whatever state it is and whatever the sockets and USB
  answer, commits no memory error and keeps the invariant of the daemon. Afterwards the
  connection is freed and nothing else is: its client is closed, or, if it was still
  waiting for the device, is told and takes commands again.
\<close>

theorem connection_teardown_safe:
  assumes "wf s" and "world_ok E" and "calm s" and "conns s k = Some C" and "conn_client C = Some c"
    and "\<not> client_list_mutex s"
  shows "wp (connection_teardown E k) (\<lambda>_ s'. wf s' \<and> fault s' = fault s \<and> conns s' = (conns s)(k := None) \<and>
     (\<forall>c'. c' \<noteq> c \<longrightarrow> clients s' c' = clients s c') \<and>
     (case clients s' c of None \<Rightarrow> True | Some cl \<Rightarrow> cl_state cl = CLIENT_COMMAND)) s"
proof (rule wp_mono [OF wp_connection_teardown [OF assms(1-4,6)]], goal_cases)
  case (1 _ s')
  note sound = torn_sound [OF assms(1-4) 1]
  from 1 assms(5) obtain x where "conns s' = (conns s)(k := None)" "clients s' = (clients s)(c := x)"
    "x = None \<or> (\<exists>cl. x = Some (notified E RESULT_CONNREFUSED cl))"
    unfolding torn_def by auto
  then show ?case using soundD(1,3) [OF sound] by auto
qed

theorem connection_teardown_safe_witness:
  "wp (connection_teardown ext0 4) (\<lambda>_ s'. wf s' \<and> fault s' = fault state1 \<and> conns s' = (conns state1)(4 := None) \<and>
     (\<forall>c'. c' \<noteq> 3 \<longrightarrow> clients s' c' = clients state1 c') \<and>
     (case clients s' 3 of None \<Rightarrow> True | Some cl \<Rightarrow> cl_state cl = CLIENT_COMMAND)) state1"
  by (rule connection_teardown_safe [where C = conn1, OF wf_samples(1) sample_world(1) calm_samples(1)]) (simp_all add: sample_states)

text \<open>
  C7. Closing a client that is not in the middle of a transfer commits no memory error,
  keeps the invariant and removes exactly that client; if it was waiting for a device,
  its connection goes with it.
\<close>

theorem client_close_safe:
  assumes "wf s" and "world_ok E" and "\<not> client_list_mutex s" and "calm s"
    and "clients s c = Some cl" and "cl_state cl \<noteq> CLIENT_CONNECTED"
  shows "wp (client_close E c) (\<lambda>_ s'. wf s' \<and> fault s' = fault s \<and> clients s' = (clients s)(c := None) \<and>
     (\<forall>k C. conns s' k = Some C \<longrightarrow> conn_client C \<noteq> Some c)) s"
proof (rule wp_mono [OF wp_client_close_wf [OF assms]], goal_cases)
  case (1 _ s')
  then have "tables_ok (conns s') (devs s') (clients s')" "clients s' c = None" using wfD(5) [of s'] by simp_all
  then show ?case using 1 session by fastforce
qed

theorem client_close_safe_witness:
  "wp (client_close ext0 3) (\<lambda>_ s'. wf s' \<and> fault s' = fault state2 \<and> clients s' = (clients state2)(3 := None) \<and>
     (\<forall>k C. conns s' k = Some C \<longrightarrow> conn_client C \<noteq> Some 3)) state2"
  by (rule client_close_safe [where cl = client3, OF wf_samples(2) sample_world(1) _ calm_samples(2)]) (simp_all add: sample_states)


text \<open>
  C12. The last flush of a connection ends, with every behaviour of the socket: after at
  most \<open>flush_fuel\<close> rounds it has written a prefix of the pending bytes, in order, and the
  rest is still pending.
\<close>

theorem flush_terminates:
  assumes "sockets_ok E" and "clock_ok E" and "conns s k = Some C" and "conn_ib_ok C" and "clients s c = Some cl"
  shows "wp (do { tm_last \<leftarrow> sys_mstime64 E; flush_loop (flush_fuel C) E k c tm_last }) (\<lambda>_ s'. fault s' = fault s \<and>
     (\<exists>C' chunks. conns s' = (conns s)(k \<mapsto> C') \<and> trace s' = trace s @ map (SockSent (cl_fd cl)) chunks \<and>
        concat chunks @ conn_pending C' = conn_pending C)) s"
proof -
  have "wp (flush_loop (flush_fuel C) E k c (of_nat (clock (ticked E s) div 10 ^ 6)))
      (\<lambda>_ s'. flushed k C (cl_fd cl) (ticked E s) s') (ticked E s)"
    using assms by (intro wp_flush_loop [OF assms(1,2), where j = 0]) (simp_all add: flush_fuel_def)
  then have "wp (flush_loop (flush_fuel C) E k c (of_nat (clock (ticked E s) div 10 ^ 6))) (\<lambda>_ s'. fault s' = fault s \<and>
     (\<exists>C' chunks. conns s' = (conns s)(k \<mapsto> C') \<and> trace s' = trace s @ map (SockSent (cl_fd cl)) chunks \<and>
        concat chunks @ conn_pending C' = conn_pending C)) (ticked E s)"
    by (rule wp_mono) (auto simp: flushed_def dest: io_restD(4))
  then show ?thesis by (simp add: wp_rules now_ms_clock [OF assms(2)])
qed

theorem flush_terminates_witness:
  "wp (do { tm_last \<leftarrow> sys_mstime64 ext0; flush_loop (flush_fuel conn1) ext0 4 3 tm_last }) (\<lambda>_ s'. fault s' = fault state1 \<and>
     (\<exists>C' chunks. conns s' = (conns state1)(4 \<mapsto> C') \<and> trace s' = trace state1 @ map (SockSent (cl_fd client1)) chunks \<and>
        concat chunks @ conn_pending C' = conn_pending conn1)) state1"
  by (rule flush_terminates [OF ext0_ok(2,4)]) (use sample_parts(1) in \<open>simp_all add: sample_states conn_ok_def\<close>)

section \<open>Data between client and device\<close>

text \<open>
  C16. The in-buffer of a connection is a queue: whatever the order in which the device
  fills it and the client drains it, the bytes that came out, followed by those still
  pending, are those that were pending before followed by all that were accepted.
\<close>

theorem conn_buffer_fifo:
  assumes "conn_ib_ok C"
  shows "fst (conn_q.runq C ops) @ conn_pending (snd (conn_q.runq C ops)) =
     conn_pending C @ conn_q.accepted C ops"
  using conn_q.fifo [OF assms] by blast

theorem conn_buffer_fifo_witness:
  "conn_ib_ok conn1 \<and> fst (conn_q.runq conn1 [Put [13], Get 2]) @ conn_pending (snd (conn_q.runq conn1 [Put [13], Get 2])) =
     conn_pending conn1 @ conn_q.accepted conn1 [Put [13], Get 2]"
proof -
  have ok: "conn_ib_ok conn1" by (simp add: conn_ib_ok_def sample_defs size_consts)
  show ?thesis using ok conn_buffer_fifo [OF ok] by blast
qed

text \<open>
  C3. One round for a client that talks to a device. No memory error, the invariant is
  kept, and unless the connection was taken down no byte is lost, reordered or counted
  twice: a prefix of the pending bytes went to the client and the acknowledgement number
  grew by its length, then the bytes read from the client went out in one TCP packet and
  the sequence number grew by their number.
\<close>

theorem device_client_process_stream:
  assumes "wf s" and "world_ok E" and "calm s" and "\<not> client_list_mutex s" "\<not> device_list_mutex s"
    and "conns s k = Some C" "conn_client C = Some c" "clients s c = Some cl"
    and "devs s (conn_dev C) = Some D" "udevs s (dev_usbdev D) = Some u"
  shows "wp (device_client_process E (cl_connect_device cl) c events) (\<lambda>_ s'. wf s' \<and> fault s' = fault s \<and>
     (conns s' k = None \<or> (\<exists>m bs C'. conns s' k = Some C' \<and> m \<le> length (conn_pending C) \<and>
        conn_pending C' = drop m (conn_pending C) \<and> conn_tx_ack C' = conn_tx_ack C + of_nat m \<and>
        conn_tx_seq C' = conn_tx_seq C + of_nat (length bs) \<and>
        trace s' = trace s @ sent_to (cl_fd cl) (take m (conn_pending C)) @ passed_on (cl_fd cl) D u (drained m C) bs))) s"
  by (rule wp_mono [OF wp_device_client_process [OF assms]]) (auto simp: served_def dest: soundD(1,3))

theorem device_client_process_stream_witness:
  "wp (device_client_process ext0 1 3 POLLIN) (\<lambda>_ s'. wf s' \<and> fault s' = fault state1 \<and>
     (conns s' 4 = None \<or> (\<exists>m bs C'. conns s' 4 = Some C' \<and> m \<le> length (conn_pending conn1) \<and>
        conn_pending C' = drop m (conn_pending conn1) \<and> conn_tx_ack C' = conn_tx_ack conn1 + of_nat m \<and>
        conn_tx_seq C' = conn_tx_seq conn1 + of_nat (length bs) \<and>
        trace s' = trace state1 @ sent_to (cl_fd client1) (take m (conn_pending conn1)) @
          passed_on (cl_fd client1) dev1 udev1 (drained m conn1) bs))) state1"
proof -
  have id: "cl_connect_device client1 = 1" by (simp add: sample_defs)
  show ?thesis
    using device_client_process_stream [OF wf_samples(1) sample_world(1) calm_samples(1),
        where k = 4 and C = conn1 and c = 3 and cl = client1 and D = dev1 and u = udev1 and events = POLLIN]
    unfolding id by (simp add: sample_states)
qed

text \<open>
  C15. Flow control. After \<open>update_connection\<close> the number of bytes that may be sent is at
  most the payload of a packet, the size of the buffer, and what is left of the window
  the device has granted; the client is polled for input exactly if that number is not
  zero, and for output exactly if bytes are pending.
\<close>

theorem update_connection_bounds:
  assumes "conns s k = Some C" and "conn_client C = Some c" and "clients s c = Some cl"
  shows "wp (update_connection k) (\<lambda>_ s'. \<exists>C'. conns s' = (conns s)(k \<mapsto> C') \<and> fault s' = fault s \<and>
     conn_sendable C' \<le> conn_max_payload C \<and> conn_sendable C' \<le> conn_ob_capacity C \<and>
     unat (conn_sendable C') \<le> unat (conn_rx_win C) - unat (conn_tx_seq C - conn_rx_ack C) \<and>
     (has_flag (conn_events C') POLLIN \<longleftrightarrow> conn_sendable C' \<noteq> 0) \<and>
     (has_flag (conn_events C') POLLOUT \<longleftrightarrow> conn_ib_size C \<noteq> 0)) s"
proof -
  have win: "unat (sendable_window C) \<le> unat (conn_rx_win C) - unat (conn_tx_seq C - conn_rx_ack C)"
    by (auto simp: sendable_window_def Let_def word_less_nat_alt word_le_nat_alt not_less unat_sub)
  have ev: "has_flag (conn_events (refreshed C)) POLLIN \<longleftrightarrow> sendable_window C \<noteq> 0"
    "has_flag (conn_events (refreshed C)) POLLOUT \<longleftrightarrow> conn_ib_size C \<noteq> 0"
    by (simp_all add: refreshed_def Let_def word_gt_0)
  show ?thesis
    unfolding wp_update_connection [OF assms] using sendable_window_bound [of C] win ev
    by (intro exI [of _ "refreshed C"]) simp
qed

theorem update_connection_bounds_witness:
  "wp (update_connection 4) (\<lambda>_ s'. \<exists>C'. conns s' = (conns state1)(4 \<mapsto> C') \<and> fault s' = fault state1 \<and>
     conn_sendable C' \<le> conn_max_payload conn1 \<and> conn_sendable C' \<le> conn_ob_capacity conn1 \<and>
     unat (conn_sendable C') \<le> unat (conn_rx_win conn1) - unat (conn_tx_seq conn1 - conn_rx_ack conn1) \<and>
     (has_flag (conn_events C') POLLIN \<longleftrightarrow> conn_sendable C' \<noteq> 0) \<and>
     (has_flag (conn_events C') POLLOUT \<longleftrightarrow> conn_ib_size conn1 \<noteq> 0)) state1"
  by (rule update_connection_bounds [where c = 3 and cl = client1]) (simp_all add: sample_states)

section \<open>Packets of the device\<close>



text \<open>
  C13. Data of an open connection is appended to what is pending, in order; any packet
  that is not plain data ends the connection.
\<close>

theorem tcp_data_in_order:
  assumes "wf s" and "world_ok E" and "calm s" and "\<not> client_list_mutex s"
    and "conns s k = Some C" and "conn_state C = CONN_CONNECTED" and "length payload \<le> unat DEV_MRU" and "conn_ib_room C payload"
  shows "wp (tcp_connected E k th payload) (\<lambda>_ s'. fault s' = fault s \<and> (conns s' k = None \<or>
     th_flags th = TH_ACK \<and> (\<exists>C'. conns s' k = Some C' \<and> conn_pending C' = conn_pending C @ payload))) s"
  by (rule wp_mono [OF wp_tcp_connected [OF assms]]) (auto dest: soundD(3))

theorem tcp_data_in_order_witness:
  "wp (tcp_connected ext0 4 (tcphdr_zero\<lparr>th_flags := TH_ACK\<rparr>) [7]) (\<lambda>_ s'. fault s' = fault state1 \<and> (conns s' 4 = None \<or>
     th_flags (tcphdr_zero\<lparr>th_flags := TH_ACK\<rparr>) = TH_ACK \<and>
     (\<exists>C'. conns s' 4 = Some C' \<and> conn_pending C' = conn_pending conn1 @ [7]))) state1"
  by (rule tcp_data_in_order [where C = conn1, OF wf_samples(1) sample_world(1) calm_samples(1)])
    (simp_all add: sample_states, simp_all add: conn_ib_room_def sample_defs size_consts)



section \<open>Opening a connection\<close>

text \<open>
  C19. The search for a source port ends, and returns a port that no connection of the
  device uses, or 0 because all 65535 are taken; nothing but the counter changes.
\<close>

theorem find_sport_fresh:
  assumes "wf s" and "devs s d = Some D" and "dev_connections D = Some ks"
  shows "wp (find_sport d) (\<lambda>sport s'. fault s' = fault s \<and>
     (65535 \<le> length ks \<and> sport = 0 \<and> s' = s \<or>
      length ks < 65535 \<and> (\<forall>k\<in>set ks. conn_sport (the (conns s k)) \<noteq> sport) \<and>
        s' = s\<lparr>devs := (devs s)(d \<mapsto> D\<lparr>dev_next_sport := sport + 1\<rparr>)\<rparr>)) s"
proof -
  have live: "\<And>k. k \<in> set ks \<Longrightarrow> \<exists>C. conns s k = Some C"
    using tablesD_dev(2) [OF wfD(5) [OF assms(1)] assms(2,3)] by blast
  show ?thesis
    by (rule wp_mono [OF wp_find_sport [OF assms(2,3) live]]) (auto simp: ports_used_def)
qed

theorem find_sport_fresh_witness:
  "wp (find_sport 2) (\<lambda>sport s'. fault s' = fault state1 \<and>
     (65535 \<le> length [4 :: nat] \<and> sport = 0 \<and> s' = state1 \<or>
      length [4 :: nat] < 65535 \<and> (\<forall>k\<in>set [4]. conn_sport (the (conns state1 k)) \<noteq> sport) \<and>
        s' = state1\<lparr>devs := (devs state1)(2 \<mapsto> dev1\<lparr>dev_next_sport := sport + 1\<rparr>)\<rparr>)) state1"
  by (rule find_sport_fresh [OF wf_samples(1)]) (simp_all add: sample_states)

text \<open>
  C8. A connect request of a client in the command state is answered with an error and
  nothing else happens, or a fresh connection for this client waits for the device, and
  the client for it. There is no memory error, and the invariant is kept.
\<close>

theorem connect_request_safe:
  assumes "wf s" and "world_ok E" and "\<not> device_list_mutex s"
    and "clients s c = Some cl" "cl_state cl = CLIENT_COMMAND" "unat (cl_ob_capacity cl) < 2 ^ 31"
    and "\<And>d D. devs s d = Some D \<Longrightarrow> dev_id D = device_id \<Longrightarrow> dev_state D \<noteq> MUXDEV_INIT"
  shows "wp (begin_connect E c tag device_id port) (\<lambda>res s'. res = 0 \<and> wf s' \<and> fault s' = fault s \<and>
     ((\<exists>r. conns s' = conns s \<and> clients s' c = Some (answered E tag r cl)) \<or>
      (\<exists>k C. conns s k = None \<and> conns s' = (conns s)(k \<mapsto> C) \<and> conn_client C = Some c \<and> conn_state C = CONN_CONNECTING \<and>
         clients s' c = Some (cl\<lparr>cl_connect_tag := tag, cl_connect_device := device_id, cl_state := CLIENT_CONNECTING1\<rparr>)))) s"
  by (rule wp_mono [OF wp_begin_connect [OF assms]]) (blast dest: safeD(1,2))+

theorem connect_request_safe_witness:
  "wp (begin_connect ext0 5 8 1 22) (\<lambda>res s'. res = 0 \<and> wf s' \<and> fault s' = fault state1 \<and>
     ((\<exists>r. conns s' = conns state1 \<and> clients s' 5 = Some (answered ext0 8 r client2)) \<or>
      (\<exists>k C. conns state1 k = None \<and> conns s' = (conns state1)(k \<mapsto> C) \<and> conn_client C = Some 5 \<and> conn_state C = CONN_CONNECTING \<and>
         clients s' 5 = Some (client2\<lparr>cl_connect_tag := 8, cl_connect_device := 1, cl_state := CLIENT_CONNECTING1\<rparr>)))) state1"
  by (rule connect_request_safe [OF wf_samples(1) sample_world(1)])
    (simp_all add: sample_states, auto simp: state1_def sample_defs size_consts split: if_splits)

text \<open>
  C20. The identifier of a new device is the one of no other device in the list; the
  search ends, since there are fewer than \<open>2 ^ 32\<close> devices.
\<close>

theorem get_next_device_id_fresh:
  assumes "wf s" and "\<not> device_list_mutex s" and "length (device_list s) < 2 ^ 32"
  shows "wp get_next_device_id (\<lambda>i s'. (\<forall>d D. devs s d = Some D \<longrightarrow> dev_id D \<noteq> i) \<and> s' = s\<lparr>next_device_id := i + 1\<rparr>) s"
proof -
  have live: "\<And>d. d \<in> set (device_list s) \<Longrightarrow> \<exists>D. devs s d = Some D" using wfD(3) [OF assms(1)] by blast
  have used: "dev_id D \<in> ids_used s" if "devs s d = Some D" for d D
    using that wfD(3) [OF assms(1)] unfolding ids_used_def by force
  show ?thesis
    by (rule wp_mono [OF wp_get_next_device_id [OF live assms(2,3)]]) (use used in blast)+
qed

theorem get_next_device_id_fresh_witness:
  "wp get_next_device_id (\<lambda>i s'. (\<forall>d D. devs state1 d = Some D \<longrightarrow> dev_id D \<noteq> i) \<and> s' = state1\<lparr>next_device_id := i + 1\<rparr>) state1"
  by (rule get_next_device_id_fresh [OF wf_samples(1)]) (simp_all add: sample_states, simp add: state1_def)

section \<open>Notifications\<close>

text \<open>
  C21. When a device goes, every client that listens gets exactly one message about it
  behind what is pending for it, and no other client notices anything.
\<close>

theorem listeners_told_removal:
  assumes "wf s" and "calm s" and "\<not> client_list_mutex s" and "world_ok E" and "notices_ok E"
  shows "wp (client_device_remove E i) (\<lambda>_ s'. wf s' \<and> fault s' = fault s \<and> conns s' = conns s \<and> devs s' = devs s \<and>
     clients s' = (\<lambda>c. map_option (told (device_notice E MESSAGE_DEVICE_REMOVE ''Detached'' i)) (clients s c))) s"
  unfolding client_device_remove_def
  by (rule wp_mono [OF wp_locked_tell [OF assms(1-3) sends_device_notice(1) [OF assms(4,5)]]]) (simp add: safe_def)

theorem listeners_told_removal_witness:
  "wp (client_device_remove ext0 1) (\<lambda>_ s'. wf s' \<and> fault s' = fault state2 \<and> conns s' = conns state2 \<and> devs s' = devs state2 \<and>
     clients s' = (\<lambda>c. map_option (told (device_notice ext0 MESSAGE_DEVICE_REMOVE ''Detached'' 1)) (clients state2 c))) state2"
  by (rule listeners_told_removal [OF wf_samples(2) calm_samples(2) _ sample_world]) (simp add: sample_states)

section \<open>Faults\<close>

text \<open>
  C35. A device that sends more than the in-buffer of a connection takes makes the daemon
  use freed memory: the connection is taken down where the overflow is found, and the
  caller then acknowledges on it.
\<close>

theorem tcp_overflow_fault:
  assumes "wf s" and "world_ok E" and "calm s" and "\<not> client_list_mutex s" and "fault s = None"
    and "conns s k = Some C" and "length payload \<le> unat DEV_MRU" and "\<not> conn_ib_room C payload" and "th_flags th = TH_ACK"
  shows "wp (tcp_connected E k th payload) (\<lambda>_ s'. fault s' = Some UseAfterFree) s"
  using wp_overflow [OF assms] by (simp add: faulted_def [abs_def])

definition full_conn :: mux_connection where
  "full_conn = conn1\<lparr>conn_ib_buf := replicate 262144 0, conn_ib_size := 262144\<rparr>"

definition full_state :: "bytes daemon" where
  "full_state = state1\<lparr>conns := (conns state1)(4 \<mapsto> full_conn)\<rparr>"

theorem tcp_overflow_fault_witness:
  "wp (tcp_connected ext0 4 (tcphdr_zero\<lparr>th_flags := TH_ACK\<rparr>) [1]) (\<lambda>_ s'. fault s' = Some UseAfterFree) full_state"
proof -
  have "conn_ok full_conn"
    by (simp add: full_conn_def sample_defs conn_ok_def conn_ib_ok_def size_consts MAX_PAYLOAD_def)
  then have "wf full_state"
    by (rule wf_upd_conn [OF wf_samples(1) sample_states(10)]) (simp_all add: full_state_def full_conn_def)
  then show ?thesis
    by (rule tcp_overflow_fault [where C = full_conn, OF _ sample_world(1) calm_same [OF calm_samples(1)]])
      (simp_all add: full_state_def sample_states, simp_all add: full_conn_def conn_ib_room_def sample_defs size_consts)
qed

text \<open>
  C36. A client that listens and sends a command, here one of just a header, makes the
  daemon write to freed memory: the command closes the client, and the reader then
  resets the fill count of its buffer.
\<close>

theorem listener_command_fault:
  assumes "wf s" and "world_ok E" and "clients s c = Some cl" "cl_state cl = CLIENT_LISTEN"
    "unat (cl_ob_capacity cl) < 2 ^ 31" "cl_ib_size cl = 0" and "\<not> client_list_mutex s" and "fault s = None"
    and "os_recv E (calls s) (cl_fd cl) 16 = Inr (enc_usbmuxd_header hdr)" "hdr_length hdr = 16"
  shows "wp (input_buffer_process E c) (\<lambda>_ s'. fault s' = Some UseAfterFree) s"
  using wp_listener_command [OF assms] by (simp add: faulted_def [abs_def])

definition sample_hdr :: usbmuxd_header where
  "sample_hdr = \<lparr>hdr_length = 16, hdr_version = 0, hdr_message = 3, hdr_tag = 1\<rparr>"

definition ext_hdr :: "bytes ext" where
  "ext_hdr = ext0\<lparr>os_recv := \<lambda>_ _ n. Inr (take n (enc_usbmuxd_header sample_hdr))\<rparr>"

theorem listener_command_fault_witness:
  "wp (input_buffer_process ext_hdr 5) (\<lambda>_ s'. fault s' = Some UseAfterFree) state2"
proof -
  have "world_ok ext_hdr"
    by (simp add: world_ok_def collections_ok_def sockets_ok_def replies_ok_def clock_ok_def result_plist_def ext0_def ext_hdr_def)
  moreover have "os_recv ext_hdr (calls state2) (cl_fd client4) 16 = Inr (enc_usbmuxd_header sample_hdr)"
    using client_header.enc_width [of sample_hdr] by (simp add: ext_hdr_def)
  ultimately show ?thesis
    by (intro listener_command_fault [where cl = client4 and hdr = sample_hdr, OF wf_samples(2)])
      (simp_all add: sample_states sample_hdr_def, simp_all add: sample_more size_consts)
qed

text \<open>
  C38. A connect request to a device that has not answered with its version yet reads the
  list of connections before it is set up.
\<close>

theorem early_connect_fault:
  assumes "wf s" and "\<not> device_list_mutex s" and "fault s = None"
    and "devs s d = Some D" and "dev_state D = MUXDEV_INIT"
  shows "wp (device_start_connect E (dev_id D) dport c) (\<lambda>_ s'. fault s' = Some Uninitialised) s"
  using wp_start_connect_early [OF assms] by (simp add: faulted_def [abs_def])

theorem early_connect_fault_witness:
  "wp (device_start_connect ext0 1 22 5) (\<lambda>_ s'. fault s' = Some Uninitialised) state3"
  using early_connect_fault [OF wf_samples(3), where d = 2 and D = dev3 and E = ext0 and dport = 22 and c = 5]
  by (simp add: sample_states)

section \<open>Devices and clients that come and go\<close>



text \<open>
  C4. A TCP packet of any length that the device cuts into USB transfers is seen by the
  daemon as one packet: feeding the pieces is the same as handling the header and the
  payload that were sent, in a state that differs in the packet buffer and the received
  sequence number only.
\<close>

theorem tcp_packet_delivered:
  assumes "wf s" and "\<not> device_list_mutex s" and "devs s d = Some D" and "dev_usbdev D = p" and "dev_pktlen D = 0"
    and "\<And>d' D'. devs s d' = Some D' \<Longrightarrow> dev_usbdev D' = p \<Longrightarrow> d' = d"
    and "2 \<le> dev_version S \<longleftrightarrow> 2 \<le> dev_version D" and "mux_header_size D + 20 + length payload \<le> unat DEV_MRU"
  shows "\<exists>D'. rebuf D D' \<and> dev_pktlen D' = 0 \<and>
    run_state (feed (device_data_input E p) (pieces (mux_packet S MUX_PROTO_TCP (enc_tcphdr th) payload))) s =
    run_state (device_tcp_input E d th payload) (s\<lparr>devs := (devs s)(d \<mapsto> rx_noted S D')\<rparr>)"
  by (rule run_delivered [OF assms])

theorem tcp_packet_delivered_witness:
  "\<exists>D'. rebuf dev1 D' \<and> dev_pktlen D' = 0 \<and>
    run_state (feed (device_data_input ext0 1) (pieces (mux_packet dev1 MUX_PROTO_TCP (enc_tcphdr tcphdr_zero) (replicate 40000 7)))) state1 =
    run_state (device_tcp_input ext0 2 tcphdr_zero (replicate 40000 7)) (state1\<lparr>devs := (devs state1)(2 \<mapsto> rx_noted dev1 D')\<rparr>)"
  by (rule tcp_packet_delivered [OF wf_samples(1)])
    (simp_all add: sample_states, simp_all add: sample_more mux_header_size_def size_consts split: if_splits)

text \<open>
  C9. A USB device that is ready becomes a device with a fresh identifier that waits for
  its version answer, or nothing is left of it.
\<close>

theorem device_add_safe:
  assumes "wf s" and "collections_ok E" and "\<not> device_list_mutex s" and "length (device_list s) < 2 ^ 32"
    and "udevs s p = Some u" and "ud_wMaxPacketSize u \<noteq> 0"
  shows "wp (device_add E p) (\<lambda>r s'. wf s' \<and> fault s' = fault s \<and> conns s' = conns s \<and> clients s' = clients s \<and>
     (r < 0 \<and> devs s' = devs s \<or>
      r = 0 \<and> (\<exists>d D. devs s d = None \<and> devs s' = (devs s)(d \<mapsto> D) \<and> dev_usbdev D = p \<and> dev_state D = MUXDEV_INIT \<and>
        (\<forall>d' D'. devs s d' = Some D' \<longrightarrow> dev_id D' \<noteq> dev_id D)))) s"
proof (rule wp_mono [OF wp_device_add [OF assms]], goal_cases)
  case (1 r s')
  have "devs s (next_ptr s) = None" using wfD(8) [OF assms(1), of "next_ptr s"] by simp
  with 1 show ?case
    by (auto simp: safe_def intro!: exI [of _ "next_ptr s"])
qed

theorem device_add_safe_witness:
  "wp (device_add ext0 1) (\<lambda>r s'. wf s' \<and> fault s' = fault state1 \<and> conns s' = conns state1 \<and> clients s' = clients state1 \<and>
     (r < 0 \<and> devs s' = devs state1 \<or>
      r = 0 \<and> (\<exists>d D. devs state1 d = None \<and> devs s' = (devs state1)(d \<mapsto> D) \<and> dev_usbdev D = 1 \<and> dev_state D = MUXDEV_INIT \<and>
        (\<forall>d' D'. devs state1 d' = Some D' \<longrightarrow> dev_id D' \<noteq> dev_id D)))) state1"
  by (rule device_add_safe [OF wf_samples(1) ext0_ok(1), where u = udev1])
    (simp_all add: sample_states, simp_all add: state1_def sample_defs)



text \<open>
  C6. When a device goes, its connections are taken down and it is freed: no other device
  goes, no connection refers to it any more, and there is no memory error.
\<close>

theorem device_remove_safe:
  assumes "wf s" and "calm s" and "world_ok E" and "notices_ok E" and "\<not> device_list_mutex s" and "\<not> client_list_mutex s"
    and "settled s" and "udevs s p = Some u" and "devs s d0 = Some D0" and "dev_usbdev D0 = p"
  shows "wp (device_remove E p) (\<lambda>_ s'. wf s' \<and> fault s' = fault s \<and> (\<exists>d D. devs s d = Some D \<and> dev_usbdev D = p \<and>
     dom (devs s') = dom (devs s) - {d} \<and> (\<forall>k C. conns s' k = Some C \<longrightarrow> conn_dev C \<noteq> d))) s"
  by (rule wp_mono [OF wp_device_remove [OF assms]]) (auto simp: dev_removed_def safe_def)

theorem device_remove_safe_witness:
  "wp (device_remove ext0 1) (\<lambda>_ s'. wf s' \<and> fault s' = fault state1 \<and> (\<exists>d D. devs state1 d = Some D \<and> dev_usbdev D = 1 \<and>
     dom (devs s') = dom (devs state1) - {d} \<and> (\<forall>k C. conns s' k = Some C \<longrightarrow> conn_dev C \<noteq> d))) state1"
  by (rule device_remove_safe [OF wf_samples(1) calm_samples(1) sample_world, where u = udev1 and ?d0.0 = 2 and ?D0.0 = dev1])
    (simp_all add: sample_states, auto simp: settled_def sample_more split: if_splits)

text \<open>
  C11. Replies go out in order: one call sends a prefix of what is pending, in one piece,
  and keeps the rest; a client whose connect reply is out passes data from then on.
\<close>

theorem replies_in_order:
  assumes "wf s" and "world_ok E" and "\<not> client_list_mutex s" and "calm s"
    and "clients s c = Some cl" and "cl_state cl \<noteq> CLIENT_CONNECTED" and "cl_pending cl \<noteq> []"
  shows "wp (output_buffer_process E c) (\<lambda>_ s'. wf s' \<and> fault s' = fault s \<and> (clients s' c = None \<or>
     (\<exists>n cl'. 0 < n \<and> clients s' = (clients s)(c \<mapsto> cl') \<and> trace s' = trace s @ [SockSent (cl_fd cl) (take n (cl_pending cl))] \<and>
        cl_pending cl' = drop n (cl_pending cl) \<and>
        cl_state cl' = (if cl_state cl = CLIENT_CONNECTING2 \<and> cl_pending cl' = [] then CLIENT_CONNECTED else cl_state cl)))) s"
proof (rule wp_mono [OF wp_output_buffer_process [OF assms]], goal_cases)
  case (1 _ s')
  have ok: "client_ok cl" using wfD(7) [OF assms(1,5)] .
  have r: "cl_pending (replied n cl) = drop n (cl_pending cl) \<and>
      cl_state (replied n cl) = (if cl_state cl = CLIENT_CONNECTING2 \<and> cl_pending (replied n cl) = [] then CLIENT_CONNECTED else cl_state cl)"
    if "n \<le> length (cl_pending cl)" for n
    using replied_ok(2,3) [OF ok assms(6) that] that by auto
  from 1 have "wf s'" "fault s' = fault s" by (auto dest: soundD(1,3))
  with 1 r show ?case by blast
qed

definition client5 :: "bytes mux_client" where
  "client5 = client4\<lparr>cl_ob_buf := Some [1, 2, 3], cl_ob_size := 3, cl_events := POLLIN OR POLLOUT\<rparr>"

definition state5 :: "bytes daemon" where
  "state5 = state2\<lparr>clients := (clients state2)(5 \<mapsto> client5)\<rparr>"

theorem replies_in_order_witness:
  "wp (output_buffer_process ext0 5) (\<lambda>_ s'. wf s' \<and> fault s' = fault state5 \<and> (clients s' 5 = None \<or>
     (\<exists>n cl'. 0 < n \<and> clients s' = (clients state5)(5 \<mapsto> cl') \<and> trace s' = trace state5 @ [SockSent (cl_fd client5) (take n (cl_pending client5))] \<and>
        cl_pending cl' = drop n (cl_pending client5) \<and>
        cl_state cl' = (if cl_state client5 = CLIENT_CONNECTING2 \<and> cl_pending cl' = [] then CLIENT_CONNECTED else cl_state client5)))) state5"
proof -
  have "client_ok client5" by (simp add: client5_def sample_more client_ok_def cl_ob_ok_def size_consts)
  then have wf5: "wf state5"
    by (rule wf_upd_client [OF wf_samples(2) sample_states(15)]) (simp_all add: state5_def client5_def io_rest_def udev_core_def)
  have "calm state5" using calm_samples(2) by (auto simp: calm_def state5_def client5_def sample_more size_consts split: if_splits)
  then show ?thesis
    by (intro replies_in_order [OF wf5 sample_world(1), where cl = client5])
      (simp_all add: state5_def sample_states, simp_all add: client5_def sample_more cl_pending_def)
qed

end
